theory Spec2Isabelle
  imports Complex_Main "HOL-Library.Word" "HOL-Library.Monad_Syntax"
begin

section \<open>Conventions\<close>

text \<open>
  The simulator is C++ over \<^verbatim>\<open>double\<close>. Every \<^verbatim>\<open>double\<close> is read here as a
  real number, so the theorems below are about the exact arithmetic the code
  approximates; rounding is outside the model. Machine integers
  (\<^verbatim>\<open>int\<close>, \<^verbatim>\<open>unsigned\<close>) keep their 32-bit width wherever a wrap-around can
  occur. A \<^verbatim>\<open>c_vector<double, 2>\<close> is a pair of reals.
\<close>

text \<open>
  A quotient by zero is not a real number: the floating-point division returns an
  infinity or a NaN and the program goes on with it. Where a result of the program
  rests on such a quotient, the division is written with \<open>fdiv\<close> (of two
  \<^verbatim>\<open>double\<close>s) or \<open>cdiv\<close> (of a \<^verbatim>\<open>std::complex<double>\<close> by a \<^verbatim>\<open>double\<close>), which
  have no value when the divisor is zero. The other quotients are written with the
  division of the reals.
\<close>

definition fdiv :: "real \<Rightarrow> real \<Rightarrow> real option" where
  "fdiv x y = (if y = 0 then None else Some (x / y))"

definition cdiv :: "complex \<Rightarrow> real \<Rightarrow> complex option" where
  "cdiv z y = (if y = 0 then None else Some (z / of_real y))"

type_synonym vec2 = "real \<times> real"

definition norm_2 :: "vec2 \<Rightarrow> real" where
  "norm_2 v = sqrt (fst v * fst v + snd v * snd v)"

definition inner_prod :: "vec2 \<Rightarrow> vec2 \<Rightarrow> real" where
  "inner_prod a b = fst a * fst b + snd a * snd b"

definition vadd :: "vec2 \<Rightarrow> vec2 \<Rightarrow> vec2" where
  "vadd a b = (fst a + fst b, snd a + snd b)"

definition vsub :: "vec2 \<Rightarrow> vec2 \<Rightarrow> vec2" where
  "vsub a b = (fst a - fst b, snd a - snd b)"

definition vscale :: "real \<Rightarrow> vec2 \<Rightarrow> vec2" where
  "vscale c a = (c * fst a, c * snd a)"

text \<open>\<^verbatim>\<open>copysign(x, y)\<close>: the magnitude of \<open>x\<close> with the sign of \<open>y\<close>.\<close>

definition copysign :: "real \<Rightarrow> real \<Rightarrow> real" where
  "copysign x y = (if y < 0 then - \<bar>x\<bar> else \<bar>x\<bar>)"

section \<open>Periodic geometry: \<^verbatim>\<open>ImmersedBoundaryMesh::GetVectorFromAtoB\<close>\<close>

text \<open>The body of the loop over \<^verbatim>\<open>dim\<close>, applied to one component of
  \<^verbatim>\<open>rLocation2 - rLocation1\<close>.\<close>

definition periodic_component :: "real \<Rightarrow> real" where
  "periodic_component v =
     (if \<bar>v\<bar> > 0.5 then copysign (\<bar>v\<bar> - 1.0) (- v) else v)"

definition GetVectorFromAtoB :: "vec2 \<Rightarrow> vec2 \<Rightarrow> vec2" where
  "GetVectorFromAtoB rLocation1 rLocation2 =
     (periodic_component (fst rLocation2 - fst rLocation1),
      periodic_component (snd rLocation2 - snd rLocation1))"

text \<open>A point of the unit square \<open>[0,1)\<^sup>2\<close>.\<close>

definition in_unit_square :: "vec2 \<Rightarrow> bool" where
  "in_unit_square p = (0 \<le> fst p \<and> fst p < 1 \<and> 0 \<le> snd p \<and> snd p < 1)"

text \<open>The contract of the spec for one component.\<close>

definition shortest_component :: "real \<Rightarrow> real \<Rightarrow> real" where
  "shortest_component a b =
     (if \<bar>b - a\<bar> > 0.5 then sgn (a - b) * (1 - \<bar>b - a\<bar>) else b - a)"

section \<open>Upwind advection: \<^verbatim>\<open>ImmersedBoundarySimulationModifier::UpwindScheme\<close>\<close>

type_synonym grid = "real list list"

definition SetupGrid :: "nat \<Rightarrow> nat \<Rightarrow> grid" where
  "SetupGrid Ny Nx = replicate Ny (replicate Nx 0)"

definition set_cell :: "'a list list \<Rightarrow> nat \<Rightarrow> nat \<Rightarrow> 'a \<Rightarrow> 'a list list" where
  "set_cell g y x v = g[y := (g ! y)[x := v]]"

record upwind_state =
  prev_x :: nat
  next_x :: nat
  prev_y :: nat
  next_y :: nat
  out_x :: grid
  out_y :: grid

definition upwind_init :: "nat \<Rightarrow> nat \<Rightarrow> upwind_state" where
  "upwind_init Nx Ny =
     \<lparr> prev_x = (Nx + 2 ^ 32 - 1) mod 2 ^ 32,
       next_x = 1,
       prev_y = (Ny + 2 ^ 32 - 1) mod 2 ^ 32,
       next_y = 1,
       out_x = SetupGrid Ny Nx,
       out_y = SetupGrid Ny Nx \<rparr>"

definition upwind_cell ::
  "nat \<Rightarrow> nat \<Rightarrow> grid \<Rightarrow> grid \<Rightarrow> nat \<Rightarrow> nat \<Rightarrow> upwind_state \<Rightarrow> upwind_state" where
  "upwind_cell Nx Ny in_x in_y y x s =
     (let dx = 1 / real Nx; dy = 1 / real Ny;
          u = in_x ! y ! x; v = in_y ! y ! x;
          ox = (if u > 0 then u * (u - in_x ! y ! prev_x s) / dx
                else u * (in_x ! y ! next_x s - u) / dx);
          oy = (if u > 0 then u * (v - in_y ! y ! prev_x s) / dx
                else u * (in_y ! y ! next_x s - v) / dx);
          ox' = ox + (if v > 0 then v * (u - in_x ! prev_y s ! x) / dy
                      else v * (in_x ! next_y s ! x - u) / dy);
          oy' = oy + (if v > 0 then v * (v - in_y ! prev_y s ! x) / dy
                      else v * (in_y ! next_y s ! x - v) / dy)
      in s\<lparr> out_x := set_cell (out_x s) y x ox',
             out_y := set_cell (out_y s) y x oy',
             prev_x := ((prev_x s + 1) mod 2 ^ 32) mod Nx,
             next_x := ((next_x s + 1) mod 2 ^ 32) mod Nx \<rparr>)"

definition upwind_row ::
  "nat \<Rightarrow> nat \<Rightarrow> grid \<Rightarrow> grid \<Rightarrow> nat \<Rightarrow> upwind_state \<Rightarrow> upwind_state" where
  "upwind_row Nx Ny in_x in_y y s =
     (let s' = fold (upwind_cell Nx Ny in_x in_y y) [0..<Nx] s
      in s'\<lparr> prev_y := ((prev_y s' + 1) mod 2 ^ 32) mod Ny,
              next_y := ((next_y s' + 1) mod 2 ^ 32) mod Ny \<rparr>)"

definition UpwindScheme :: "nat \<Rightarrow> nat \<Rightarrow> grid \<Rightarrow> grid \<Rightarrow> grid \<times> grid" where
  "UpwindScheme Nx Ny in_x in_y =
     (let s = fold (upwind_row Nx Ny in_x in_y) [0..<Ny] (upwind_init Nx Ny)
      in (out_x s, out_y s))"

definition upwind_state_at ::
  "nat \<Rightarrow> nat \<Rightarrow> grid \<Rightarrow> grid \<Rightarrow> nat \<Rightarrow> nat \<Rightarrow> upwind_state" where
  "upwind_state_at Nx Ny in_x in_y y x =
     fold (upwind_cell Nx Ny in_x in_y y) [0..<x]
       (fold (upwind_row Nx Ny in_x in_y) [0..<y] (upwind_init Nx Ny))"

definition upwind_formula ::
  "nat \<Rightarrow> nat \<Rightarrow> grid \<Rightarrow> grid \<Rightarrow> grid \<Rightarrow> nat \<Rightarrow> nat \<Rightarrow> real" where
  "upwind_formula Nx Ny u v w y x =
     (if u ! y ! x > 0
      then u ! y ! x * (w ! y ! x - w ! y ! ((x + Nx - 1) mod Nx)) / (1 / real Nx)
      else u ! y ! x * (w ! y ! ((x + 1) mod Nx) - w ! y ! x) / (1 / real Nx))
     + (if v ! y ! x > 0
        then v ! y ! x * (w ! y ! x - w ! ((y + Ny - 1) mod Ny) ! x) / (1 / real Ny)
        else v ! y ! x * (w ! ((y + 1) mod Ny) ! x - w ! y ! x) / (1 / real Ny))"

definition upwind_grid ::
  "nat \<Rightarrow> nat \<Rightarrow> grid \<Rightarrow> grid \<Rightarrow> grid \<Rightarrow> grid" where
  "upwind_grid Nx Ny u v w =
     map (\<lambda>y. map (\<lambda>x. upwind_formula Nx Ny u v w y x) [0..<Nx]) [0..<Ny]"

text \<open>Invariant of the inner loop after k cells of row y.\<close>

definition row_inv ::
  "nat \<Rightarrow> nat \<Rightarrow> grid \<Rightarrow> grid \<Rightarrow> nat \<Rightarrow> nat \<Rightarrow> upwind_state \<Rightarrow> bool" where
  "row_inv Nx Ny in_x in_y y k s =
     (prev_x s = (k + Nx - 1) mod Nx \<and> next_x s = (k + 1) mod Nx
      \<and> prev_y s = (y + Ny - 1) mod Ny \<and> next_y s = (y + 1) mod Ny
      \<and> length (out_x s) = Ny \<and> length (out_y s) = Ny
      \<and> (\<forall>r < Ny. length (out_x s ! r) = Nx \<and> length (out_y s ! r) = Nx)
      \<and> (\<forall>r < y. \<forall>c < Nx. out_x s ! r ! c = upwind_formula Nx Ny in_x in_y in_x r c
                          \<and> out_y s ! r ! c = upwind_formula Nx Ny in_x in_y in_y r c)
      \<and> (\<forall>c < k. out_x s ! y ! c = upwind_formula Nx Ny in_x in_y in_x y c
                \<and> out_y s ! y ! c = upwind_formula Nx Ny in_x in_y in_y y c))"

section \<open>Pressure solve: \<^verbatim>\<open>ImmersedBoundarySimulationModifier::SolveNavierStokesSpectral\<close>\<close>

text \<open>
  The tables \<^verbatim>\<open>mSin2X\<close>, \<^verbatim>\<open>mSin2Y\<close> of \<^verbatim>\<open>SetupConstantMemberVariables\<close>, with the
  grid spacing \<open>1 / N\<close>. The transforms \<^verbatim>\<open>VelX_hat\<close>, \<^verbatim>\<open>VelY_hat\<close> come from the FFT
  library and are arbitrary complex grids here.
\<close>

type_synonym cgrid = "complex list list"

definition mSin2 :: "nat \<Rightarrow> nat \<Rightarrow> real" where
  "mSin2 N k = sin (2 * pi * real k * (1 / real N))"

definition pressure_numerator ::
  "nat \<Rightarrow> nat \<Rightarrow> cgrid \<Rightarrow> cgrid \<Rightarrow> nat \<Rightarrow> nat \<Rightarrow> complex" where
  "pressure_numerator Nx Ny VelX_hat VelY_hat y x =
     - \<i> * (of_real (mSin2 Nx x) * (VelX_hat ! y ! x) / of_real (1 / real Nx)
            + of_real (mSin2 Ny y) * (VelY_hat ! y ! x) / of_real (1 / real Ny))"

definition pressure_denominator :: "nat \<Rightarrow> nat \<Rightarrow> real \<Rightarrow> real \<Rightarrow> nat \<Rightarrow> nat \<Rightarrow> real" where
  "pressure_denominator Nx Ny dt reynolds y x =
     (mSin2 Nx x * mSin2 Nx x / ((1 / real Nx) * (1 / real Nx))
      + mSin2 Ny y * mSin2 Ny y / ((1 / real Ny) * (1 / real Ny))) * (dt / reynolds)"

text \<open>
  The loop that fills \<^verbatim>\<open>p_hat\<close>, then the four assignments after it. A cell of
  \<^verbatim>\<open>p_hat\<close> is \<open>None\<close> when the loop has divided by zero there, and holds no number.
\<close>

type_synonym pgrid = "complex option list list"

definition pressure_loop ::
  "nat \<Rightarrow> nat \<Rightarrow> real \<Rightarrow> real \<Rightarrow> cgrid \<Rightarrow> cgrid \<Rightarrow> pgrid" where
  "pressure_loop Nx Ny dt reynolds VelX_hat VelY_hat =
     map (\<lambda>y. map (\<lambda>x. cdiv (pressure_numerator Nx Ny VelX_hat VelY_hat y x)
                               (pressure_denominator Nx Ny dt reynolds y x)) [0..<Nx]) [0..<Ny]"

definition calculate_pressure ::
  "nat \<Rightarrow> nat \<Rightarrow> real \<Rightarrow> real \<Rightarrow> cgrid \<Rightarrow> cgrid \<Rightarrow> pgrid" where
  "calculate_pressure Nx Ny dt reynolds VelX_hat VelY_hat =
     (let p0 = pressure_loop Nx Ny dt reynolds VelX_hat VelY_hat;
          p1 = set_cell p0 0 0 (Some 0);
          p2 = set_cell p1 0 (Nx div 2) (Some 0);
          p3 = set_cell p2 (Ny div 2) (Nx div 2) (Some 0);
          p4 = set_cell p3 (Ny div 2) 0 (Some 0)
      in p4)"

text \<open>The four modes the code sets to zero.\<close>

definition gauge_mode :: "nat \<Rightarrow> nat \<Rightarrow> nat \<Rightarrow> nat \<Rightarrow> bool" where
  "gauge_mode Nx Ny y x = ((x = 0 \<or> x = Nx div 2) \<and> (y = 0 \<or> y = Ny div 2))"

section \<open>Force spreading: \<^verbatim>\<open>ImmersedBoundarySimulationModifier::PropagateForcesToFluidGrid\<close>\<close>

definition Delta1D :: "real \<Rightarrow> real \<Rightarrow> real" where
  "Delta1D distance spacing = (0.25 * (1.0 + cos (pi * distance / (2 * spacing)))) / spacing"

text \<open>
  \<^verbatim>\<open>first_idx_x\<close> and \<^verbatim>\<open>first_idx_y\<close> are \<^verbatim>\<open>int\<close>, the loop counters and the grid sizes
  \<^verbatim>\<open>unsigned\<close>: the sum \<^verbatim>\<open>first_idx_x + x_idx\<close> is computed in 32-bit unsigned
  arithmetic and then converted to \<^verbatim>\<open>double\<close> or reduced modulo the grid size. Both
  indices are 32-bit words here, read with \<open>unat\<close>; \<open>- 1\<close> is the word of all ones. The
  indices are updated inside the loops, and the update is kept across iterations as in
  the source.
\<close>

record spread_state =
  first_idx_x :: "32 word"
  first_idx_y :: "32 word"
  stencil :: "((nat \<times> nat) \<times> real) list"

text \<open>The body of the inner loop: one cell of the stencil, as (row, column) and the
  product of the two delta-function values.\<close>

definition spread_inner ::
  "nat \<Rightarrow> nat \<Rightarrow> vec2 \<Rightarrow> real \<Rightarrow> 32 word \<Rightarrow> 32 word \<Rightarrow> spread_state \<Rightarrow> spread_state" where
  "spread_inner Nx Ny node_location dist_x x_idx y_idx s =
     (let dist_y = \<bar>real (unat (first_idx_y s + y_idx)) * (1 / real Ny) - snd node_location\<bar>;
          fy = (if first_idx_y s = - 1 then first_idx_y s + of_nat Ny else first_idx_y s);
          w = Delta1D dist_x (1 / real Nx) * Delta1D dist_y (1 / real Ny)
      in s\<lparr> first_idx_y := fy,
             stencil := stencil s @
               [((unat (fy + y_idx) mod Ny, unat (first_idx_x s + x_idx) mod Nx), w)] \<rparr>)"

definition spread_outer ::
  "nat \<Rightarrow> nat \<Rightarrow> vec2 \<Rightarrow> 32 word \<Rightarrow> spread_state \<Rightarrow> spread_state" where
  "spread_outer Nx Ny node_location x_idx s =
     (let dist_x = \<bar>real (unat (first_idx_x s + x_idx)) * (1 / real Nx) - fst node_location\<bar>;
          fx = (if first_idx_x s = - 1 then first_idx_x s + of_nat Nx else first_idx_x s)
      in fold (spread_inner Nx Ny node_location dist_x x_idx) [0, 1, 2, 3]
           (s\<lparr> first_idx_x := fx \<rparr>))"

definition spread_stencil :: "nat \<Rightarrow> nat \<Rightarrow> vec2 \<Rightarrow> ((nat \<times> nat) \<times> real) list" where
  "spread_stencil Nx Ny node_location =
     stencil (fold (spread_outer Nx Ny node_location) [0, 1, 2, 3]
       \<lparr> first_idx_x = word_of_int \<lfloor>fst node_location / (1 / real Nx)\<rfloor> - 1,
         first_idx_y = word_of_int \<lfloor>snd node_location / (1 / real Ny)\<rfloor> - 1,
         stencil = [] \<rparr>)"

text \<open>The deposit of one node into one force grid: \<^verbatim>\<open>grid[row][col] += force * w * dl\<close>
  for each cell of the stencil, in order.\<close>

definition add_cell :: "grid \<Rightarrow> nat \<Rightarrow> nat \<Rightarrow> real \<Rightarrow> grid" where
  "add_cell g y x v = set_cell g y x (g ! y ! x + v)"

definition spread_node :: "nat \<Rightarrow> nat \<Rightarrow> real \<Rightarrow> vec2 \<Rightarrow> real \<Rightarrow> grid \<Rightarrow> grid" where
  "spread_node Nx Ny dl node_location force g =
     fold (\<lambda>((y, x), w) g. add_cell g y x (force * w * dl)) (spread_stencil Nx Ny node_location) g"

text \<open>The sum of all cells of a grid, and the sum of the stencil's weights scaled by the
  cell area \<open>Dx * Dy\<close>, which the spec requires to be 1.\<close>

definition grid_total :: "grid \<Rightarrow> real" where
  "grid_total g = sum_list (map sum_list g)"

definition stencil_weight_sum :: "nat \<Rightarrow> nat \<Rightarrow> vec2 \<Rightarrow> real" where
  "stencil_weight_sum Nx Ny node_location =
     sum_list (map snd (spread_stencil Nx Ny node_location)) * (1 / real Nx) * (1 / real Ny)"

text \<open>The index after the test \<^verbatim>\<open>if (first_idx == -1) first_idx += N\<close> of the two loops.\<close>

definition wrapped_index :: "nat \<Rightarrow> 32 word \<Rightarrow> 32 word" where
  "wrapped_index N w = (if w = - 1 then w + of_nat N else w)"

section \<open>Mesh data: \<^verbatim>\<open>ImmersedBoundaryMesh\<close>, its nodes, elements and fluid sources\<close>

text \<open>
  The mesh owns vectors of pointers to nodes, elements and fluid sources; an element
  holds pointers to its nodes. A pointer is modelled by the position of its target in
  the owning vector of the mesh, so that two elements that share a node share its
  position, and a write through one is seen through the other. The index a node or an
  element carries (\<^verbatim>\<open>GetIndex()\<close>) is a field of its own. Positions in vectors are
  natural numbers: the sizes are far below \<open>2\<^sup>3\<^sup>2\<close>.

  An exception, a failed \<^verbatim>\<open>assert\<close> and a read the source does not guard are values
  of the type \<open>error\<close>. C++ does not roll the mesh back when it throws: a function that
  can throw after it has written returns the mesh together with the error.

  \<open>NotANumber\<close> is not an exception of the program: it marks a force computed with a
  quotient by zero. The program does not stop there, it adds the infinity or NaN of the
  division to the node; no mesh of real numbers describes that state, so the run ends
  with this value.
\<close>

datatype error =
    DivisionSpacingUnset
  | DivisionSpacingError
  | AxisDoesNotCrossTwoEdges
  | AttributeMismatch
  | AssertionFailed
  | ModuloByZero
  | OutOfRange
  | NullPointer
  | NotANumber

record node =
  node_index :: nat
  location :: vec2
  region :: nat
  applied_force :: vec2
  node_attributes :: "real list"
  containing_elements :: "nat list"

record element =
  elem_index :: nat
  elem_nodes :: "nat list"
  membrane_spring_constant :: real
  membrane_rest_length :: real
  elem_attributes :: "real list"
  corner_nodes :: "nat list"
  fluid_source :: "nat option"
  average_node_spacing :: "real option"

record fluid_source_data =
  source_index :: nat
  source_location :: vec2
  strength :: real
  associated_element :: nat

record mesh =
  mNodes :: "node list"
  mElements :: "element list"
  mElementFluidSources :: "fluid_source_data list"
  mMembraneIndex :: nat
  mElementDivisionSpacing :: "real option"

text \<open>\<^verbatim>\<open>UINT_MAX\<close>, the value of \<^verbatim>\<open>mMembraneIndex\<close> of a mesh without membrane; an unset
  \<^verbatim>\<open>double\<close> (\<^verbatim>\<open>DOUBLE_UNSET\<close>) is \<open>None\<close>.\<close>

definition UINT_MAX :: nat where
  "UINT_MAX = 2 ^ 32 - 1"

text \<open>\<^verbatim>\<open>pElement->GetNodeLocation(i)\<close>, \<^verbatim>\<open>pElement->GetNodeGlobalIndex(i)\<close> and
  \<^verbatim>\<open>pNode->SetPoint(p)\<close>.\<close>

definition GetNodeLocation :: "mesh \<Rightarrow> element \<Rightarrow> nat \<Rightarrow> vec2" where
  "GetNodeLocation m e local_index = location (mNodes m ! (elem_nodes e ! local_index))"

definition GetNodeGlobalIndex :: "mesh \<Rightarrow> element \<Rightarrow> nat \<Rightarrow> nat" where
  "GetNodeGlobalIndex m e local_index = node_index (mNodes m ! (elem_nodes e ! local_index))"

definition SetPoint :: "mesh \<Rightarrow> nat \<Rightarrow> vec2 \<Rightarrow> mesh" where
  "SetPoint m p new_location =
     m\<lparr> mNodes := (mNodes m)[p := (mNodes m ! p)\<lparr> location := new_location \<rparr>] \<rparr>"

text \<open>\<^verbatim>\<open>fmod\<close>, and the reduction of a coordinate into \<open>[0,1)\<close> at the end of
  \<^verbatim>\<open>GetCentroidOfElement\<close>.\<close>

definition fmod :: "real \<Rightarrow> real \<Rightarrow> real" where
  "fmod x y = x - real_of_int (if x / y < 0 then \<lceil>x / y\<rceil> else \<lfloor>x / y\<rfloor>) * y"

definition reduce_coordinate :: "real \<Rightarrow> real" where
  "reduce_coordinate x = (if x < 0 then x + 1.0 else fmod x 1.0)"

subsection \<open>\<^verbatim>\<open>GetCentroidOfElement\<close>\<close>

fun centroid_step ::
  "vec2 \<Rightarrow> vec2 \<Rightarrow> vec2 \<times> real \<times> real \<times> real \<Rightarrow> vec2 \<times> real \<times> real \<times> real" where
  "centroid_step first_node_location next_node_location
       (pos_1, centroid_x, centroid_y, element_signed_area) =
     (let pos_2 = GetVectorFromAtoB first_node_location next_node_location;
          this_x = fst pos_1; this_y = snd pos_1;
          next_x = fst pos_2; next_y = snd pos_2;
          signed_area_term = this_x * next_y - this_y * next_x
      in (pos_2,
          centroid_x + (this_x + next_x) * signed_area_term,
          centroid_y + (this_y + next_y) * signed_area_term,
          element_signed_area + 0.5 * signed_area_term))"

definition GetCentroidOfElement :: "mesh \<Rightarrow> nat \<Rightarrow> error + vec2" where
  "GetCentroidOfElement m index =
     (if \<not> index < length (mElements m) then Inl AssertionFailed
      else if index = mMembraneIndex m then Inr (0, 0)
      else
        let p_element = mElements m ! index;
            num_nodes = length (elem_nodes p_element)
        in if num_nodes = 0 then Inl AssertionFailed
           else
             let first_node_location = GetNodeLocation m p_element 0;
                 r = fold (\<lambda>local_index.
                            centroid_step first_node_location
                              (GetNodeLocation m p_element ((local_index + 1) mod num_nodes)))
                       [0..<num_nodes] ((0, 0), 0, 0, 0);
                 centroid_x = fst (snd r);
                 centroid_y = fst (snd (snd r));
                 element_signed_area = snd (snd (snd r))
             in if element_signed_area = 0 then Inl AssertionFailed
                else Inr (reduce_coordinate
                            (fst first_node_location + centroid_x / (6.0 * element_signed_area)),
                          reduce_coordinate
                            (snd first_node_location + centroid_y / (6.0 * element_signed_area))))"

subsection \<open>\<^verbatim>\<open>CalculateMomentsOfElement\<close> and \<^verbatim>\<open>GetShortAxisOfElement\<close>\<close>

type_synonym moments = "real \<times> real \<times> real"

fun moments_step :: "vec2 \<Rightarrow> vec2 \<times> moments \<Rightarrow> vec2 \<times> moments" where
  "moments_step pos_2 (pos_1, Ixx, Iyy, Ixy) =
     (let signed_area_term = fst pos_1 * snd pos_2 - fst pos_2 * snd pos_1
      in (pos_2,
          Ixx + (snd pos_1 * snd pos_1 + snd pos_1 * snd pos_2 + snd pos_2 * snd pos_2)
                * signed_area_term,
          Iyy + (fst pos_1 * fst pos_1 + fst pos_1 * fst pos_2 + fst pos_2 * fst pos_2)
                * signed_area_term,
          Ixy + (fst pos_1 * snd pos_2 + 2 * fst pos_1 * snd pos_1
                 + 2 * fst pos_2 * snd pos_2 + fst pos_2 * snd pos_1) * signed_area_term))"

definition CalculateMomentsOfElement :: "mesh \<Rightarrow> nat \<Rightarrow> error + moments" where
  "CalculateMomentsOfElement m index =
     (if \<not> index < length (mElements m) then Inl AssertionFailed
      else
        let p_element = mElements m ! index;
            num_nodes = length (elem_nodes p_element)
        in case GetCentroidOfElement m index of
             Inl e \<Rightarrow> Inl e
           | Inr centroid \<Rightarrow>
               if num_nodes = 0 then Inl AssertionFailed
               else
                 let pos_1 = GetVectorFromAtoB centroid (GetNodeLocation m p_element 0);
                     r = fold (\<lambda>local_index.
                                moments_step (GetVectorFromAtoB centroid
                                  (GetNodeLocation m p_element ((local_index + 1) mod num_nodes))))
                           [0..<num_nodes] (pos_1, 0, 0, 0);
                     m0 = fst (snd r) / 12;
                     m1 = fst (snd (snd r)) / 12;
                     m2 = snd (snd (snd r)) / 24
                 in if m0 < 0.0 then Inr (- m0, - m1, - m2) else Inr (m0, m1, m2))"

text \<open>The discriminant of the matrix of second moments, and the test of the first
  branch of \<^verbatim>\<open>GetShortAxisOfElement\<close>.\<close>

definition moments_discriminant :: "moments \<Rightarrow> real" where
  "moments_discriminant ms =
     (fst ms - fst (snd ms)) * (fst ms - fst (snd ms)) + 4.0 * snd (snd ms) * snd (snd ms)"

definition principal_moments_equal :: "moments \<Rightarrow> bool" where
  "principal_moments_equal ms = (\<bar>moments_discriminant ms\<bar> < 1 / 10 ^ 10)"

text \<open>\<open>ranf\<close> is the value \<^verbatim>\<open>RandomNumberGenerator::Instance()->ranf()\<close> returns, a
  number of \<open>[0,1)\<close> from a generator outside this repository.\<close>

definition short_axis_of_moments :: "moments \<Rightarrow> real \<Rightarrow> vec2" where
  "short_axis_of_moments ms ranf =
     (let discriminant = moments_discriminant ms
      in if \<bar>discriminant\<bar> < 1 / 10 ^ 10
         then (ranf, sqrt (1.0 - ranf * ranf))
         else if snd (snd ms) = 0.0
              then (if fst ms < fst (snd ms) then (0.0, 1.0) else (1.0, 0.0))
              else
                let lambda = 0.5 * (fst ms + fst (snd ms) + sqrt discriminant);
                    short_axis = (1.0, (fst ms - lambda) / snd (snd ms));
                    magnitude = norm_2 short_axis
                in (fst short_axis / magnitude, snd short_axis / magnitude))"

definition GetShortAxisOfElement :: "mesh \<Rightarrow> nat \<Rightarrow> real \<Rightarrow> error + vec2" where
  "GetShortAxisOfElement m index ranf =
     (case CalculateMomentsOfElement m index of
        Inl e \<Rightarrow> Inl e
      | Inr ms \<Rightarrow> Inr (short_axis_of_moments ms ranf))"

section \<open>Membrane elasticity: \<^verbatim>\<open>ImmersedBoundaryMembraneElasticityForce::AddForceContribution\<close>\<close>

definition AddAppliedForceContribution :: "mesh \<Rightarrow> nat \<Rightarrow> vec2 \<Rightarrow> mesh" where
  "AddAppliedForceContribution m p force =
     m\<lparr> mNodes := (mNodes m)[p := (mNodes m ! p)
            \<lparr> applied_force := vadd (applied_force (mNodes m ! p)) force \<rparr>] \<rparr>"

text \<open>The body of the first loop: \<^verbatim>\<open>elastic_force_to_next_node[node_idx]\<close>.\<close>

definition elastic_force_to_next_node :: "mesh \<Rightarrow> element \<Rightarrow> nat \<Rightarrow> vec2" where
  "elastic_force_to_next_node m e node_idx =
     (let num_nodes = length (elem_nodes e);
          spring_constant = membrane_spring_constant e;
          rest_length = membrane_rest_length e;
          next_idx = (node_idx + 1) mod num_nodes;
          apical_or_basal = region (mNodes m ! (elem_nodes e ! node_idx)) < 2;
          modified_spring_constant =
            (if apical_or_basal then spring_constant * 10.0 else spring_constant);
          modified_rest_length =
            (if apical_or_basal then rest_length * 4.0 else rest_length);
          v = GetVectorFromAtoB (GetNodeLocation m e next_idx) (GetNodeLocation m e node_idx);
          normed_dist = norm_2 v
      in vscale (modified_spring_constant * (normed_dist - modified_rest_length) / normed_dist) v)"

text \<open>The body of the loop over elements: all edge forces first, then the second loop
  adds \<^verbatim>\<open>elastic_force_to_next_node[prev_idx] - elastic_force_to_next_node[node_idx]\<close> to
  each node.\<close>

definition add_element_forces :: "mesh \<Rightarrow> element \<Rightarrow> error + mesh" where
  "add_element_forces m e =
     (let num_nodes = length (elem_nodes e)
      in if \<not> num_nodes > 0 then Inl AssertionFailed
         else
           let forces = map (elastic_force_to_next_node m e) [0..<num_nodes]
           in Inr (fold (\<lambda>node_idx m'.
                          let prev_idx = (node_idx + num_nodes - 1) mod num_nodes;
                              aggregate_force = vsub (forces ! prev_idx) (forces ! node_idx)
                          in AddAppliedForceContribution m' (elem_nodes e ! node_idx)
                               aggregate_force)
                     [0..<num_nodes] m))"

fun AddForceContribution_loop :: "mesh \<Rightarrow> nat list \<Rightarrow> error + mesh" where
  "AddForceContribution_loop m [] = Inr m"
| "AddForceContribution_loop m (i # elems) =
     (case add_element_forces m (mElements m ! i) of
        Inl err \<Rightarrow> Inl err
      | Inr m' \<Rightarrow> AddForceContribution_loop m' elems)"

definition membrane_AddForceContribution :: "mesh \<Rightarrow> error + mesh" where
  "membrane_AddForceContribution m =
     AddForceContribution_loop m [0..<length (mElements m)]"

text \<open>
  The edge force as the spec words it: \<open>F\<^sub>i = k (|d| - l) d / |d|\<close> with
  \<open>d = vector_from(next, this)\<close>, where \<open>k\<close> is ten times the element's spring constant
  and \<open>l\<close> four times its rest length if either endpoint of the edge is apical or basal.
  The second definition has the condition on the first endpoint alone.
\<close>

definition hooke_force :: "real \<Rightarrow> real \<Rightarrow> vec2 \<Rightarrow> vec2" where
  "hooke_force k l d = vscale (k * (norm_2 d - l)) (vscale (1 / norm_2 d) d)"

definition edge_vector :: "mesh \<Rightarrow> element \<Rightarrow> nat \<Rightarrow> vec2" where
  "edge_vector m e i =
     GetVectorFromAtoB (GetNodeLocation m e ((i + 1) mod length (elem_nodes e)))
       (GetNodeLocation m e i)"

definition node_is_apical_or_basal :: "mesh \<Rightarrow> element \<Rightarrow> nat \<Rightarrow> bool" where
  "node_is_apical_or_basal m e i =
     (region (mNodes m ! (elem_nodes e ! i)) = 0 \<or> region (mNodes m ! (elem_nodes e ! i)) = 1)"

definition spec_edge_force :: "mesh \<Rightarrow> element \<Rightarrow> nat \<Rightarrow> vec2" where
  "spec_edge_force m e i =
     (if node_is_apical_or_basal m e i
         \<or> node_is_apical_or_basal m e ((i + 1) mod length (elem_nodes e))
      then hooke_force (10 * membrane_spring_constant e) (4 * membrane_rest_length e)
             (edge_vector m e i)
      else hooke_force (membrane_spring_constant e) (membrane_rest_length e)
             (edge_vector m e i))"

definition first_endpoint_edge_force :: "mesh \<Rightarrow> element \<Rightarrow> nat \<Rightarrow> vec2" where
  "first_endpoint_edge_force m e i =
     (if node_is_apical_or_basal m e i
      then hooke_force (10 * membrane_spring_constant e) (4 * membrane_rest_length e)
             (edge_vector m e i)
      else hooke_force (membrane_spring_constant e) (membrane_rest_length e)
             (edge_vector m e i))"

section \<open>Cell-cell interaction: \<^verbatim>\<open>ImmersedBoundaryCellCellInteractionForce\<close>\<close>

subsection \<open>Set-up of the protein levels\<close>

text \<open>\<^verbatim>\<open>r_node_attributes[k] += v\<close> on the node at position \<open>p\<close>.\<close>

definition add_to_node_attribute :: "mesh \<Rightarrow> nat \<Rightarrow> nat \<Rightarrow> real \<Rightarrow> mesh" where
  "add_to_node_attribute m p k v =
     m\<lparr> mNodes := (mNodes m)[p := (mNodes m ! p)
            \<lparr> node_attributes := (node_attributes (mNodes m ! p))
                 [k := node_attributes (mNodes m ! p) ! k + v] \<rparr>] \<rparr>"

text \<open>The body of the inner loop of \<^verbatim>\<open>InitializeProteinLevels\<close>, for the node at
  position \<open>p\<close>; \<open>locs\<close> is \<^verbatim>\<open>mProteinNodeAttributeLocations\<close>.\<close>

definition initialize_node :: "nat list \<Rightarrow> real \<Rightarrow> real \<Rightarrow> real \<Rightarrow> nat \<Rightarrow> mesh \<Rightarrow> mesh" where
  "initialize_node locs e_cad p_cad integrin p m =
     add_to_node_attribute
       (add_to_node_attribute
          (add_to_node_attribute m p (locs ! 0) e_cad)
          p (locs ! 1) p_cad)
       p (locs ! 2) integrin"

text \<open>\<^verbatim>\<open>mpMesh->GetElement(elem_idx) == mpMesh->GetMembraneElement()\<close>: the membrane
  element is \<^verbatim>\<open>GetElement(mMembraneIndex)\<close> when \<^verbatim>\<open>mMembraneIndex < UINT_MAX\<close>, which
  asserts that the index is in range, and the null pointer otherwise.\<close>

definition is_membrane_element :: "mesh \<Rightarrow> nat \<Rightarrow> error + bool" where
  "is_membrane_element m elem_idx =
     (if mMembraneIndex m < UINT_MAX
      then (if mMembraneIndex m < length (mElements m)
            then Inr (elem_idx = mMembraneIndex m) else Inl AssertionFailed)
      else Inr False)"

definition initialize_element :: "nat list \<Rightarrow> nat \<Rightarrow> mesh \<Rightarrow> error + mesh" where
  "initialize_element locs elem_idx m =
     (case is_membrane_element m elem_idx of
        Inl err \<Rightarrow> Inl err
      | Inr membrane \<Rightarrow>
          let e_cad = (if membrane then 1.0 else 1.0);
              p_cad = 0.0;
              integrin = 0.0
          in Inr (fold (\<lambda>node_idx m'.
                         initialize_node locs e_cad p_cad integrin
                           (elem_nodes (mElements m' ! elem_idx) ! node_idx) m')
                    [0..<length (elem_nodes (mElements m ! elem_idx))] m))"

fun InitializeProteinLevels_loop :: "nat list \<Rightarrow> nat list \<Rightarrow> mesh \<Rightarrow> error + mesh" where
  "InitializeProteinLevels_loop locs [] m = Inr m"
| "InitializeProteinLevels_loop locs (elem_idx # rest) m =
     (case initialize_element locs elem_idx m of
        Inl err \<Rightarrow> Inl err
      | Inr m' \<Rightarrow> InitializeProteinLevels_loop locs rest m')"

definition InitializeProteinLevels :: "nat list \<Rightarrow> mesh \<Rightarrow> error + mesh" where
  "InitializeProteinLevels locs m =
     InitializeProteinLevels_loop locs [0..<length (mElements m)] m"

text \<open>The block \<^verbatim>\<open>if (mProteinNodeAttributeLocations.empty())\<close> of the first call of
  \<^verbatim>\<open>AddImmersedBoundaryForceContribution\<close>, with \<^verbatim>\<open>mNumProteins = 3\<close>. It returns the
  attribute locations and the mesh.\<close>

definition AddNodeAttribute :: "real \<Rightarrow> node \<Rightarrow> node" where
  "AddNodeAttribute v nd = nd\<lparr> node_attributes := node_attributes nd @ [v] \<rparr>"

definition protein_setup :: "mesh \<Rightarrow> error + (nat list \<times> mesh)" where
  "protein_setup m =
     (if mNodes m = [] then Inl OutOfRange
      else
        let num_node_attributes = length (node_attributes (mNodes m ! 0))
        in if list_ex (\<lambda>nd. num_node_attributes \<noteq> length (node_attributes nd)) (mNodes m)
           then Inl AttributeMismatch
           else
             let locs = map (\<lambda>protein_idx. num_node_attributes + protein_idx) [0..<3];
                 m1 = m\<lparr> mNodes := map (AddNodeAttribute 0.0 \<circ> AddNodeAttribute 0.0
                                          \<circ> AddNodeAttribute 0.0) (mNodes m) \<rparr>
             in case InitializeProteinLevels locs m1 of
                  Inl err \<Rightarrow> Inl err
                | Inr m2 \<Rightarrow> Inr (locs, m2))"

text \<open>How often the node at position \<open>p\<close> occurs in the node lists of the elements.\<close>

definition node_occurrences :: "mesh \<Rightarrow> nat \<Rightarrow> nat" where
  "node_occurrences m p = count_list (concat (map elem_nodes (mElements m))) p"

text \<open>A node that belongs to the membrane element and to no other element.\<close>

definition membrane_only_node :: "mesh \<Rightarrow> nat \<Rightarrow> bool" where
  "membrane_only_node m p =
     (mMembraneIndex m < length (mElements m)
      \<and> list_all (\<lambda>i. p \<in> set (elem_nodes (mElements m ! i)) \<longleftrightarrow> i = mMembraneIndex m)
           [0..<length (mElements m)])"

subsection \<open>Element spacing\<close>

text \<open>\<^verbatim>\<open>GetDistanceBetweenNodes\<close> of the mesh base class: the norm of
  \<^verbatim>\<open>GetVectorFromAtoB\<close> between the nodes with the two global indices.\<close>

definition GetDistanceBetweenNodes :: "mesh \<Rightarrow> nat \<Rightarrow> nat \<Rightarrow> real" where
  "GetDistanceBetweenNodes m indexA indexB =
     norm_2 (GetVectorFromAtoB (location (mNodes m ! indexA)) (location (mNodes m ! indexB)))"

fun surface_area_step :: "mesh \<Rightarrow> element \<Rightarrow> nat \<Rightarrow> real \<times> nat \<Rightarrow> real \<times> nat" where
  "surface_area_step m e local_index (surface_area, this_node_index) =
     (let next_node_index =
            GetNodeGlobalIndex m e ((local_index + 1) mod length (elem_nodes e))
      in (surface_area + GetDistanceBetweenNodes m this_node_index next_node_index,
          next_node_index))"

definition GetSurfaceAreaOfElement :: "mesh \<Rightarrow> nat \<Rightarrow> error + real" where
  "GetSurfaceAreaOfElement m index =
     (if \<not> index < length (mElements m) then Inl AssertionFailed
      else
        let p_element = mElements m ! index;
            num_nodes = length (elem_nodes p_element)
        in if num_nodes = 0 then Inl AssertionFailed
           else Inr (fst (fold (surface_area_step m p_element) [0..<num_nodes]
                            (0.0, GetNodeGlobalIndex m p_element 0))))"

definition GetAverageNodeSpacingOfElement ::
  "mesh \<Rightarrow> nat \<Rightarrow> bool \<Rightarrow> error + (real \<times> mesh)" where
  "GetAverageNodeSpacingOfElement m index recalculate =
     (if \<not> index < length (mElements m) then Inl AssertionFailed
      else if recalculate \<or> average_node_spacing (mElements m ! index) = None
      then (case GetSurfaceAreaOfElement m index of
              Inl err \<Rightarrow> Inl err
            | Inr surface_area \<Rightarrow>
                let spacing = surface_area / real (length (elem_nodes (mElements m ! index)))
                in Inr (spacing,
                        m\<lparr> mElements := (mElements m)[index := (mElements m ! index)
                               \<lparr> average_node_spacing := Some spacing \<rparr>] \<rparr>))
      else Inr (the (average_node_spacing (mElements m ! index)), m))"

subsection \<open>The force between the two nodes of a pair\<close>

record cell_cell_force =
  mSpringConst :: real
  mRestLength :: real
  mLinearSpring :: bool
  mProteinNodeAttributeLocations :: "nat list"

record cell_population =
  interaction_distance :: real
  intrinsic_spacing :: real

text \<open>The arithmetic of the body of the loop over pairs, from the vector between the
  nodes, the two element spacings and the protein multiplier to
  \<^verbatim>\<open>force_a_to_b\<close> and \<^verbatim>\<open>force_b_to_a\<close>. Every division of the source is an \<open>fdiv\<close>:
  the result is \<open>None\<close> when one of them is by zero (the intrinsic spacing, the distance
  of the two nodes, the well width or an element spacing), and the forces are then not
  numbers.\<close>

definition pair_force_vectors ::
  "cell_cell_force \<Rightarrow> cell_population \<Rightarrow> vec2 \<Rightarrow> real \<Rightarrow> real \<Rightarrow> real
     \<Rightarrow> (vec2 \<times> vec2) option" where
  "pair_force_vectors F P vector_between_nodes node_a_elem_spacing node_b_elem_spacing
       protein_mult =
     (let normed_dist = norm_2 vector_between_nodes;
          well_width = 0.25 * interaction_distance P;
          elem_spacing = 0.5 * (node_a_elem_spacing + node_b_elem_spacing)
      in do {
        effective_spring_const \<leftarrow> fdiv (mSpringConst F * elem_spacing) (intrinsic_spacing P);
        factor \<leftarrow>
          (if mLinearSpring F
           then fdiv (effective_spring_const * protein_mult * (normed_dist - mRestLength F))
                  normed_dist
           else do {
             exponent \<leftarrow> fdiv (mRestLength F - normed_dist) well_width;
             let morse_exp = exp exponent;
             fdiv (2.0 * well_width * effective_spring_const * protein_mult * morse_exp
                   * (1.0 - morse_exp)) normed_dist
           });
        let scaled = vscale factor vector_between_nodes;
        a_x \<leftarrow> fdiv (fst scaled * elem_spacing) node_a_elem_spacing;
        a_y \<leftarrow> fdiv (snd scaled * elem_spacing) node_a_elem_spacing;
        b_x \<leftarrow> fdiv (- 1.0 * fst scaled * elem_spacing) node_b_elem_spacing;
        b_y \<leftarrow> fdiv (- 1.0 * snd scaled * elem_spacing) node_b_elem_spacing;
        Some ((a_x, a_y), (b_x, b_y))
      })"

text \<open>The protein multiplier of a pair, from the attribute vectors of its nodes.\<close>

definition protein_multiplier :: "cell_cell_force \<Rightarrow> real list \<Rightarrow> real list \<Rightarrow> real" where
  "protein_multiplier F r_a_attribs r_b_attribs =
     (let e_cad_idx = mProteinNodeAttributeLocations F ! 0;
          p_cad_idx = mProteinNodeAttributeLocations F ! 1;
          integrin_idx = mProteinNodeAttributeLocations F ! 2
      in min (r_a_attribs ! e_cad_idx) (r_b_attribs ! e_cad_idx)
         + min (r_a_attribs ! p_cad_idx) (r_b_attribs ! p_cad_idx)
         + max (r_a_attribs ! integrin_idx) (r_b_attribs ! integrin_idx))"

text \<open>
  One pair \<open>(a, b)\<close> of node positions. The result is the mesh, in which the spacing of
  an element may have been cached, and, for a pair that interacts, the two element
  spacings and the two forces; it is \<open>NotANumber\<close> when the forces are not numbers. The
  first containing element of a node is the least element of its set of containing
  elements, the head of the ascending list.
\<close>

definition interacting_pair_forces ::
  "cell_cell_force \<Rightarrow> cell_population \<Rightarrow> mesh \<Rightarrow> nat \<Rightarrow> nat
     \<Rightarrow> error + (mesh \<times> (real \<times> real \<times> vec2 \<times> vec2) option)" where
  "interacting_pair_forces F P m a b =
     (let p_node_a = mNodes m ! a; p_node_b = mNodes m ! b
      in if containing_elements p_node_a = [] \<or> containing_elements p_node_b = []
         then Inl OutOfRange
         else if hd (containing_elements p_node_a) = hd (containing_elements p_node_b)
         then Inr (m, None)
         else
           let r_a_attribs = node_attributes p_node_a;
               r_b_attribs = node_attributes p_node_b;
               vector_between_nodes = GetVectorFromAtoB (location p_node_a) (location p_node_b);
               normed_dist = norm_2 vector_between_nodes
           in if normed_dist < interaction_distance P
              then
                (case GetAverageNodeSpacingOfElement m (hd (containing_elements p_node_a)) False of
                   Inl err \<Rightarrow> Inl err
                 | Inr (node_a_elem_spacing, m1) \<Rightarrow>
                     (case GetAverageNodeSpacingOfElement m1
                             (hd (containing_elements p_node_b)) False of
                        Inl err \<Rightarrow> Inl err
                      | Inr (node_b_elem_spacing, m2) \<Rightarrow>
                          let protein_mult = protein_multiplier F r_a_attribs r_b_attribs
                          in (case pair_force_vectors F P vector_between_nodes
                                     node_a_elem_spacing node_b_elem_spacing protein_mult of
                                None \<Rightarrow> Inl NotANumber
                              | Some forces \<Rightarrow>
                                  Inr (m2, Some (node_a_elem_spacing, node_b_elem_spacing,
                                                 fst forces, snd forces)))))
              else Inr (m, None))"

definition pair_contribution ::
  "cell_cell_force \<Rightarrow> cell_population \<Rightarrow> mesh \<Rightarrow> nat \<times> nat \<Rightarrow> error + mesh" where
  "pair_contribution F P m pair =
     (case interacting_pair_forces F P m (fst pair) (snd pair) of
        Inl err \<Rightarrow> Inl err
      | Inr (m', None) \<Rightarrow> Inr m'
      | Inr (m', Some (sa, sb, force_a_to_b, force_b_to_a)) \<Rightarrow>
          Inr (AddAppliedForceContribution
                 (AddAppliedForceContribution m' (fst pair) force_a_to_b)
                 (snd pair) force_b_to_a))"

text \<open>The state of the three protein slots of every node while the loops run: the
  first slot holds \<open>base j\<close>, the other two hold 0.\<close>

definition slots_hold :: "nat \<Rightarrow> nat \<Rightarrow> (nat \<Rightarrow> real) \<Rightarrow> mesh \<Rightarrow> bool" where
  "slots_hold N a base m =
     (length (mNodes m) = N
      \<and> (\<forall>j < N. length (node_attributes (mNodes m ! j)) = a + 3
               \<and> node_attributes (mNodes m ! j) ! a = base j
               \<and> node_attributes (mNodes m ! j) ! (a + 1) = 0
               \<and> node_attributes (mNodes m ! j) ! (a + 2) = 0))"

section \<open>Element division: \<^verbatim>\<open>ImmersedBoundaryMesh::DivideElement\<close>\<close>

subsection \<open>The four walks\<close>

text \<open>
  Each walk is a loop \<^verbatim>\<open>for (i = start; i != stop;)\<close> that leaves with \<^verbatim>\<open>break\<close> at
  the first node far enough from the axis, and otherwise steps \<open>i\<close> around the ring.
  Nothing in the loop bounds the number of steps, so its model is a partial function:
  \<open>None\<close> is a loop that does not end, \<open>Some None\<close> a loop that reached \<open>stop\<close>,
  \<open>Some (Some i)\<close> a loop left at \<open>i\<close>.
\<close>

partial_function (option) ring_search ::
  "(nat \<Rightarrow> bool) \<Rightarrow> (nat \<Rightarrow> nat) \<Rightarrow> nat \<Rightarrow> nat \<Rightarrow> nat option option" where
  "ring_search sat nxt i stop =
     (if i = stop then Some None
      else if sat i then Some (Some i)
      else ring_search sat nxt (nxt i) stop)"

definition ring_next :: "nat \<Rightarrow> nat \<Rightarrow> nat" where
  "ring_next num_nodes i = (i + 1) mod num_nodes"

definition ring_prev :: "nat \<Rightarrow> nat \<Rightarrow> nat" where
  "ring_prev num_nodes i = (i + num_nodes - 1) mod num_nodes"

definition perpendicular_dist :: "mesh \<Rightarrow> element \<Rightarrow> vec2 \<Rightarrow> vec2 \<Rightarrow> nat \<Rightarrow> real" where
  "perpendicular_dist m e centroid unit_perp i =
     inner_prod (GetVectorFromAtoB centroid (GetNodeLocation m e i)) unit_perp"

text \<open>The body of the \<^verbatim>\<open>if\<close> of a walk: the node is moved to a perpendicular distance
  of exactly \<^verbatim>\<open>half_spacing\<close>.\<close>

definition snap_node :: "mesh \<Rightarrow> element \<Rightarrow> vec2 \<Rightarrow> vec2 \<Rightarrow> real \<Rightarrow> nat \<Rightarrow> mesh" where
  "snap_node m e centroid unit_perp half_spacing i =
     (let perp = perpendicular_dist m e centroid unit_perp i;
          new_location =
            vsub (GetNodeLocation m e i)
                 (vscale (copysign (\<bar>perp\<bar> - half_spacing) perp) unit_perp)
      in SetPoint m (elem_nodes e ! i) new_location)"

text \<open>One walk: the mesh after it, the value of the index variable it may have
  assigned (\<^verbatim>\<open>start_a\<close>, \<^verbatim>\<open>end_a\<close>, \<^verbatim>\<open>start_b\<close> or \<^verbatim>\<open>end_b\<close>) and its flag
  \<^verbatim>\<open>no_node_satisfied_condition\<close>.\<close>

definition frontier_walk ::
  "(nat \<Rightarrow> nat) \<Rightarrow> mesh \<Rightarrow> element \<Rightarrow> vec2 \<Rightarrow> vec2 \<Rightarrow> real \<Rightarrow> nat \<Rightarrow> nat
     \<Rightarrow> (mesh \<times> nat \<times> bool) option" where
  "frontier_walk nxt m e centroid unit_perp half_spacing start stop =
     (case ring_search (\<lambda>i. \<bar>perpendicular_dist m e centroid unit_perp i\<bar> \<ge> half_spacing)
             nxt start stop of
        None \<Rightarrow> None
      | Some None \<Rightarrow> Some (m, start, True)
      | Some (Some i) \<Rightarrow> Some (snap_node m e centroid unit_perp half_spacing i, i, False))"

text \<open>
  The four walks in order, up to the test of the four flags. The two backward walks
  begin at \<^verbatim>\<open>nodeBIndex\<close> and \<^verbatim>\<open>nodeAIndex\<close> themselves; \<^verbatim>\<open>GetNode\<close> asserts that a
  local index is below the number of nodes. On success the result carries
  \<^verbatim>\<open>start_a\<close>, \<^verbatim>\<open>end_a\<close>, \<^verbatim>\<open>start_b\<close>, \<^verbatim>\<open>end_b\<close>.
\<close>

definition division_frontiers ::
  "mesh \<Rightarrow> element \<Rightarrow> nat \<Rightarrow> nat \<Rightarrow> vec2 \<Rightarrow> vec2 \<Rightarrow> real
     \<Rightarrow> (mesh \<times> (error + nat \<times> nat \<times> nat \<times> nat)) option" where
  "division_frontiers m e nodeAIndex nodeBIndex centroid unit_perp half_spacing =
     (let num_nodes = length (elem_nodes e);
          start_a = (nodeAIndex + 1) mod num_nodes;
          end_a = nodeBIndex;
          start_b = (nodeBIndex + 1) mod num_nodes;
          end_b = nodeAIndex
      in case frontier_walk (ring_next num_nodes) m e centroid unit_perp half_spacing
                start_a end_a of
           None \<Rightarrow> None
         | Some (m1, start_a, no_1) \<Rightarrow>
             if end_a \<noteq> start_a \<and> \<not> end_a < num_nodes then Some (m1, Inl AssertionFailed)
             else
           (case frontier_walk (ring_prev num_nodes) m1 e centroid unit_perp half_spacing
                   end_a start_a of
              None \<Rightarrow> None
            | Some (m2, end_a, no_2) \<Rightarrow>
           (case frontier_walk (ring_next num_nodes) m2 e centroid unit_perp half_spacing
                   start_b end_b of
              None \<Rightarrow> None
            | Some (m3, start_b, no_3) \<Rightarrow>
                if end_b \<noteq> start_b \<and> \<not> end_b < num_nodes then Some (m3, Inl AssertionFailed)
                else
           (case frontier_walk (ring_prev num_nodes) m3 e centroid unit_perp half_spacing
                   end_b start_b of
              None \<Rightarrow> None
            | Some (m4, end_b, no_4) \<Rightarrow>
                if no_1 \<or> no_2 \<or> no_3 \<or> no_4 then Some (m4, Inl DivisionSpacingError)
                else Some (m4, Inr (start_a, end_a, start_b, end_b))))))"

subsection \<open>Stencils and resampling\<close>

text \<open>The loop \<^verbatim>\<open>for (node_idx = start; node_idx != (end + 1) % num_nodes;)\<close> that
  copies the locations of a daughter's nodes.\<close>

partial_function (option) ring_collect ::
  "(nat \<Rightarrow> nat) \<Rightarrow> nat \<Rightarrow> nat \<Rightarrow> nat list \<Rightarrow> nat list option" where
  "ring_collect nxt node_idx stop acc =
     (if node_idx = stop then Some acc
      else ring_collect nxt (nxt node_idx) stop (acc @ [node_idx]))"

definition daughter_stencil :: "mesh \<Rightarrow> element \<Rightarrow> nat \<Rightarrow> nat \<Rightarrow> vec2 list option" where
  "daughter_stencil m e start_idx end_idx =
     (let num_nodes = length (elem_nodes e)
      in case ring_collect (ring_next num_nodes) start_idx ((end_idx + 1) mod num_nodes) [] of
           None \<Rightarrow> None
         | Some idxs \<Rightarrow> Some (map (GetNodeLocation m e) idxs))"

text \<open>The cumulative distances around a stencil that ends with its first location.\<close>

definition cumulative_distances :: "vec2 list \<Rightarrow> real list" where
  "cumulative_distances location_stencil =
     fold (\<lambda>loc_idx cumulative.
             cumulative @ [last cumulative
                           + norm_2 (GetVectorFromAtoB (location_stencil ! (loc_idx - 1))
                                       (location_stencil ! loc_idx))])
       [1..<length location_stencil] [0.0]"

text \<open>\<^verbatim>\<open>while (location_along_arc > cumulative_distances[last_idx_used + 1])\<close>: the
  source does not test the index; a read past the end of the vector is \<open>None\<close>.\<close>

function advance_along :: "real list \<Rightarrow> real \<Rightarrow> nat \<Rightarrow> nat option" where
  "advance_along cumulative location_along_arc last_idx_used =
     (if \<not> last_idx_used + 1 < length cumulative then None
      else if location_along_arc > cumulative ! (last_idx_used + 1)
      then advance_along cumulative location_along_arc (last_idx_used + 1)
      else Some last_idx_used)"
  by pat_completeness auto
termination
  by (relation "measure (\<lambda>(cumulative, l, last_idx_used). length cumulative - last_idx_used)")
     auto

fun resample_loop ::
  "vec2 list \<Rightarrow> real list \<Rightarrow> real \<Rightarrow> nat list \<Rightarrow> nat \<Rightarrow> vec2 list \<Rightarrow> vec2 list option" where
  "resample_loop location_stencil cumulative target_spacing [] last_idx_used acc = Some acc"
| "resample_loop location_stencil cumulative target_spacing (node_idx # rest) last_idx_used acc =
     (let location_along_arc = real node_idx * target_spacing
      in case advance_along cumulative location_along_arc last_idx_used of
           None \<Rightarrow> None
         | Some last_idx \<Rightarrow>
             let interpolant = (location_along_arc - cumulative ! last_idx)
                               / (cumulative ! (last_idx + 1) - cumulative ! last_idx);
                 this_to_next = GetVectorFromAtoB (location_stencil ! last_idx)
                                                  (location_stencil ! (last_idx + 1));
                 new_location = vadd (location_stencil ! last_idx)
                                     (vscale interpolant this_to_next)
             in resample_loop location_stencil cumulative target_spacing rest last_idx
                  (acc @ [new_location]))"

text \<open>From a daughter's stencil to the \<^verbatim>\<open>num_nodes\<close> equally spaced locations: the
  first location is added at the end, the target spacing is the perimeter divided by
  \<^verbatim>\<open>num_nodes\<close>.\<close>

definition resample_stencil :: "vec2 list \<Rightarrow> nat \<Rightarrow> vec2 list option" where
  "resample_stencil location_stencil num_nodes =
     (let closed = location_stencil @ [location_stencil ! 0];
          cumulative = cumulative_distances closed;
          target_spacing = last cumulative / real num_nodes
      in resample_loop closed cumulative target_spacing [0..<num_nodes] 0 [])"

subsection \<open>The daughters\<close>

definition move_daughter_a :: "mesh \<Rightarrow> element \<Rightarrow> vec2 list \<Rightarrow> mesh" where
  "move_daughter_a m e new_locations =
     fold (\<lambda>node_idx m'. SetPoint m' (elem_nodes e ! node_idx) (new_locations ! node_idx))
       [0..<length (elem_nodes e)] m"

text \<open>\<^verbatim>\<open>new Node<SPACE_DIM>(new_node_idx, new_location_b, true)\<close>: a boundary node
  without attributes, in region 0, in no element.\<close>

definition new_node :: "nat \<Rightarrow> vec2 \<Rightarrow> node" where
  "new_node new_node_idx new_location =
     \<lparr> node_index = new_node_idx, location = new_location, region = 0,
       applied_force = (0, 0), node_attributes = [], containing_elements = [] \<rparr>"

definition create_daughter_b_nodes :: "mesh \<Rightarrow> vec2 list \<Rightarrow> nat \<Rightarrow> mesh" where
  "create_daughter_b_nodes m new_locations num_nodes =
     fold (\<lambda>node_idx m'.
             m'\<lparr> mNodes := mNodes m' @ [new_node (length (mNodes m')) (new_locations ! node_idx)] \<rparr>)
       [0..<num_nodes] m"

text \<open>The loop "Copy node attributes": region and attributes of the node \<open>node_idx\<close> of
  the element go to \<^verbatim>\<open>new_nodes_vec[node_idx]\<close>.\<close>

definition copy_node :: "mesh \<Rightarrow> nat \<Rightarrow> nat \<Rightarrow> mesh" where
  "copy_node m new_p old_p =
     m\<lparr> mNodes := (mNodes m)[new_p := (mNodes m ! new_p)
            \<lparr> region := region (mNodes m ! old_p),
              node_attributes := node_attributes (mNodes m ! new_p)
                                 @ node_attributes (mNodes m ! old_p) \<rparr>] \<rparr>"

definition copy_node_attributes :: "mesh \<Rightarrow> element \<Rightarrow> nat list \<Rightarrow> mesh" where
  "copy_node_attributes m e new_nodes_vec =
     fold (\<lambda>node_idx m'. copy_node m' (new_nodes_vec ! node_idx) (elem_nodes e ! node_idx))
       [0..<length (elem_nodes e)] m"

text \<open>\<^verbatim>\<open>AddElement\<close> on a node: insertion into its set of containing elements.\<close>

definition AddElement :: "nat \<Rightarrow> node \<Rightarrow> node" where
  "AddElement index nd =
     nd\<lparr> containing_elements :=
           (if index \<in> set (containing_elements nd) then containing_elements nd
            else insort index (containing_elements nd)) \<rparr>"

definition RegisterWithNodes :: "mesh \<Rightarrow> nat \<Rightarrow> mesh" where
  "RegisterWithNodes m elem_pos =
     fold (\<lambda>p m'. m'\<lparr> mNodes := (mNodes m')[p := AddElement (elem_index (mElements m' ! elem_pos))
                                                     (mNodes m' ! p)] \<rparr>)
       (elem_nodes (mElements m ! elem_pos)) m"

text \<open>
  The new element. The constructor of \<^verbatim>\<open>ImmersedBoundaryElement\<close> is not among the
  sources: the spring constant and rest length it gives a new element are the
  parameters \<open>k0\<close> and \<open>l0\<close>. Element attributes and corner nodes are copied from the
  element that is divided.
\<close>

definition add_daughter_b_element :: "real \<Rightarrow> real \<Rightarrow> mesh \<Rightarrow> element \<Rightarrow> nat list \<Rightarrow> mesh" where
  "add_daughter_b_element k0 l0 m e new_nodes_vec =
     (let new_elem_idx = length (mElements m);
          new_elem = \<lparr> elem_index = new_elem_idx, elem_nodes = new_nodes_vec,
                       membrane_spring_constant = k0, membrane_rest_length = l0,
                       elem_attributes = [], corner_nodes = [],
                       fluid_source = None, average_node_spacing = None \<rparr>;
          m1 = RegisterWithNodes (m\<lparr> mElements := mElements m @ [new_elem] \<rparr>) new_elem_idx
      in m1\<lparr> mElements := (mElements m1)[new_elem_idx := (mElements m1 ! new_elem_idx)
                \<lparr> elem_attributes := elem_attributes (mElements m1 ! new_elem_idx)
                                      @ elem_attributes e,
                  corner_nodes := corner_nodes (mElements m1 ! new_elem_idx)
                                  @ corner_nodes e \<rparr>] \<rparr>)"

text \<open>The end of \<^verbatim>\<open>DivideElement\<close>: the source of the divided element moves to its
  new centroid, the new element gets a source of its own, and its index is returned.\<close>

definition set_source_location :: "mesh \<Rightarrow> nat \<Rightarrow> vec2 \<Rightarrow> mesh" where
  "set_source_location m src centroid =
     m\<lparr> mElementFluidSources := (mElementFluidSources m)
            [src := (mElementFluidSources m ! src)\<lparr> source_location := centroid \<rparr>] \<rparr>"

definition add_element_source :: "mesh \<Rightarrow> nat \<Rightarrow> vec2 \<Rightarrow> mesh" where
  "add_element_source m new_elem_idx new_centroid =
     (let new_source = \<lparr> source_index = new_elem_idx, source_location = new_centroid,
                          strength = 0.0, associated_element = new_elem_idx \<rparr>;
          m2 = m\<lparr> mElementFluidSources := mElementFluidSources m @ [new_source] \<rparr>
      in m2\<lparr> mElements := (mElements m2)[new_elem_idx := (mElements m2 ! new_elem_idx)
               \<lparr> fluid_source := Some (length (mElementFluidSources m2) - 1) \<rparr>] \<rparr>)"

definition update_fluid_sources :: "mesh \<Rightarrow> element \<Rightarrow> nat \<Rightarrow> mesh \<times> (error + nat)" where
  "update_fluid_sources m e new_elem_idx =
     (case fluid_source e of
        None \<Rightarrow> (m, Inl NullPointer)
      | Some src \<Rightarrow>
          (case GetCentroidOfElement m (elem_index e) of
             Inl err \<Rightarrow> (m, Inl err)
           | Inr centroid \<Rightarrow>
               let m1 = set_source_location m src centroid
               in case GetCentroidOfElement m1 new_elem_idx of
                    Inl err \<Rightarrow> (m1, Inl err)
                  | Inr new_centroid \<Rightarrow>
                      (add_element_source m1 new_elem_idx new_centroid, Inr new_elem_idx)))"

text \<open>Everything after the test of the four flags; \<open>pe\<close> is the position of the
  divided element in \<^verbatim>\<open>mElements\<close>.\<close>

definition finish_division ::
  "real \<Rightarrow> real \<Rightarrow> mesh \<Rightarrow> nat \<Rightarrow> nat \<Rightarrow> nat \<Rightarrow> nat \<Rightarrow> nat \<Rightarrow> (mesh \<times> (error + nat)) option" where
  "finish_division k0 l0 m pe start_a end_a start_b end_b =
     (let e = mElements m ! pe;
          num_nodes = length (elem_nodes e)
      in case daughter_stencil m e start_a end_a of
           None \<Rightarrow> None
         | Some daughter_a_location_stencil \<Rightarrow>
        (case daughter_stencil m e start_b end_b of
           None \<Rightarrow> None
         | Some daughter_b_location_stencil \<Rightarrow>
             if \<not> length daughter_a_location_stencil > 1 then Some (m, Inl AssertionFailed)
             else if \<not> length daughter_b_location_stencil > 1 then Some (m, Inl AssertionFailed)
             else
               (case resample_stencil daughter_a_location_stencil num_nodes of
                  None \<Rightarrow> Some (m, Inl OutOfRange)
                | Some locations_a \<Rightarrow>
                    let m5 = move_daughter_a m e locations_a
                    in case resample_stencil daughter_b_location_stencil num_nodes of
                         None \<Rightarrow> Some (m5, Inl OutOfRange)
                       | Some locations_b \<Rightarrow>
                           let new_nodes_vec =
                                 [length (mNodes m5)..<length (mNodes m5) + num_nodes];
                               m6 = create_daughter_b_nodes m5 locations_b num_nodes;
                               m7 = copy_node_attributes m6 e new_nodes_vec;
                               new_elem_idx = length (mElements m7);
                               m8 = add_daughter_b_element k0 l0 m7 e new_nodes_vec
                           in Some (update_fluid_sources m8 (mElements m8 ! pe) new_elem_idx))))"

text \<open>\<^verbatim>\<open>unit_perp\<close>: the axis of division, scaled to length 1 and turned by a
  quarter.\<close>

definition unit_perpendicular :: "vec2 \<Rightarrow> vec2" where
  "unit_perpendicular axisOfDivision =
     (let unit_axis = (fst axisOfDivision / norm_2 axisOfDivision,
                       snd axisOfDivision / norm_2 axisOfDivision)
      in (- snd unit_axis, fst unit_axis))"


text \<open>
  \<^verbatim>\<open>DivideElement(pElement, nodeAIndex, nodeBIndex, centroid, axisOfDivision)\<close>. The
  result is \<open>None\<close> if a loop does not end; otherwise it is the mesh as the call
  leaves it, with the error thrown or the index of the new element.
\<close>

definition DivideElement ::
  "real \<Rightarrow> real \<Rightarrow> mesh \<Rightarrow> nat \<Rightarrow> nat \<Rightarrow> nat \<Rightarrow> vec2 \<Rightarrow> vec2 \<Rightarrow> (mesh \<times> (error + nat)) option" where
  "DivideElement k0 l0 m pe nodeAIndex nodeBIndex centroid axisOfDivision =
     (case mElementDivisionSpacing m of
        None \<Rightarrow> Some (m, Inl DivisionSpacingUnset)
      | Some spacing \<Rightarrow>
          let half_spacing = 0.5 * spacing;
              unit_perp = unit_perpendicular axisOfDivision;
              e = mElements m ! pe
          in if length (elem_nodes e) = 0 then Some (m, Inl ModuloByZero)
             else
               (case division_frontiers m e nodeAIndex nodeBIndex centroid unit_perp
                       half_spacing of
                  None \<Rightarrow> None
                | Some (m4, Inl err) \<Rightarrow> Some (m4, Inl err)
                | Some (m4, Inr (start_a, end_a, start_b, end_b)) \<Rightarrow>
                    finish_division k0 l0 m4 pe start_a end_a start_b end_b))"

text \<open>Two meshes that differ at most in the locations of nodes of the element \<open>e\<close>.\<close>

definition moved_within :: "element \<Rightarrow> mesh \<Rightarrow> mesh \<Rightarrow> bool" where
  "moved_within e m m' =
     (mElements m' = mElements m
      \<and> mElementFluidSources m' = mElementFluidSources m
      \<and> mMembraneIndex m' = mMembraneIndex m
      \<and> mElementDivisionSpacing m' = mElementDivisionSpacing m
      \<and> length (mNodes m') = length (mNodes m)
      \<and> (\<forall>j < length (mNodes m).
            mNodes m' ! j = (mNodes m ! j)\<lparr> location := location (mNodes m' ! j) \<rparr>
          \<and> (j \<notin> set (elem_nodes e) \<longrightarrow> mNodes m' ! j = mNodes m ! j)))"

subsection \<open>\<^verbatim>\<open>DivideElementAlongGivenAxis\<close>, the caller of \<^verbatim>\<open>DivideElement\<close>\<close>

text \<open>\<^verbatim>\<open>GetNodeLocalIndex\<close> of the element base class: the last local index whose node
  carries the global index asked for, and \<^verbatim>\<open>UINT_MAX\<close> if there is none.\<close>

definition GetNodeLocalIndex :: "mesh \<Rightarrow> element \<Rightarrow> nat \<Rightarrow> nat" where
  "GetNodeLocalIndex m e globalIndex =
     fold (\<lambda>i local_index. if GetNodeGlobalIndex m e i = globalIndex then i else local_index)
       [0..<length (elem_nodes e)] UINT_MAX"

definition is_node_on_left :: "mesh \<Rightarrow> element \<Rightarrow> vec2 \<Rightarrow> vec2 \<Rightarrow> nat \<Rightarrow> bool" where
  "is_node_on_left m e centroid perp_axis i =
     (inner_prod (GetVectorFromAtoB (GetNodeLocation m e i) centroid) perp_axis \<ge> 0)"

fun crossing_step ::
  "mesh \<Rightarrow> element \<Rightarrow> vec2 \<Rightarrow> vec2 \<Rightarrow> nat \<Rightarrow> nat list \<times> bool \<Rightarrow> nat list \<times> bool" where
  "crossing_step m e centroid perp_axis i (intersecting_nodes, is_current_node_on_left) =
     (let is_next_node_on_left =
            is_node_on_left m e centroid perp_axis ((i + 1) mod length (elem_nodes e))
      in (if is_current_node_on_left \<noteq> is_next_node_on_left
          then intersecting_nodes @ [i] else intersecting_nodes,
          is_next_node_on_left))"

definition DivideElementAlongGivenAxis ::
  "real \<Rightarrow> real \<Rightarrow> mesh \<Rightarrow> nat \<Rightarrow> vec2 \<Rightarrow> (mesh \<times> (error + nat)) option" where
  "DivideElementAlongGivenAxis k0 l0 m pe axisOfDivision =
     (let e = mElements m ! pe
      in case GetCentroidOfElement m (elem_index e) of
           Inl err \<Rightarrow> Some (m, Inl err)
         | Inr centroid \<Rightarrow>
             let perp_axis = (- snd axisOfDivision, fst axisOfDivision);
                 num_nodes = length (elem_nodes e)
             in if num_nodes = 0 then Some (m, Inl AssertionFailed)
                else
                  let intersecting_nodes =
                        fst (fold (crossing_step m e centroid perp_axis) [0..<num_nodes]
                               ([], is_node_on_left m e centroid perp_axis 0))
                  in if length intersecting_nodes \<noteq> 2
                     then Some (m, Inl AxisDoesNotCrossTwoEdges)
                     else DivideElement k0 l0 m pe
                            (GetNodeLocalIndex m e (intersecting_nodes ! 0))
                            (GetNodeLocalIndex m e (intersecting_nodes ! 1))
                            centroid axisOfDivision)"

section \<open>Concrete meshes\<close>

text \<open>Small meshes on which the functions above are evaluated. A node with no force,
  no attributes, in region 0, member of the element \<open>elem\<close>.\<close>

definition plain_node :: "nat \<Rightarrow> nat \<Rightarrow> vec2 \<Rightarrow> node" where
  "plain_node elem i p =
     \<lparr> node_index = i, location = p, region = 0, applied_force = (0, 0),
       node_attributes = [], containing_elements = [elem] \<rparr>"

definition plain_element :: "nat \<Rightarrow> nat list \<Rightarrow> nat option \<Rightarrow> element" where
  "plain_element i ns src =
     \<lparr> elem_index = i, elem_nodes = ns, membrane_spring_constant = 1,
       membrane_rest_length = 1 / 10, elem_attributes = [], corner_nodes = [],
       fluid_source = src, average_node_spacing = None \<rparr>"

definition plain_source :: "nat \<Rightarrow> vec2 \<Rightarrow> fluid_source_data" where
  "plain_source i p =
     \<lparr> source_index = i, source_location = p, strength = 0, associated_element = i \<rparr>"

text \<open>One square cell of side \<open>0.2\<close> about \<open>(0.5, 0.5)\<close>, no membrane.\<close>

definition square_mesh :: mesh where
  "square_mesh =
     \<lparr> mNodes = [plain_node 0 0 (0.4, 0.4), plain_node 0 1 (0.6, 0.4),
                 plain_node 0 2 (0.6, 0.6), plain_node 0 3 (0.4, 0.6)],
       mElements = [plain_element 0 [0, 1, 2, 3] (Some 0)],
       mElementFluidSources = [plain_source 0 (0.5, 0.5)],
       mMembraneIndex = UINT_MAX,
       mElementDivisionSpacing = None \<rparr>"

text \<open>An element of three nodes whose first node is lateral (region 2) and whose second
  node is basal (region 0).\<close>

definition lateral_basal_mesh :: mesh where
  "lateral_basal_mesh =
     \<lparr> mNodes = [(plain_node 0 0 (0.5, 0.5))\<lparr> region := 2 \<rparr>,
                 (plain_node 0 1 (0.8, 0.5))\<lparr> region := 0 \<rparr>,
                 (plain_node 0 2 (0.6, 0.7))\<lparr> region := 2 \<rparr>],
       mElements = [plain_element 0 [0, 1, 2] (Some 0)],
       mElementFluidSources = [plain_source 0 (0.6, 0.6)],
       mMembraneIndex = UINT_MAX,
       mElementDivisionSpacing = None \<rparr>"

text \<open>A membrane element (index 0) of two nodes and one cell (index 1) of three.\<close>

definition membrane_and_cell_mesh :: mesh where
  "membrane_and_cell_mesh =
     \<lparr> mNodes = [plain_node 0 0 (0.2, 0.1), plain_node 0 1 (0.8, 0.1),
                 plain_node 1 2 (0.4, 0.4), plain_node 1 3 (0.6, 0.4),
                 plain_node 1 4 (0.5, 0.6)],
       mElements = [plain_element 0 [0, 1] None, plain_element 1 [2, 3, 4] (Some 0)],
       mElementFluidSources = [plain_source 0 (0.5, 0.5)],
       mMembraneIndex = 0,
       mElementDivisionSpacing = None \<rparr>"

definition membrane_and_cell_mesh_set_up :: mesh where
  "membrane_and_cell_mesh_set_up =
     membrane_and_cell_mesh
       \<lparr> mNodes := map (\<lambda>nd. nd\<lparr> node_attributes := [1, 0, 0] \<rparr>)
                      (mNodes membrane_and_cell_mesh) \<rparr>"

text \<open>Two cells of three nodes each, with the protein attributes set up and the
  average node spacing of both cells cached as \<open>0.05\<close>; a linear-spring force and a
  population with interaction distance \<open>0.1\<close>.\<close>

definition two_cell_mesh :: mesh where
  "two_cell_mesh =
     \<lparr> mNodes = map (\<lambda>nd. nd\<lparr> node_attributes := [1, 0, 0] \<rparr>)
                  [plain_node 0 0 (0.4, 0.4), plain_node 0 1 (0.5, 0.5),
                   plain_node 0 2 (0.4, 0.6), plain_node 1 3 (0.52, 0.5),
                   plain_node 1 4 (0.6, 0.4), plain_node 1 5 (0.6, 0.6)],
       mElements = [(plain_element 0 [0, 1, 2] (Some 0))\<lparr> average_node_spacing := Some 0.05 \<rparr>,
                    (plain_element 1 [3, 4, 5] (Some 1))\<lparr> average_node_spacing := Some 0.05 \<rparr>],
       mElementFluidSources = [plain_source 0 (0.45, 0.5), plain_source 1 (0.55, 0.5)],
       mMembraneIndex = UINT_MAX,
       mElementDivisionSpacing = None \<rparr>"

text \<open>The same two cells with node 3 moved onto node 1: a pair of coincident nodes of
  different cells.\<close>

definition coincident_cell_mesh :: mesh where
  "coincident_cell_mesh =
     two_cell_mesh\<lparr> mNodes := (mNodes two_cell_mesh)
                      [3 := (mNodes two_cell_mesh ! 3)\<lparr> location := (0.5, 0.5) \<rparr>] \<rparr>"

definition linear_force :: cell_cell_force where
  "linear_force =
     \<lparr> mSpringConst = 1000, mRestLength = 0.025, mLinearSpring = True,
       mProteinNodeAttributeLocations = [0, 1, 2] \<rparr>"

definition example_population :: cell_population where
  "example_population = \<lparr> interaction_distance = 0.1, intrinsic_spacing = 0.01 \<rparr>"

text \<open>
  A trapezoid cell with centroid \<open>(0.5, 0.5)\<close>: two nodes at \<open>x = 0.65\<close>, two at
  \<open>x = 0.29\<close>, and a division spacing of \<open>0.36\<close>. The vertical axis through the centroid
  crosses the edges after the local nodes 1 and 3.
\<close>

definition trapezoid_mesh :: mesh where
  "trapezoid_mesh =
     \<lparr> mNodes = [plain_node 0 0 (0.65, 0.35), plain_node 0 1 (0.65, 0.65),
                 plain_node 0 2 (0.29, 0.55), plain_node 0 3 (0.29, 0.45)],
       mElements = [plain_element 0 [0, 1, 2, 3] (Some 0)],
       mElementFluidSources = [plain_source 0 (0.5, 0.5)],
       mMembraneIndex = UINT_MAX,
       mElementDivisionSpacing = Some 0.36 \<rparr>"

text \<open>A rectangular cell of eight nodes about \<open>(0.5, 0.5)\<close> with a division spacing of
  \<open>0.1\<close>; the vertical axis crosses the edges after the local nodes 0 and 4.\<close>

definition rectangle_mesh :: mesh where
  "rectangle_mesh =
     \<lparr> mNodes = [plain_node 0 0 (0.4, 0.4), plain_node 0 1 (0.6, 0.4),
                 plain_node 0 2 (0.7, 0.4), plain_node 0 3 (0.7, 0.6),
                 plain_node 0 4 (0.6, 0.6), plain_node 0 5 (0.4, 0.6),
                 plain_node 0 6 (0.3, 0.6), plain_node 0 7 (0.3, 0.4)],
       mElements = [plain_element 0 [0, 1, 2, 3, 4, 5, 6, 7] (Some 0)],
       mElementFluidSources = [plain_source 0 (0.5, 0.5)],
       mMembraneIndex = UINT_MAX,
       mElementDivisionSpacing = Some 0.1 \<rparr>"

text \<open>The trapezoid after the two successful walks of a division along the vertical
  axis: the local nodes 2 and 3 have been moved from \<open>x = 0.29\<close> to \<open>x = 0.32\<close>.\<close>

definition trapezoid_mesh_after :: mesh where
  "trapezoid_mesh_after =
     trapezoid_mesh
       \<lparr> mNodes := [plain_node 0 0 (0.65, 0.35), plain_node 0 1 (0.65, 0.65),
                    plain_node 0 2 (0.32, 0.55), plain_node 0 3 (0.32, 0.45)] \<rparr>"

text \<open>The rectangle after the four walks of a division along the vertical axis: the
  local nodes 1, 4, 5 and 0 have been moved onto the lines \<open>x = 0.55\<close> and \<open>x = 0.45\<close>.\<close>

definition rectangle_mesh_snapped :: mesh where
  "rectangle_mesh_snapped =
     rectangle_mesh
       \<lparr> mNodes := [plain_node 0 0 (0.45, 0.4), plain_node 0 1 (0.55, 0.4),
                    plain_node 0 2 (0.7, 0.4), plain_node 0 3 (0.7, 0.6),
                    plain_node 0 4 (0.55, 0.6), plain_node 0 5 (0.45, 0.6),
                    plain_node 0 6 (0.3, 0.6), plain_node 0 7 (0.3, 0.4)] \<rparr>"

text \<open>The two daughters of the rectangle: the eight nodes of the element divided, on
  the outline of the right half, and eight new nodes on the outline of the left half.\<close>

definition rectangle_mesh_divided :: mesh where
  "rectangle_mesh_divided =
     \<lparr> mNodes = [plain_node 0 0 (11 / 20, 2 / 5), plain_node 0 1 (51 / 80, 2 / 5),
                 plain_node 0 2 (7 / 10, 17 / 40), plain_node 0 3 (7 / 10, 41 / 80),
                 plain_node 0 4 (7 / 10, 3 / 5), plain_node 0 5 (49 / 80, 3 / 5),
                 plain_node 0 6 (11 / 20, 23 / 40), plain_node 0 7 (11 / 20, 39 / 80),
                 plain_node 1 8 (9 / 20, 3 / 5), plain_node 1 9 (29 / 80, 3 / 5),
                 plain_node 1 10 (3 / 10, 23 / 40), plain_node 1 11 (3 / 10, 39 / 80),
                 plain_node 1 12 (3 / 10, 2 / 5), plain_node 1 13 (31 / 80, 2 / 5),
                 plain_node 1 14 (9 / 20, 17 / 40), plain_node 1 15 (9 / 20, 41 / 80)],
       mElements = [plain_element 0 [0, 1, 2, 3, 4, 5, 6, 7] (Some 0),
                    plain_element 1 [8, 9, 10, 11, 12, 13, 14, 15] (Some 1)],
       mElementFluidSources = [plain_source 0 (5 / 8, 1 / 2), plain_source 1 (3 / 8, 1 / 2)],
       mMembraneIndex = UINT_MAX,
       mElementDivisionSpacing = Some (1 / 10) \<rparr>"

text \<open>The same mesh before the fluid sources are brought up to date.\<close>

definition rectangle_mesh_daughters :: mesh where
  "rectangle_mesh_daughters =
     rectangle_mesh_divided
       \<lparr> mElements := [plain_element 0 [0, 1, 2, 3, 4, 5, 6, 7] (Some 0),
                       plain_element 1 [8, 9, 10, 11, 12, 13, 14, 15] None],
         mElementFluidSources := [plain_source 0 (1 / 2, 1 / 2)] \<rparr>"

section \<open>Periodic geometry: results\<close>

lemma periodic_component_contract:
  assumes "0 \<le> a" "a < 1" "0 \<le> b" "b < 1"
  shows "periodic_component (b - a) = shortest_component a b"
  using assms
  by (auto simp: periodic_component_def shortest_component_def copysign_def sgn_real_def)

lemma periodic_component_small:
  assumes "0 \<le> a" "a < 1" "0 \<le> b" "b < 1"
  shows "\<bar>periodic_component (b - a)\<bar> \<le> 0.5"
  using assms
  by (auto simp: periodic_component_def copysign_def)

lemma periodic_component_frac:
  assumes "0 \<le> a" "a < 1" "0 \<le> b" "b < 1"
  shows "frac (a + periodic_component (b - a)) = b"
proof -
  have "a + periodic_component (b - a) - b \<in> \<int>"
    using assms by (auto simp: periodic_component_def copysign_def abs_if)
  then show ?thesis
    using assms by (simp add: frac_unique_iff)
qed

lemma norm_2_half_bound:
  assumes "\<bar>fst v\<bar> \<le> 0.5" "\<bar>snd v\<bar> \<le> 0.5"
  shows "norm_2 v \<le> sqrt (0.5\<^sup>2 + 0.5\<^sup>2)"
proof -
  have "fst v * fst v \<le> 0.5\<^sup>2"
    using assms(1) abs_le_square_iff [of "fst v" "0.5"] by (simp add: power2_eq_square)
  moreover have "snd v * snd v \<le> 0.5\<^sup>2"
    using assms(2) abs_le_square_iff [of "snd v" "0.5"] by (simp add: power2_eq_square)
  ultimately show ?thesis
    unfolding norm_2_def by (intro real_sqrt_le_mono) linarith
qed

text \<open>
  C2. For points \<open>A\<close>, \<open>B\<close> of \<open>[0,1)\<^sup>2\<close>, each component of
  \<open>GetVectorFromAtoB A B\<close> is \<open>sign(A - B) \<sqdot> (1 - |B - A|)\<close> when \<open>|B - A| > 0.5\<close> and
  \<open>B - A\<close> otherwise; each component has absolute value at most \<open>0.5\<close>, the norm is
  at most \<open>sqrt (0.5\<^sup>2 + 0.5\<^sup>2)\<close>, and \<open>A\<close> plus the result, reduced modulo 1, is \<open>B\<close>.
\<close>

theorem GetVectorFromAtoB_shortest:
  assumes "in_unit_square A" and "in_unit_square B"
  shows "fst (GetVectorFromAtoB A B) = shortest_component (fst A) (fst B)
       \<and> snd (GetVectorFromAtoB A B) = shortest_component (snd A) (snd B)
       \<and> \<bar>fst (GetVectorFromAtoB A B)\<bar> \<le> 0.5
       \<and> \<bar>snd (GetVectorFromAtoB A B)\<bar> \<le> 0.5
       \<and> norm_2 (GetVectorFromAtoB A B) \<le> sqrt (0.5\<^sup>2 + 0.5\<^sup>2)
       \<and> frac (fst A + fst (GetVectorFromAtoB A B)) = fst B
       \<and> frac (snd A + snd (GetVectorFromAtoB A B)) = snd B"
proof -
  have a: "0 \<le> fst A" "fst A < 1" "0 \<le> snd A" "snd A < 1"
    using assms(1) by (simp_all add: in_unit_square_def)
  have b: "0 \<le> fst B" "fst B < 1" "0 \<le> snd B" "snd B < 1"
    using assms(2) by (simp_all add: in_unit_square_def)
  have x: "\<bar>fst (GetVectorFromAtoB A B)\<bar> \<le> 0.5"
    using periodic_component_small [OF a(1,2) b(1,2)] by (simp add: GetVectorFromAtoB_def)
  have y: "\<bar>snd (GetVectorFromAtoB A B)\<bar> \<le> 0.5"
    using periodic_component_small [OF a(3,4) b(3,4)] by (simp add: GetVectorFromAtoB_def)
  show ?thesis
    using x y norm_2_half_bound [OF x y]
      periodic_component_contract [OF a(1,2) b(1,2)]
      periodic_component_contract [OF a(3,4) b(3,4)]
      periodic_component_frac [OF a(1,2) b(1,2)]
      periodic_component_frac [OF a(3,4) b(3,4)]
    by (simp add: GetVectorFromAtoB_def)
qed

theorem GetVectorFromAtoB_shortest_witness:
  "in_unit_square (0.1, 0.9) \<and> in_unit_square (0.8, 0.2)
   \<and> GetVectorFromAtoB (0.1, 0.9) (0.8, 0.2) = (- 0.3, 0.3)
   \<and> frac (fst (0.1 :: real, 0.9 :: real) + fst (GetVectorFromAtoB (0.1, 0.9) (0.8, 0.2)))
       = fst (0.8 :: real, 0.2 :: real)"
proof -
  have A: "in_unit_square (0.1, 0.9)" by (simp add: in_unit_square_def)
  have B: "in_unit_square (0.8, 0.2)" by (simp add: in_unit_square_def)
  have v: "GetVectorFromAtoB (0.1, 0.9) (0.8, 0.2) = (- 0.3, 0.3)"
    by (simp add: GetVectorFromAtoB_def periodic_component_def copysign_def)
  show ?thesis
    using A B v GetVectorFromAtoB_shortest [OF A B] by blast
qed

section \<open>Upwind advection: results\<close>

lemma mod_step:
  assumes "2 \<le> N" "N < 2 ^ 32" "p = (k + c) mod N"
  shows "((p + 1) mod 2 ^ 32) mod N = (Suc k + c) mod (N::nat)"
proof -
  have "p < N" using assms by simp
  then have "p + 1 < 2 ^ 32" using assms by linarith
  then have "(p + 1) mod 2 ^ 32 = p + 1" by simp
  then show ?thesis using assms by (simp add: mod_Suc_eq)
qed

lemma upwind_cell_inv:
  assumes N: "2 \<le> Nx" "Nx < 2 ^ 32" "2 \<le> Ny" "Ny < 2 ^ 32"
    and y: "y < Ny" and k: "k < Nx"
    and inv: "row_inv Nx Ny in_x in_y y k s"
  shows "row_inv Nx Ny in_x in_y y (Suc k) (upwind_cell Nx Ny in_x in_y y k s)"
proof -
  let ?s = "upwind_cell Nx Ny in_x in_y y k s"
  have px: "prev_x s = (k + Nx - 1) mod Nx" and nx: "next_x s = (k + 1) mod Nx"
    and py: "prev_y s = (y + Ny - 1) mod Ny" and ny: "next_y s = (y + 1) mod Ny"
    and lx: "length (out_x s) = Ny" and ly: "length (out_y s) = Ny"
    and lr: "\<And>r. r < Ny \<Longrightarrow> length (out_x s ! r) = Nx \<and> length (out_y s ! r) = Nx"
    and done_rows: "\<And>r c. r < y \<Longrightarrow> c < Nx \<Longrightarrow>
          out_x s ! r ! c = upwind_formula Nx Ny in_x in_y in_x r c
        \<and> out_y s ! r ! c = upwind_formula Nx Ny in_x in_y in_y r c"
    and done_cells: "\<And>c. c < k \<Longrightarrow>
          out_x s ! y ! c = upwind_formula Nx Ny in_x in_y in_x y c
        \<and> out_y s ! y ! c = upwind_formula Nx Ny in_x in_y in_y y c"
    using inv unfolding row_inv_def by blast+
  have px': "prev_x ?s = (Suc k + Nx - 1) mod Nx"
  proof -
    have "prev_x s = (k + (Nx - 1)) mod Nx" using px N by simp
    from mod_step [OF N(1,2) this] show ?thesis
      using N by (simp add: upwind_cell_def Let_def)
  qed
  have nx': "next_x ?s = (Suc k + 1) mod Nx"
    using mod_step [OF N(1,2) nx] by (simp add: upwind_cell_def Let_def)
  have py': "prev_y ?s = (y + Ny - 1) mod Ny" and ny': "next_y ?s = (y + 1) mod Ny"
    using py ny by (simp_all add: upwind_cell_def Let_def)
  have ox: "out_x ?s = set_cell (out_x s) y k (upwind_formula Nx Ny in_x in_y in_x y k)"
    using px nx py ny by (simp add: upwind_cell_def Let_def upwind_formula_def)
  have oy: "out_y ?s = set_cell (out_y s) y k (upwind_formula Nx Ny in_x in_y in_y y k)"
    using px nx py ny by (simp add: upwind_cell_def Let_def upwind_formula_def)
  have len: "length (out_x ?s) = Ny" "length (out_y ?s) = Ny"
    using lx ly by (simp_all add: ox oy set_cell_def)
  have lr': "\<forall>r < Ny. length (out_x ?s ! r) = Nx \<and> length (out_y ?s ! r) = Nx"
  proof (intro allI impI)
    fix r assume r: "r < Ny"
    show "length (out_x ?s ! r) = Nx \<and> length (out_y ?s ! r) = Nx"
      using lr [OF r] lr [OF y] lx ly r y
      by (cases "r = y") (simp_all add: ox oy set_cell_def)
  qed
  have rows': "\<forall>r < y. \<forall>c < Nx.
          out_x ?s ! r ! c = upwind_formula Nx Ny in_x in_y in_x r c
        \<and> out_y ?s ! r ! c = upwind_formula Nx Ny in_x in_y in_y r c"
    using done_rows by (auto simp: ox oy set_cell_def nth_list_update)
  have cells': "\<forall>c < Suc k.
          out_x ?s ! y ! c = upwind_formula Nx Ny in_x in_y in_x y c
        \<and> out_y ?s ! y ! c = upwind_formula Nx Ny in_x in_y in_y y c"
    using done_cells lr [OF y] lx ly y k
    by (auto simp: ox oy set_cell_def nth_list_update less_Suc_eq)
  show ?thesis
    unfolding row_inv_def using px' nx' py' ny' len lr' rows' cells' by blast
qed

lemma upwind_cells_inv:
  assumes N: "2 \<le> Nx" "Nx < 2 ^ 32" "2 \<le> Ny" "Ny < 2 ^ 32"
    and y: "y < Ny" and inv: "row_inv Nx Ny in_x in_y y 0 s"
  shows "k \<le> Nx \<Longrightarrow>
    row_inv Nx Ny in_x in_y y k (fold (upwind_cell Nx Ny in_x in_y y) [0..<k] s)"
proof (induction k)
  case 0
  then show ?case using inv by simp
next
  case (Suc k)
  then have "row_inv Nx Ny in_x in_y y k (fold (upwind_cell Nx Ny in_x in_y y) [0..<k] s)"
    and "k < Nx" by simp_all
  from upwind_cell_inv [OF N y this(2) this(1)] show ?case by simp
qed

lemma upwind_row_inv:
  assumes N: "2 \<le> Nx" "Nx < 2 ^ 32" "2 \<le> Ny" "Ny < 2 ^ 32"
    and y: "y < Ny" and inv: "row_inv Nx Ny in_x in_y y 0 s"
  shows "row_inv Nx Ny in_x in_y (Suc y) 0 (upwind_row Nx Ny in_x in_y y s)"
proof -
  let ?s' = "fold (upwind_cell Nx Ny in_x in_y y) [0..<Nx] s"
  have full: "row_inv Nx Ny in_x in_y y Nx ?s'"
    using upwind_cells_inv [OF N y inv, of Nx] by simp
  have px: "prev_x ?s' = (Nx + Nx - 1) mod Nx" and nx: "next_x ?s' = (Nx + 1) mod Nx"
    and py: "prev_y ?s' = (y + Ny - 1) mod Ny" and ny: "next_y ?s' = (y + 1) mod Ny"
    and lx: "length (out_x ?s') = Ny" and ly: "length (out_y ?s') = Ny"
    and lr: "\<forall>r < Ny. length (out_x ?s' ! r) = Nx \<and> length (out_y ?s' ! r) = Nx"
    and done_rows: "\<And>r c. r < y \<Longrightarrow> c < Nx \<Longrightarrow>
          out_x ?s' ! r ! c = upwind_formula Nx Ny in_x in_y in_x r c
        \<and> out_y ?s' ! r ! c = upwind_formula Nx Ny in_x in_y in_y r c"
    and done_cells: "\<And>c. c < Nx \<Longrightarrow>
          out_x ?s' ! y ! c = upwind_formula Nx Ny in_x in_y in_x y c
        \<and> out_y ?s' ! y ! c = upwind_formula Nx Ny in_x in_y in_y y c"
    using full unfolding row_inv_def by blast+
  let ?t = "upwind_row Nx Ny in_x in_y y s"
  have t: "?t = ?s'\<lparr> prev_y := ((prev_y ?s' + 1) mod 2 ^ 32) mod Ny,
                     next_y := ((next_y ?s' + 1) mod 2 ^ 32) mod Ny \<rparr>"
    by (simp add: upwind_row_def Let_def)
  have px': "prev_x ?t = (0 + Nx - 1) mod Nx"
  proof -
    have "(Nx + Nx - 1) mod Nx = (Nx - 1 + Nx) mod Nx" using N by (simp add: add.commute)
    also have "\<dots> = (Nx - 1) mod Nx" by (simp only: mod_add_self2)
    finally show ?thesis using px by (simp add: t)
  qed
  have nx': "next_x ?t = (0 + 1) mod Nx"
  proof -
    have "(Nx + 1) mod Nx = (1 + Nx) mod Nx" by (simp add: add.commute)
    also have "\<dots> = 1 mod Nx" by (simp only: mod_add_self2)
    finally show ?thesis using nx by (simp add: t)
  qed
  have py': "prev_y ?t = (Suc y + Ny - 1) mod Ny"
  proof -
    have "prev_y ?s' = (y + (Ny - 1)) mod Ny" using py N by simp
    from mod_step [OF N(3,4) this] show ?thesis using N by (simp add: t)
  qed
  have ny': "next_y ?t = (Suc y + 1) mod Ny"
    using mod_step [OF N(3,4) ny] by (simp add: t)
  have rows': "\<forall>r < Suc y. \<forall>c < Nx.
          out_x ?t ! r ! c = upwind_formula Nx Ny in_x in_y in_x r c
        \<and> out_y ?t ! r ! c = upwind_formula Nx Ny in_x in_y in_y r c"
    using done_rows done_cells by (auto simp: t less_Suc_eq)
  show ?thesis
    unfolding row_inv_def using px' nx' py' ny' lx ly lr rows' by (simp add: t)
qed

lemma upwind_init_inv:
  assumes N: "2 \<le> Nx" "Nx < 2 ^ 32" "2 \<le> Ny" "Ny < 2 ^ 32"
  shows "row_inv Nx Ny in_x in_y 0 0 (upwind_init Nx Ny)"
proof -
  have a: "(Nx + 2 ^ 32 - 1) mod 2 ^ 32 = Nx - 1"
  proof -
    have "Nx + 2 ^ 32 - 1 = (Nx - 1) + 2 ^ 32" using N by simp
    then have "(Nx + 2 ^ 32 - 1) mod 2 ^ 32 = (Nx - 1) mod 2 ^ 32"
      by (simp only: mod_add_self2)
    then show ?thesis using N by simp
  qed
  have b: "(Ny + 2 ^ 32 - 1) mod 2 ^ 32 = Ny - 1"
  proof -
    have "Ny + 2 ^ 32 - 1 = (Ny - 1) + 2 ^ 32" using N by simp
    then have "(Ny + 2 ^ 32 - 1) mod 2 ^ 32 = (Ny - 1) mod 2 ^ 32"
      by (simp only: mod_add_self2)
    then show ?thesis using N by simp
  qed
  show ?thesis
    unfolding row_inv_def upwind_init_def using N a b
    by (simp add: SetupGrid_def)
qed

lemma upwind_rows_inv:
  assumes N: "2 \<le> Nx" "Nx < 2 ^ 32" "2 \<le> Ny" "Ny < 2 ^ 32"
  shows "y \<le> Ny \<Longrightarrow>
    row_inv Nx Ny in_x in_y y 0 (fold (upwind_row Nx Ny in_x in_y) [0..<y] (upwind_init Nx Ny))"
proof (induction y)
  case 0
  then show ?case using upwind_init_inv [OF N] by simp
next
  case (Suc y)
  then have "row_inv Nx Ny in_x in_y y 0
      (fold (upwind_row Nx Ny in_x in_y) [0..<y] (upwind_init Nx Ny))" and "y < Ny"
    by simp_all
  from upwind_row_inv [OF N this(2) this(1)] show ?case by simp
qed

text \<open>
  C7. With at least two grid points in each direction, the loop-carried indices of
  \<^verbatim>\<open>UpwindScheme\<close> are, on entering every cell \<open>(y, x)\<close>, the periodic neighbours
  \<open>(x - 1 + Nx) mod Nx\<close>, \<open>(x + 1) mod Nx\<close>, \<open>(y - 1 + Ny) mod Ny\<close> and
  \<open>(y + 1) mod Ny\<close>, and the two grids the loop writes are the first-order upwind
  formula computed with those indices inline, for \<open>u\<close> and for \<open>v\<close>.
\<close>

theorem UpwindScheme_refines_formula:
  assumes N: "2 \<le> Nx" "Nx < 2 ^ 32" "2 \<le> Ny" "Ny < 2 ^ 32"
  shows "UpwindScheme Nx Ny in_x in_y
           = (upwind_grid Nx Ny in_x in_y in_x, upwind_grid Nx Ny in_x in_y in_y)
       \<and> (\<forall>y < Ny. \<forall>x < Nx.
            prev_x (upwind_state_at Nx Ny in_x in_y y x) = (x + Nx - 1) mod Nx
          \<and> next_x (upwind_state_at Nx Ny in_x in_y y x) = (x + 1) mod Nx
          \<and> prev_y (upwind_state_at Nx Ny in_x in_y y x) = (y + Ny - 1) mod Ny
          \<and> next_y (upwind_state_at Nx Ny in_x in_y y x) = (y + 1) mod Ny)"
proof -
  let ?s = "fold (upwind_row Nx Ny in_x in_y) [0..<Ny] (upwind_init Nx Ny)"
  have fin: "row_inv Nx Ny in_x in_y Ny 0 ?s"
    using upwind_rows_inv [OF N, of Ny] by simp
  have ox: "out_x ?s = upwind_grid Nx Ny in_x in_y in_x"
  proof (rule nth_equalityI)
    show "length (out_x ?s) = length (upwind_grid Nx Ny in_x in_y in_x)"
      using fin by (simp add: row_inv_def upwind_grid_def)
  next
    fix r assume "r < length (out_x ?s)"
    then have r: "r < Ny" using fin by (simp add: row_inv_def)
    show "out_x ?s ! r = upwind_grid Nx Ny in_x in_y in_x ! r"
    proof (rule nth_equalityI)
      show "length (out_x ?s ! r) = length (upwind_grid Nx Ny in_x in_y in_x ! r)"
        using fin r by (simp add: row_inv_def upwind_grid_def)
    next
      fix c assume "c < length (out_x ?s ! r)"
      then have "c < Nx" using fin r by (simp add: row_inv_def)
      then show "out_x ?s ! r ! c = upwind_grid Nx Ny in_x in_y in_x ! r ! c"
        using fin r by (simp add: row_inv_def upwind_grid_def)
    qed
  qed
  have oy: "out_y ?s = upwind_grid Nx Ny in_x in_y in_y"
  proof (rule nth_equalityI)
    show "length (out_y ?s) = length (upwind_grid Nx Ny in_x in_y in_y)"
      using fin by (simp add: row_inv_def upwind_grid_def)
  next
    fix r assume "r < length (out_y ?s)"
    then have r: "r < Ny" using fin by (simp add: row_inv_def)
    show "out_y ?s ! r = upwind_grid Nx Ny in_x in_y in_y ! r"
    proof (rule nth_equalityI)
      show "length (out_y ?s ! r) = length (upwind_grid Nx Ny in_x in_y in_y ! r)"
        using fin r by (simp add: row_inv_def upwind_grid_def)
    next
      fix c assume "c < length (out_y ?s ! r)"
      then have "c < Nx" using fin r by (simp add: row_inv_def)
      then show "out_y ?s ! r ! c = upwind_grid Nx Ny in_x in_y in_y ! r ! c"
        using fin r by (simp add: row_inv_def upwind_grid_def)
    qed
  qed
  have inv: "\<forall>y < Ny. \<forall>x < Nx.
            prev_x (upwind_state_at Nx Ny in_x in_y y x) = (x + Nx - 1) mod Nx
          \<and> next_x (upwind_state_at Nx Ny in_x in_y y x) = (x + 1) mod Nx
          \<and> prev_y (upwind_state_at Nx Ny in_x in_y y x) = (y + Ny - 1) mod Ny
          \<and> next_y (upwind_state_at Nx Ny in_x in_y y x) = (y + 1) mod Ny"
  proof (intro allI impI)
    fix y x assume y: "y < Ny" and x: "x < Nx"
    have "row_inv Nx Ny in_x in_y y 0
        (fold (upwind_row Nx Ny in_x in_y) [0..<y] (upwind_init Nx Ny))"
      using upwind_rows_inv [OF N, of y] y by simp
    from upwind_cells_inv [OF N y this, of x] x
    have "row_inv Nx Ny in_x in_y y x (upwind_state_at Nx Ny in_x in_y y x)"
      by (simp add: upwind_state_at_def)
    then show "prev_x (upwind_state_at Nx Ny in_x in_y y x) = (x + Nx - 1) mod Nx
          \<and> next_x (upwind_state_at Nx Ny in_x in_y y x) = (x + 1) mod Nx
          \<and> prev_y (upwind_state_at Nx Ny in_x in_y y x) = (y + Ny - 1) mod Ny
          \<and> next_y (upwind_state_at Nx Ny in_x in_y y x) = (y + 1) mod Ny"
      by (simp add: row_inv_def)
  qed
  show ?thesis
    using ox oy inv by (simp add: UpwindScheme_def Let_def)
qed

theorem UpwindScheme_refines_formula_witness:
  "(2::nat) \<le> 2 \<and> (2::nat) < 2 ^ 32
   \<and> UpwindScheme 2 2 [[1, - 1], [2, 0]] [[0, 1], [- 1, 3]]
       = ([[4, - 6], [10, 6]], [[- 2, - 2], [- 18, 12]])
   \<and> next_x (upwind_state_at 2 2 [[1, - 1], [2, 0]] [[0, 1], [- 1, 3]] 1 1) = 0"
proof -
  have N: "(2::nat) \<le> 2" "(2::nat) < 2 ^ 32" by simp_all
  have up: "[0..<2] = [0, 1]" by (simp add: upt_rec)
  have g: "upwind_grid 2 2 [[1, - 1], [2, 0]] [[0, 1], [- 1, 3]] [[1, - 1], [2, 0]]
             = [[4, - 6], [10, 6]]"
          "upwind_grid 2 2 [[1, - 1], [2, 0]] [[0, 1], [- 1, 3]] [[0, 1], [- 1, 3]]
             = [[- 2, - 2], [- 18, 12]]"
    by (simp_all add: upwind_grid_def upwind_formula_def up)
  show ?thesis
    using N g UpwindScheme_refines_formula [OF N N, of "[[1, - 1], [2, 0]]" "[[0, 1], [- 1, 3]]"]
    by simp
qed

section \<open>Pressure solve: results\<close>

lemma mSin2_zero_iff:
  assumes "0 < N" "even N" "k < N"
  shows "mSin2 N k = 0 \<longleftrightarrow> k = 0 \<or> k = N div 2"
proof
  assume "k = 0 \<or> k = N div 2"
  then show "mSin2 N k = 0"
  proof
    assume "k = 0"
    then show ?thesis by (simp add: mSin2_def)
  next
    assume k: "k = N div 2"
    have "2 * k = N" using k assms(2) by auto
    then have "2 * real k = real N" by (metis of_nat_mult of_nat_numeral)
    then have "2 * pi * real k * (1 / real N) = pi"
      using assms(1) by (simp add: field_simps)
    then show ?thesis by (simp add: mSin2_def)
  qed
next
  assume "mSin2 N k = 0"
  then obtain i :: int where i: "2 * pi * real k * (1 / real N) = of_int i * pi"
    unfolding mSin2_def sin_zero_iff_int2 by blast
  have "2 * real k = of_int i * real N"
  proof -
    have "pi * (2 * real k) = pi * (of_int i * real N)"
      using i assms(1) by (simp add: field_simps)
    then show ?thesis by simp
  qed
  then have "real_of_int (2 * int k) = real_of_int (i * int N)" by simp
  then have e: "2 * int k = i * int N" by (simp only: of_int_eq_iff)
  have "0 \<le> i * int N" using e by simp
  then have i0: "0 \<le> i" using assms(1) by (simp add: zero_le_mult_iff)
  have "2 * int k < 2 * int N" using assms(3) by simp
  then have "i * int N < 2 * int N" using e by simp
  then have "i < 2" using assms(1) by simp
  then have "i = 0 \<or> i = 1" using i0 by linarith
  then show "k = 0 \<or> k = N div 2"
  proof
    assume "i = 0"
    then show ?thesis using e by simp
  next
    assume "i = 1"
    then have "2 * k = N" using e by simp
    then show ?thesis by auto
  qed
qed

lemma pressure_denominator_zero_iff:
  assumes "0 < Nx" "even Nx" "0 < Ny" "even Ny" "0 < dt" "0 < reynolds" "y < Ny" "x < Nx"
  shows "pressure_denominator Nx Ny dt reynolds y x = 0 \<longleftrightarrow> gauge_mode Nx Ny y x"
proof -
  let ?a = "mSin2 Nx x * mSin2 Nx x / ((1 / real Nx) * (1 / real Nx))"
  let ?b = "mSin2 Ny y * mSin2 Ny y / ((1 / real Ny) * (1 / real Ny))"
  have a0: "0 \<le> ?a" and b0: "0 \<le> ?b" by simp_all
  have az: "?a = 0 \<longleftrightarrow> mSin2 Nx x = 0" using assms(1) by simp
  have bz: "?b = 0 \<longleftrightarrow> mSin2 Ny y = 0" using assms(3) by simp
  have "pressure_denominator Nx Ny dt reynolds y x = 0 \<longleftrightarrow> ?a + ?b = 0"
    using assms(5,6) unfolding pressure_denominator_def by simp
  also have "\<dots> \<longleftrightarrow> ?a = 0 \<and> ?b = 0"
    using a0 b0 by (rule add_nonneg_eq_0_iff)
  also have "\<dots> \<longleftrightarrow> mSin2 Nx x = 0 \<and> mSin2 Ny y = 0"
    using az bz by simp
  also have "\<dots> \<longleftrightarrow> gauge_mode Nx Ny y x"
    using mSin2_zero_iff [OF assms(1,2,8)] mSin2_zero_iff [OF assms(3,4,7)]
    by (simp add: gauge_mode_def)
  finally show ?thesis .
qed

lemma pressure_loop_nth:
  assumes "y < Ny" "x < Nx"
  shows "pressure_loop Nx Ny dt reynolds VelX_hat VelY_hat ! y ! x
           = cdiv (pressure_numerator Nx Ny VelX_hat VelY_hat y x)
               (pressure_denominator Nx Ny dt reynolds y x)"
  using assms by (simp add: pressure_loop_def)

lemma pressure_loop_length:
  "length (pressure_loop Nx Ny dt reynolds VelX_hat VelY_hat) = Ny"
  "y < Ny \<Longrightarrow> length (pressure_loop Nx Ny dt reynolds VelX_hat VelY_hat ! y) = Nx"
  by (simp_all add: pressure_loop_def)

lemma set_cell_length:
  "length (set_cell g r c v) = length g"
  "length (set_cell g r c v ! y) = length (g ! y)"
proof -
  show "length (set_cell g r c v) = length g"
    by (simp add: set_cell_def)
  show "length (set_cell g r c v ! y) = length (g ! y)"
  proof (cases "r < length g")
    case True
    then show ?thesis by (cases "y = r") (simp_all add: set_cell_def)
  next
    case False
    then have "g[r := (g ! r)[c := v]] = g" by (simp add: list_update_beyond)
    then show ?thesis by (simp add: set_cell_def)
  qed
qed

lemma set_cell_nth:
  assumes "y < length g" "x < length (g ! y)"
  shows "set_cell g r c v ! y ! x = (if y = r \<and> x = c then v else g ! y ! x)"
proof (cases "y = r")
  case True
  then show ?thesis using assms by (simp add: set_cell_def nth_list_update)
next
  case False
  then show ?thesis using assms by (simp add: set_cell_def)
qed

lemma calculate_pressure_nth:
  assumes "y < Ny" "x < Nx"
  shows "calculate_pressure Nx Ny dt reynolds VelX_hat VelY_hat ! y ! x
           = (if gauge_mode Nx Ny y x then Some 0
              else pressure_loop Nx Ny dt reynolds VelX_hat VelY_hat ! y ! x)"
proof -
  let ?p0 = "pressure_loop Nx Ny dt reynolds VelX_hat VelY_hat"
  let ?p1 = "set_cell ?p0 0 0 (Some 0)"
  let ?p2 = "set_cell ?p1 0 (Nx div 2) (Some 0)"
  let ?p3 = "set_cell ?p2 (Ny div 2) (Nx div 2) (Some 0)"
  let ?p4 = "set_cell ?p3 (Ny div 2) 0 (Some 0)"
  have l0: "y < length ?p0" "x < length (?p0 ! y)"
    using assms by (simp_all add: pressure_loop_length)
  then have l1: "y < length ?p1" "x < length (?p1 ! y)"
    by (simp_all only: set_cell_length)
  then have l2: "y < length ?p2" "x < length (?p2 ! y)"
    by (simp_all only: set_cell_length)
  then have l3: "y < length ?p3" "x < length (?p3 ! y)"
    by (simp_all only: set_cell_length)
  have "?p4 ! y ! x = (if y = Ny div 2 \<and> x = 0 then Some 0 else ?p3 ! y ! x)"
    by (rule set_cell_nth [OF l3])
  moreover have "?p3 ! y ! x = (if y = Ny div 2 \<and> x = Nx div 2 then Some 0 else ?p2 ! y ! x)"
    by (rule set_cell_nth [OF l2])
  moreover have "?p2 ! y ! x = (if y = 0 \<and> x = Nx div 2 then Some 0 else ?p1 ! y ! x)"
    by (rule set_cell_nth [OF l1])
  moreover have "?p1 ! y ! x = (if y = 0 \<and> x = 0 then Some 0 else ?p0 ! y ! x)"
    by (rule set_cell_nth [OF l0])
  ultimately have "?p4 ! y ! x = (if gauge_mode Nx Ny y x then Some 0 else ?p0 ! y ! x)"
    by (auto simp: gauge_mode_def)
  then show ?thesis by (simp add: calculate_pressure_def Let_def)
qed

text \<open>
  C6. For even \<open>Nx\<close>, \<open>Ny\<close> and positive \<open>dt\<close>, \<open>reynolds\<close>, the denominator of the pressure
  solve is zero at exactly the four modes \<open>(0,0)\<close>, \<open>(0,Nx/2)\<close>, \<open>(Ny/2,0)\<close>,
  \<open>(Ny/2,Nx/2)\<close>. At those four modes the loop divides by zero and leaves no number in
  \<^verbatim>\<open>p_hat\<close>; the four assignments after the loop put \<open>0\<close> there, so that after the solve
  the pressure transform is \<open>0\<close> at the four modes. At every other mode the denominator
  is not zero and the pressure transform is the quotient: every cell of \<^verbatim>\<open>p_hat\<close> holds
  a number when the solve ends.
\<close>

theorem pressure_denominator_gauge_modes:
  assumes "0 < Nx" "even Nx" "0 < Ny" "even Ny" "0 < dt" "0 < reynolds" "y < Ny" "x < Nx"
  shows "(pressure_denominator Nx Ny dt reynolds y x = 0 \<longleftrightarrow> gauge_mode Nx Ny y x)
       \<and> (gauge_mode Nx Ny y x \<longrightarrow>
            pressure_loop Nx Ny dt reynolds VelX_hat VelY_hat ! y ! x = None
          \<and> calculate_pressure Nx Ny dt reynolds VelX_hat VelY_hat ! y ! x = Some 0)
       \<and> (\<not> gauge_mode Nx Ny y x \<longrightarrow>
            pressure_denominator Nx Ny dt reynolds y x \<noteq> 0
          \<and> calculate_pressure Nx Ny dt reynolds VelX_hat VelY_hat ! y ! x
              = Some (pressure_numerator Nx Ny VelX_hat VelY_hat y x
                      / of_real (pressure_denominator Nx Ny dt reynolds y x)))"
  using pressure_denominator_zero_iff [OF assms]
    calculate_pressure_nth [OF assms(7,8)] pressure_loop_nth [OF assms(7,8)]
  by (simp add: cdiv_def)

theorem pressure_denominator_gauge_modes_witness:
  "(0::nat) < 4 \<and> even (4::nat) \<and> (0::real) < 1 \<and> (2::nat) < 4 \<and> (0::nat) < 4
   \<and> gauge_mode 4 4 2 0
   \<and> pressure_denominator 4 4 1 1 2 0 = 0
   \<and> pressure_loop 4 4 1 1 (replicate 4 (replicate 4 1)) (replicate 4 (replicate 4 \<i>)) ! 2 ! 0 = None
   \<and> calculate_pressure 4 4 1 1 (replicate 4 (replicate 4 1)) (replicate 4 (replicate 4 \<i>)) ! 2 ! 0
       = Some 0
   \<and> \<not> gauge_mode 4 4 2 1
   \<and> pressure_denominator 4 4 1 1 2 1 \<noteq> 0
   \<and> calculate_pressure 4 4 1 1 (replicate 4 (replicate 4 1)) (replicate 4 (replicate 4 \<i>)) ! 2 ! 1
       = Some (pressure_numerator 4 4 (replicate 4 (replicate 4 1)) (replicate 4 (replicate 4 \<i>)) 2 1
               / of_real (pressure_denominator 4 4 1 1 2 1))"
proof -
  have h: "(0::nat) < 4" "even (4::nat)" "(0::real) < 1" "(2::nat) < 4" "(1::nat) < 4"
    by simp_all
  have g: "gauge_mode 4 4 2 0" "\<not> gauge_mode 4 4 2 1"
    by (simp_all add: gauge_mode_def)
  show ?thesis
    using h g
      pressure_denominator_gauge_modes [OF h(1,2) h(1,2) h(3) h(3) h(4) h(1),
        of "replicate 4 (replicate 4 1)" "replicate 4 (replicate 4 \<i>)"]
      pressure_denominator_gauge_modes [OF h(1,2) h(1,2) h(3) h(3) h(4) h(5),
        of "replicate 4 (replicate 4 1)" "replicate 4 (replicate 4 \<i>)"]
    by simp
qed

section \<open>Force spreading: results\<close>

lemma cos_add_int_pi:
  "cos (a + of_int k * pi) = (if even k then cos a else - cos a)"
  by (simp add: cos_add mult.commute)

lemma Delta1D_wrapped_first:
  "Delta1D (6442450942 / 9) (1 / 6) = 3 / 4"
proof -
  have "pi * (6442450942 / 9) / (2 * (1 / 6)) = pi / 3 + of_int 2147483647 * pi"
    by simp
  then have "cos (pi * (6442450942 / 9) / (2 * (1 / 6))) = - (1 / 2)"
    by (simp only: cos_add_int_pi cos_60) simp
  then show ?thesis
    unfolding Delta1D_def by simp
qed

lemma Delta1D_wrapped_second:
  "Delta1D (17 / 18) (1 / 6) = 3 / 2 * (1 - sqrt 3 / 2)"
proof -
  have "pi * (17 / 18) / (2 * (1 / 6)) = - (pi / 6) + of_int 3 * pi"
    by simp
  then have "cos (pi * (17 / 18) / (2 * (1 / 6))) = - (sqrt 3 / 2)"
    by (simp only: cos_add_int_pi cos_minus cos_30) simp
  then show ?thesis
    unfolding Delta1D_def by simp
qed

lemma Delta1D_wrapped_third:
  "Delta1D (10 / 9) (1 / 6) = 3 / 4"
proof -
  have "pi * (10 / 9) / (2 * (1 / 6)) = pi / 3 + of_int 3 * pi"
    by simp
  then have "cos (pi * (10 / 9) / (2 * (1 / 6))) = - (1 / 2)"
    by (simp only: cos_add_int_pi cos_60) simp
  then show ?thesis
    unfolding Delta1D_def by simp
qed

lemma Delta1D_wrapped_fourth:
  "Delta1D (23 / 18) (1 / 6) = 3 / 2 * (1 + sqrt 3 / 2)"
proof -
  have "pi * (23 / 18) / (2 * (1 / 6)) = - (pi / 6) + of_int 4 * pi"
    by simp
  then have "cos (pi * (23 / 18) / (2 * (1 / 6))) = sqrt 3 / 2"
    by (simp only: cos_add_int_pi cos_minus cos_30) simp
  then show ?thesis
    unfolding Delta1D_def by simp
qed

lemma Delta1D_interior:
  "Delta1D (1 / 6) (1 / 6) = 3 / 2" "Delta1D 0 (1 / 6) = 3" "Delta1D (1 / 3) (1 / 6) = 0"
  by (simp_all add: Delta1D_def)

lemma spread_stencil_wrapped:
  "spread_stencil 6 6 (1 / 18, 1 / 6) =
    [((0, 5), Delta1D (6442450942 / 9) (1 / 6) * Delta1D (1 / 6) (1 / 6)),
     ((1, 5), Delta1D (6442450942 / 9) (1 / 6) * Delta1D 0 (1 / 6)),
     ((2, 5), Delta1D (6442450942 / 9) (1 / 6) * Delta1D (1 / 6) (1 / 6)),
     ((3, 5), Delta1D (6442450942 / 9) (1 / 6) * Delta1D (1 / 3) (1 / 6)),
     ((0, 0), Delta1D (17 / 18) (1 / 6) * Delta1D (1 / 6) (1 / 6)),
     ((1, 0), Delta1D (17 / 18) (1 / 6) * Delta1D 0 (1 / 6)),
     ((2, 0), Delta1D (17 / 18) (1 / 6) * Delta1D (1 / 6) (1 / 6)),
     ((3, 0), Delta1D (17 / 18) (1 / 6) * Delta1D (1 / 3) (1 / 6)),
     ((0, 1), Delta1D (10 / 9) (1 / 6) * Delta1D (1 / 6) (1 / 6)),
     ((1, 1), Delta1D (10 / 9) (1 / 6) * Delta1D 0 (1 / 6)),
     ((2, 1), Delta1D (10 / 9) (1 / 6) * Delta1D (1 / 6) (1 / 6)),
     ((3, 1), Delta1D (10 / 9) (1 / 6) * Delta1D (1 / 3) (1 / 6)),
     ((0, 2), Delta1D (23 / 18) (1 / 6) * Delta1D (1 / 6) (1 / 6)),
     ((1, 2), Delta1D (23 / 18) (1 / 6) * Delta1D 0 (1 / 6)),
     ((2, 2), Delta1D (23 / 18) (1 / 6) * Delta1D (1 / 6) (1 / 6)),
     ((3, 2), Delta1D (23 / 18) (1 / 6) * Delta1D (1 / 3) (1 / 6))]"
  by (simp add: spread_stencil_def spread_outer_def spread_inner_def Let_def
      unsigned_minus_1_eq_mask mask_eq_exp_minus_1)

text \<open>
  What one node deposits: the total of a force grid grows by the force times \<^verbatim>\<open>dl\<close> times
  the sum of the stencil's weights, since every cell of the stencil lies on the grid.
\<close>

lemma sum_list_update_real:
  fixes xs :: "real list"
  shows "k < length xs \<Longrightarrow> sum_list (xs[k := v]) = sum_list xs + v - xs ! k"
proof (induction xs arbitrary: k)
  case Nil
  then show ?case by simp
next
  case (Cons a xs)
  then show ?case by (cases k) simp_all
qed

lemma grid_total_add_cell:
  assumes "y < length g" "x < length (g ! y)"
  shows "grid_total (add_cell g y x v) = grid_total g + v"
proof -
  have "map sum_list (g[y := (g ! y)[x := g ! y ! x + v]])
      = (map sum_list g)[y := sum_list ((g ! y)[x := g ! y ! x + v])]"
    by (simp add: map_update)
  moreover have "sum_list ((g ! y)[x := g ! y ! x + v]) = sum_list (g ! y) + v"
    using sum_list_update_real [of x "g ! y" "g ! y ! x + v"] assms(2) by simp
  moreover have "map sum_list g ! y = sum_list (g ! y)"
    using assms(1) by simp
  ultimately show ?thesis
    using sum_list_update_real [of y "map sum_list g" "sum_list (g ! y) + v"] assms(1)
    by (simp add: grid_total_def add_cell_def set_cell_def)
qed

lemma add_cell_length:
  "length (add_cell g r c v) = length g"
  "length (add_cell g r c v ! y) = length (g ! y)"
  by (simp_all add: add_cell_def set_cell_length)

lemma grid_total_fold_add_cell:
  assumes "\<forall>c \<in> set cells. fst (fst c) < length g \<and> snd (fst c) < length (g ! fst (fst c))"
  shows "grid_total (fold (\<lambda>((y, x), w) g. add_cell g y x (force * w * dl)) cells g)
       = grid_total g + force * dl * sum_list (map snd cells)"
  using assms
proof (induction cells arbitrary: g)
  case Nil
  then show ?case by simp
next
  case (Cons c cells)
  obtain y x w where c: "c = ((y, x), w)" by (metis prod.exhaust)
  have r: "y < length g" "x < length (g ! y)" using Cons.prems c by simp_all
  have "\<forall>c \<in> set cells. fst (fst c) < length (add_cell g y x (force * w * dl))
      \<and> snd (fst c) < length (add_cell g y x (force * w * dl) ! fst (fst c))"
    using Cons.prems by (simp add: add_cell_length)
  from Cons.IH [OF this] show ?case
    using r by (simp add: c grid_total_add_cell algebra_simps)
qed

lemma grid_total_SetupGrid:
  "grid_total (SetupGrid Ny Nx) = 0"
  by (simp add: grid_total_def SetupGrid_def sum_list_replicate)

lemma spread_node_wrapped_total:
  "grid_total (spread_node 6 6 dl (1 / 18, 1 / 6) force (SetupGrid 6 6)) = 27 * force * dl"
proof -
  have "\<forall>c \<in> set (spread_stencil 6 6 (1 / 18, 1 / 6)).
      fst (fst c) < length (SetupGrid 6 6) \<and> snd (fst c) < length (SetupGrid 6 6 ! fst (fst c))"
    unfolding spread_stencil_wrapped by (simp add: SetupGrid_def)
  then have "grid_total (spread_node 6 6 dl (1 / 18, 1 / 6) force (SetupGrid 6 6))
      = force * dl * sum_list (map snd (spread_stencil 6 6 (1 / 18, 1 / 6)))"
    unfolding spread_node_def by (simp add: grid_total_fold_add_cell grid_total_SetupGrid)
  also have "sum_list (map snd (spread_stencil 6 6 (1 / 18, 1 / 6))) = 27"
    unfolding spread_stencil_wrapped
    by (simp add: Delta1D_wrapped_first Delta1D_wrapped_second Delta1D_wrapped_third
        Delta1D_wrapped_fourth Delta1D_interior field_simps)
  finally show ?thesis by simp
qed

text \<open>
  C1. The claim is that the weights of the 4x4 stencil, scaled by \<open>Dx * Dy\<close>, sum to 1
  for every node of \<open>[0,1)\<^sup>2\<close>, also where the stencil wraps. On a 6 x 6 grid, for the
  node at \<open>(1/18, 1/6)\<close>, whose \<open>x\<close> is below one grid spacing, the code's weights sum to
  \<open>3/4\<close>: after the first column \<^verbatim>\<open>first_idx_x\<close> has been replaced by \<open>Nx - 1\<close>, and the
  distances of the three remaining columns are measured from the far side of the
  domain (\<open>17/18\<close>, \<open>10/9\<close>, \<open>23/18\<close> instead of \<open>1/18\<close>, \<open>2/18\<close>, \<open>5/18\<close>).
\<close>

theorem stencil_weight_sum_wrapped:
  "stencil_weight_sum 6 6 (1 / 18, 1 / 6) = 3 / 4"
  unfolding stencil_weight_sum_def spread_stencil_wrapped
  by (simp add: Delta1D_wrapped_first Delta1D_wrapped_second Delta1D_wrapped_third
      Delta1D_wrapped_fourth Delta1D_interior field_simps)

subsection \<open>Grid sizes that are multiples of four\<close>

text \<open>
  \<^verbatim>\<open>Delta1D\<close> has no cut-off: it depends on the distance only through a cosine of period
  four grid spacings. When the grid size is a multiple of four, a distance measured
  from the wrapped index differs from the intended one by whole periods, and the
  weights of the stencil sum to 1.
\<close>

lemma cos_quarter_sum:
  "cos a + cos (a + pi / 2) + cos (a + pi) + cos (a + pi / 2 + pi) = 0"
  by (simp only: cos_periodic_pi)

lemma cos_mod4:
  fixes m n :: int
  assumes "m mod 4 = n mod 4"
  shows "cos (pi / 2 * (of_int m - t)) = cos (pi / 2 * (of_int n - t))"
proof -
  from assms obtain k where k: "m = n + 4 * k"
    by (metis mod_eq_dvd_iff dvd_def diff_eq_eq add.commute)
  have "pi / 2 * (of_int m - t) = pi / 2 * (of_int n - t) + of_int (2 * k) * pi"
    unfolding k of_int_add of_int_mult by (simp add: field_simps)
  then show ?thesis
    by (simp only: cos_add_int_pi) simp
qed

lemma Delta1D_index:
  assumes "0 < N"
  shows "Delta1D \<bar>real n * (1 / real N) - y\<bar> (1 / real N)
       = real N * (1 + cos (pi / 2 * (of_int (int n) - y * real N))) / 4"
proof -
  define z where "z = real n - y * real N"
  have "real n * (1 / real N) - y = z / real N"
    using assms by (simp add: z_def field_simps)
  then have "\<bar>real n * (1 / real N) - y\<bar> = \<bar>z\<bar> / real N"
    using assms by simp
  then have "pi * \<bar>real n * (1 / real N) - y\<bar> / (2 * (1 / real N)) = pi / 2 * \<bar>z\<bar>"
    using assms by simp
  also have "\<dots> = \<bar>pi / 2 * z\<bar>"
    by (simp add: abs_mult)
  finally have "cos (pi * \<bar>real n * (1 / real N) - y\<bar> / (2 * (1 / real N)))
      = cos (pi / 2 * z)"
    by (simp only: cos_abs_real)
  then show ?thesis
    unfolding Delta1D_def using assms by (simp add: z_def)
qed

text \<open>The indices the loops use, for a coordinate \<open>y\<close> of \<open>[0,1)\<close> on a grid of \<open>N\<close>
  points: the first one before the wrap-around test, the others after it.\<close>

lemma first_index_cases:
  fixes y :: real
  assumes "0 \<le> y" "y < 1" "0 < N"
  shows "0 \<le> \<lfloor>y / (1 / real N)\<rfloor>" "\<lfloor>y / (1 / real N)\<rfloor> < int N"
proof -
  have "0 \<le> y * real N" using assms by simp
  then show "0 \<le> \<lfloor>y / (1 / real N)\<rfloor>" by simp
  have "y * real N < real N" using assms by simp
  then show "\<lfloor>y / (1 / real N)\<rfloor> < int N"
    by (simp add: floor_less_iff)
qed

lemma unat_of_nat32:
  "n < 2 ^ 32 \<Longrightarrow> unat (of_nat n :: 32 word) = n"
  by (simp add: unat_of_nat)

lemma unat_minus_one32:
  "unat (- 1 :: 32 word) = 4294967295"
  by (simp add: unsigned_minus_1_eq_mask mask_eq_exp_minus_1)

lemma wrapped_index_first:
  fixes f :: int
  assumes "0 \<le> f" "f < int N" "N mod 4 = 0" "N + 2 < 2 ^ 32"
  shows "wrapped_index N (wrapped_index N (word_of_int f - 1)) = wrapped_index N (word_of_int f - 1)"
    and "int (unat (word_of_int f - 1 + (0 :: 32 word))) mod 4 = (f - 1) mod 4"
    and "k \<le> 3 \<Longrightarrow>
           int (unat (wrapped_index N (word_of_int f - 1) + (of_nat k :: 32 word))) mod 4
             = (f - 1 + int k) mod 4"
proof -
  let ?w0 = "word_of_int f - 1 :: 32 word"
  have N4: "int N mod 4 = 0" using assms(3) by presburger
  have main: "wrapped_index N (wrapped_index N ?w0) = wrapped_index N ?w0
      \<and> int (unat (?w0 + 0)) mod 4 = (f - 1) mod 4
      \<and> (k \<le> 3 \<longrightarrow> int (unat (wrapped_index N ?w0 + of_nat k)) mod 4 = (f - 1 + int k) mod 4)"
  proof (cases "f = 0")
    case True
    have w1: "wrapped_index N ?w0 = of_nat (N - 1)"
      using assms(2) True by (simp add: wrapped_index_def of_nat_diff)
    have u: "unat (of_nat (N - 1) :: 32 word) = N - 1"
      using assms(4) by (intro unat_of_nat32) simp
    have ne: "(of_nat (N - 1) :: 32 word) \<noteq> - 1"
    proof
      assume "(of_nat (N - 1) :: 32 word) = - 1"
      then have "unat (of_nat (N - 1) :: 32 word) = unat (- 1 :: 32 word)" by (rule arg_cong)
      then have "N - 1 = 4294967295" unfolding u unat_minus_one32 .
      then show False using assms(4) by simp
    qed
    have a: "wrapped_index N (wrapped_index N ?w0) = wrapped_index N ?w0"
      unfolding w1 using ne by (simp add: wrapped_index_def)
    have b: "int (unat (?w0 + 0)) mod 4 = (f - 1) mod 4"
      using True by (simp add: unsigned_minus_1_eq_mask mask_eq_exp_minus_1)
    have c: "int (unat (wrapped_index N ?w0 + of_nat k)) mod 4 = (f - 1 + int k) mod 4"
      if k: "k \<le> 3"
    proof -
      have "(of_nat (N - 1) + of_nat k :: 32 word) = of_nat (N - 1 + k)" by simp
      moreover have "unat (of_nat (N - 1 + k) :: 32 word) = N - 1 + k"
        using assms(4) k by (intro unat_of_nat32) simp
      ultimately have "unat (of_nat (N - 1) + of_nat k :: 32 word) = N - 1 + k"
        by (simp only:)
      then have "int (unat (of_nat (N - 1) + of_nat k :: 32 word)) = int N - 1 + int k"
        using assms(2) True by simp
      then show ?thesis
        unfolding w1 using N4 True by (simp add: mod_simps) presburger
    qed
    show ?thesis using a b c by simp
  next
    case False
    then have f1: "1 \<le> f" using assms(1) by simp
    have w0: "?w0 = of_nat (nat (f - 1))"
      using f1 by (simp add: of_nat_diff nat_diff_distrib)
    have u: "unat (of_nat (nat (f - 1)) :: 32 word) = nat (f - 1)"
      using assms(2,4) f1 by (intro unat_of_nat32) simp
    have ne: "(of_nat (nat (f - 1)) :: 32 word) \<noteq> - 1"
    proof
      assume "(of_nat (nat (f - 1)) :: 32 word) = - 1"
      then have "unat (of_nat (nat (f - 1)) :: 32 word) = unat (- 1 :: 32 word)"
        by (rule arg_cong)
      then have "nat (f - 1) = 4294967295" unfolding u unat_minus_one32 .
      then show False using assms(2,4) f1 by simp
    qed
    have w1: "wrapped_index N ?w0 = of_nat (nat (f - 1))"
      unfolding w0 using ne by (simp add: wrapped_index_def)
    have a: "wrapped_index N (wrapped_index N ?w0) = wrapped_index N ?w0"
      unfolding w1 using ne by (simp add: wrapped_index_def)
    from u have b: "int (unat (?w0 + 0)) mod 4 = (f - 1) mod 4"
      unfolding w0 using f1 by simp
    have c: "int (unat (wrapped_index N ?w0 + of_nat k)) mod 4 = (f - 1 + int k) mod 4"
      if k: "k \<le> 3"
    proof -
      have "(of_nat (nat (f - 1)) + of_nat k :: 32 word) = of_nat (nat (f - 1) + k)" by simp
      moreover have "unat (of_nat (nat (f - 1) + k) :: 32 word) = nat (f - 1) + k"
        using assms(2,4) f1 k by (intro unat_of_nat32) simp
      ultimately have "unat (of_nat (nat (f - 1)) + of_nat k :: 32 word) = nat (f - 1) + k"
        by (simp only:)
      then show ?thesis unfolding w1 using f1 by simp
    qed
    show ?thesis using a b c by simp
  qed
  show "wrapped_index N (wrapped_index N (word_of_int f - 1)) = wrapped_index N (word_of_int f - 1)"
    and "int (unat (word_of_int f - 1 + (0 :: 32 word))) mod 4 = (f - 1) mod 4"
    and "k \<le> 3 \<Longrightarrow>
           int (unat (wrapped_index N (word_of_int f - 1) + (of_nat k :: 32 word))) mod 4
             = (f - 1 + int k) mod 4"
    using main by simp_all
qed

lemma Delta1D_aligned:
  fixes m :: int
  assumes "0 < N" "int n mod 4 = m mod 4"
  shows "Delta1D \<bar>real n * (1 / real N) - y\<bar> (1 / real N)
       = real N * (1 + cos (pi / 2 * (of_int m - y * real N))) / 4"
  unfolding Delta1D_index [OF assms(1)] cos_mod4 [OF assms(2)] ..

lemma Delta1D_column_sum:
  fixes y :: real
  assumes "0 \<le> y" "y < 1" "0 < N" "N mod 4 = 0" "N + 2 < 2 ^ 32"
  defines "w0 \<equiv> word_of_int \<lfloor>y / (1 / real N)\<rfloor> - 1 :: 32 word"
  defines "w1 \<equiv> wrapped_index N w0"
  defines "D \<equiv> \<lambda>(w :: 32 word) (j :: 32 word).
    Delta1D \<bar>real (unat (w + j)) * (1 / real N) - y\<bar> (1 / real N)"
  shows "D w0 0 + D w1 1 + D w1 2 + D w1 3 = real N"
    and "D w1 0 + D w1 1 + D w1 2 + D w1 3 = real N"
    and "wrapped_index N w1 = w1"
proof -
  define f where "f = \<lfloor>y / (1 / real N)\<rfloor>"
  define a where "a = pi / 2 * (of_int (f - 1) - y * real N)"
  have f: "0 \<le> f" "f < int N"
    unfolding f_def using first_index_cases [OF assms(1,2,3)] by simp_all
  note ix = wrapped_index_first [OF f assms(4,5)]
  have i0: "int (unat (w0 + 0)) mod 4 = (f - 1) mod 4"
    unfolding w0_def f_def [symmetric] by (rule ix(2))
  have j0: "int (unat (w1 + 0)) mod 4 = (f - 1) mod 4"
    using ix(3) [of 0] unfolding w1_def w0_def f_def [symmetric] by simp
  have j1: "int (unat (w1 + 1)) mod 4 = (f - 1 + 1) mod 4"
    using ix(3) [of 1] unfolding w1_def w0_def f_def [symmetric] by simp
  have j2: "int (unat (w1 + 2)) mod 4 = (f - 1 + 2) mod 4"
    using ix(3) [of 2] unfolding w1_def w0_def f_def [symmetric] by simp
  have j3: "int (unat (w1 + 3)) mod 4 = (f - 1 + 3) mod 4"
    using ix(3) [of 3] unfolding w1_def w0_def f_def [symmetric] by simp
  have c0: "pi / 2 * (of_int (f - 1) - y * real N) = a"
    by (simp add: a_def)
  have c1: "pi / 2 * (of_int (f - 1 + 1) - y * real N) = a + pi / 2"
    by (simp add: a_def algebra_simps)
  have c2: "pi / 2 * (of_int (f - 1 + 2) - y * real N) = a + pi"
    by (simp add: a_def algebra_simps)
  have c3: "pi / 2 * (of_int (f - 1 + 3) - y * real N) = a + pi / 2 + pi"
    by (simp add: a_def algebra_simps)
  have d0: "D w0 0 = real N * (1 + cos a) / 4"
    unfolding D_def Delta1D_aligned [OF assms(3) i0] c0 ..
  have e0: "D w1 0 = real N * (1 + cos a) / 4"
    unfolding D_def Delta1D_aligned [OF assms(3) j0] c0 ..
  have e1: "D w1 1 = real N * (1 + cos (a + pi / 2)) / 4"
    unfolding D_def Delta1D_aligned [OF assms(3) j1] c1 ..
  have e2: "D w1 2 = real N * (1 + cos (a + pi)) / 4"
    unfolding D_def Delta1D_aligned [OF assms(3) j2] c2 ..
  have e3: "D w1 3 = real N * (1 + cos (a + pi / 2 + pi)) / 4"
    unfolding D_def Delta1D_aligned [OF assms(3) j3] c3 ..
  have s: "real N * (1 + p) / 4 + real N * (1 + q) / 4 + real N * (1 + r) / 4
      + real N * (1 + t) / 4 = real N * (4 + (p + q + r + t)) / 4" for p q r t :: real
    by (simp add: field_simps)
  show "D w0 0 + D w1 1 + D w1 2 + D w1 3 = real N"
    unfolding d0 e1 e2 e3 s cos_quarter_sum by simp
  show "D w1 0 + D w1 1 + D w1 2 + D w1 3 = real N"
    unfolding e0 e1 e2 e3 s cos_quarter_sum by simp
  show "wrapped_index N w1 = w1"
    unfolding w1_def w0_def f_def [symmetric] by (rule ix(1))
qed

text \<open>The two loops, as far as the weights are concerned.\<close>

lemma spread_inner_step:
  "first_idx_x (spread_inner Nx Ny loc dx xi yi s) = first_idx_x s"
  "first_idx_y (spread_inner Nx Ny loc dx xi yi s) = wrapped_index Ny (first_idx_y s)"
  "sum_list (map snd (stencil (spread_inner Nx Ny loc dx xi yi s)))
     = sum_list (map snd (stencil s))
       + Delta1D dx (1 / real Nx)
         * Delta1D \<bar>real (unat (first_idx_y s + yi)) * (1 / real Ny) - snd loc\<bar> (1 / real Ny)"
  by (simp_all add: spread_inner_def Let_def wrapped_index_def)

lemma spread_inner_fold:
  assumes "wrapped_index Ny (wrapped_index Ny (first_idx_y s)) = wrapped_index Ny (first_idx_y s)"
  shows "first_idx_x (fold (spread_inner Nx Ny loc dx xi) [0, 1, 2, 3] s) = first_idx_x s"
    and "first_idx_y (fold (spread_inner Nx Ny loc dx xi) [0, 1, 2, 3] s)
           = wrapped_index Ny (first_idx_y s)"
    and "sum_list (map snd (stencil (fold (spread_inner Nx Ny loc dx xi) [0, 1, 2, 3] s)))
           = sum_list (map snd (stencil s))
             + Delta1D dx (1 / real Nx)
               * (Delta1D \<bar>real (unat (first_idx_y s + 0)) * (1 / real Ny) - snd loc\<bar> (1 / real Ny)
                + Delta1D \<bar>real (unat (wrapped_index Ny (first_idx_y s) + 1)) * (1 / real Ny) - snd loc\<bar> (1 / real Ny)
                + Delta1D \<bar>real (unat (wrapped_index Ny (first_idx_y s) + 2)) * (1 / real Ny) - snd loc\<bar> (1 / real Ny)
                + Delta1D \<bar>real (unat (wrapped_index Ny (first_idx_y s) + 3)) * (1 / real Ny) - snd loc\<bar> (1 / real Ny))"
  by (simp_all only: fold_simps spread_inner_step assms distrib_left add.assoc)

lemma spread_outer_step:
  assumes "wrapped_index Ny (wrapped_index Ny (first_idx_y s)) = wrapped_index Ny (first_idx_y s)"
  shows "first_idx_x (spread_outer Nx Ny loc xi s) = wrapped_index Nx (first_idx_x s)"
    and "first_idx_y (spread_outer Nx Ny loc xi s) = wrapped_index Ny (first_idx_y s)"
    and "sum_list (map snd (stencil (spread_outer Nx Ny loc xi s)))
           = sum_list (map snd (stencil s))
             + Delta1D \<bar>real (unat (first_idx_x s + xi)) * (1 / real Nx) - fst loc\<bar> (1 / real Nx)
               * (Delta1D \<bar>real (unat (first_idx_y s + 0)) * (1 / real Ny) - snd loc\<bar> (1 / real Ny)
                + Delta1D \<bar>real (unat (wrapped_index Ny (first_idx_y s) + 1)) * (1 / real Ny) - snd loc\<bar> (1 / real Ny)
                + Delta1D \<bar>real (unat (wrapped_index Ny (first_idx_y s) + 2)) * (1 / real Ny) - snd loc\<bar> (1 / real Ny)
                + Delta1D \<bar>real (unat (wrapped_index Ny (first_idx_y s) + 3)) * (1 / real Ny) - snd loc\<bar> (1 / real Ny))"
proof -
  let ?s = "s\<lparr> first_idx_x := wrapped_index Nx (first_idx_x s) \<rparr>"
  have o: "spread_outer Nx Ny loc xi s
      = fold (spread_inner Nx Ny loc
          \<bar>real (unat (first_idx_x s + xi)) * (1 / real Nx) - fst loc\<bar> xi) [0, 1, 2, 3] ?s"
    by (simp add: spread_outer_def Let_def wrapped_index_def)
  have a: "wrapped_index Ny (wrapped_index Ny (first_idx_y ?s)) = wrapped_index Ny (first_idx_y ?s)"
    using assms by simp
  show "first_idx_x (spread_outer Nx Ny loc xi s) = wrapped_index Nx (first_idx_x s)"
    unfolding o spread_inner_fold(1) [OF a] by simp
  show "first_idx_y (spread_outer Nx Ny loc xi s) = wrapped_index Ny (first_idx_y s)"
    unfolding o spread_inner_fold(2) [OF a] by simp
  show "sum_list (map snd (stencil (spread_outer Nx Ny loc xi s)))
           = sum_list (map snd (stencil s))
             + Delta1D \<bar>real (unat (first_idx_x s + xi)) * (1 / real Nx) - fst loc\<bar> (1 / real Nx)
               * (Delta1D \<bar>real (unat (first_idx_y s + 0)) * (1 / real Ny) - snd loc\<bar> (1 / real Ny)
                + Delta1D \<bar>real (unat (wrapped_index Ny (first_idx_y s) + 1)) * (1 / real Ny) - snd loc\<bar> (1 / real Ny)
                + Delta1D \<bar>real (unat (wrapped_index Ny (first_idx_y s) + 2)) * (1 / real Ny) - snd loc\<bar> (1 / real Ny)
                + Delta1D \<bar>real (unat (wrapped_index Ny (first_idx_y s) + 3)) * (1 / real Ny) - snd loc\<bar> (1 / real Ny))"
    unfolding o spread_inner_fold(3) [OF a] by simp
qed

lemma stencil_weight_sum_multiple_of_four:
  assumes "in_unit_square loc"
    and "0 < Nx" "Nx mod 4 = 0" "Nx < 2 ^ 31"
    and "0 < Ny" "Ny mod 4 = 0" "Ny < 2 ^ 31"
  shows "stencil_weight_sum Nx Ny loc = 1"
proof -
  define x0 :: "32 word" where "x0 = word_of_int \<lfloor>fst loc / (1 / real Nx)\<rfloor> - 1"
  define y0 :: "32 word" where "y0 = word_of_int \<lfloor>snd loc / (1 / real Ny)\<rfloor> - 1"
  define x1 where "x1 = wrapped_index Nx x0"
  define y1 where "y1 = wrapped_index Ny y0"
  define DX where "DX = (\<lambda>(w :: 32 word) (j :: 32 word).
    Delta1D \<bar>real (unat (w + j)) * (1 / real Nx) - fst loc\<bar> (1 / real Nx))"
  define DY where "DY = (\<lambda>(w :: 32 word) (j :: 32 word).
    Delta1D \<bar>real (unat (w + j)) * (1 / real Ny) - snd loc\<bar> (1 / real Ny))"
  define s0 where "s0 = \<lparr> first_idx_x = x0, first_idx_y = y0, stencil = [] \<rparr>"
  define s1 where "s1 = spread_outer Nx Ny loc 0 s0"
  define s2 where "s2 = spread_outer Nx Ny loc 1 s1"
  define s3 where "s3 = spread_outer Nx Ny loc 2 s2"
  define s4 where "s4 = spread_outer Nx Ny loc 3 s3"
  have loc: "0 \<le> fst loc" "fst loc < 1" "0 \<le> snd loc" "snd loc < 1"
    using assms(1) by (simp_all add: in_unit_square_def)
  have bnx: "Nx + 2 < 2 ^ 32" using assms(4) by simp
  have bny: "Ny + 2 < 2 ^ 32" using assms(7) by simp
  have X: "DX x0 0 + DX x1 1 + DX x1 2 + DX x1 3 = real Nx"
    and X1: "wrapped_index Nx x1 = x1"
    unfolding DX_def x1_def x0_def
    using Delta1D_column_sum(1,3) [OF loc(1,2) assms(2,3) bnx] by simp_all
  have Y: "DY y0 0 + DY y1 1 + DY y1 2 + DY y1 3 = real Ny"
    and Y': "DY y1 0 + DY y1 1 + DY y1 2 + DY y1 3 = real Ny"
    and Y1: "wrapped_index Ny y1 = y1"
    unfolding DY_def y1_def y0_def
    using Delta1D_column_sum [OF loc(3,4) assms(5,6) bny] by simp_all
  have i0: "wrapped_index Ny (wrapped_index Ny (first_idx_y s0)) = wrapped_index Ny (first_idx_y s0)"
    using Y1 by (simp add: s0_def y1_def)
  have f1: "first_idx_x s1 = x1" "first_idx_y s1 = y1"
    and t1: "sum_list (map snd (stencil s1)) = DX x0 0 * real Ny"
    unfolding s1_def spread_outer_step [OF i0]
    using Y by (simp_all add: s0_def x1_def y1_def DX_def DY_def)
  have i1: "wrapped_index Ny (wrapped_index Ny (first_idx_y s1)) = wrapped_index Ny (first_idx_y s1)"
    using Y1 by (simp add: f1)
  have f2: "first_idx_x s2 = x1" "first_idx_y s2 = y1"
    and t2: "sum_list (map snd (stencil s2)) = DX x0 0 * real Ny + DX x1 1 * real Ny"
    unfolding s2_def spread_outer_step [OF i1]
    using Y' by (simp_all add: f1 t1 X1 Y1 DX_def DY_def)
  have i2: "wrapped_index Ny (wrapped_index Ny (first_idx_y s2)) = wrapped_index Ny (first_idx_y s2)"
    using Y1 by (simp add: f2)
  have f3: "first_idx_x s3 = x1" "first_idx_y s3 = y1"
    and t3: "sum_list (map snd (stencil s3))
      = DX x0 0 * real Ny + DX x1 1 * real Ny + DX x1 2 * real Ny"
    unfolding s3_def spread_outer_step [OF i2]
    using Y' by (simp_all add: f2 t2 X1 Y1 DX_def DY_def)
  have i3: "wrapped_index Ny (wrapped_index Ny (first_idx_y s3)) = wrapped_index Ny (first_idx_y s3)"
    using Y1 by (simp add: f3)
  have t4: "sum_list (map snd (stencil s4))
      = DX x0 0 * real Ny + DX x1 1 * real Ny + DX x1 2 * real Ny + DX x1 3 * real Ny"
    unfolding s4_def spread_outer_step [OF i3]
    using Y' by (simp_all add: f3 t3 X1 Y1 DX_def DY_def)
  have "spread_stencil Nx Ny loc = stencil s4"
    by (simp add: spread_stencil_def s4_def s3_def s2_def s1_def s0_def x0_def y0_def)
  then have "sum_list (map snd (spread_stencil Nx Ny loc))
      = (DX x0 0 + DX x1 1 + DX x1 2 + DX x1 3) * real Ny"
    by (simp only: t4 distrib_right)
  then show ?thesis
    unfolding stencil_weight_sum_def X using assms(2,5) by simp
qed

text \<open>Every cell of the stencil lies on the grid, whatever the indices are.\<close>

lemma spread_inner_in_range:
  assumes "0 < Nx" "0 < Ny"
    and "\<forall>c \<in> set (stencil s). fst (fst c) < Ny \<and> snd (fst c) < Nx"
  shows "\<forall>c \<in> set (stencil (spread_inner Nx Ny loc dx xi yi s)).
           fst (fst c) < Ny \<and> snd (fst c) < Nx"
  using assms by (simp add: spread_inner_def Let_def)

lemma spread_outer_in_range:
  assumes "0 < Nx" "0 < Ny"
    and "\<forall>c \<in> set (stencil s). fst (fst c) < Ny \<and> snd (fst c) < Nx"
  shows "\<forall>c \<in> set (stencil (spread_outer Nx Ny loc xi s)).
           fst (fst c) < Ny \<and> snd (fst c) < Nx"
proof -
  let ?s = "s\<lparr> first_idx_x := wrapped_index Nx (first_idx_x s) \<rparr>"
  let ?dx = "\<bar>real (unat (first_idx_x s + xi)) * (1 / real Nx) - fst loc\<bar>"
  have o: "spread_outer Nx Ny loc xi s = fold (spread_inner Nx Ny loc ?dx xi) [0, 1, 2, 3] ?s"
    by (simp add: spread_outer_def Let_def wrapped_index_def)
  have "\<forall>c \<in> set (stencil ?s). fst (fst c) < Ny \<and> snd (fst c) < Nx"
    using assms(3) by simp
  note r0 = spread_inner_in_range [OF assms(1,2) this, of loc ?dx xi 0]
  note r1 = spread_inner_in_range [OF assms(1,2) r0, of loc ?dx xi 1]
  note r2 = spread_inner_in_range [OF assms(1,2) r1, of loc ?dx xi 2]
  note r3 = spread_inner_in_range [OF assms(1,2) r2, of loc ?dx xi 3]
  show ?thesis
    unfolding o fold_simps by (rule r3)
qed

lemma spread_stencil_in_range:
  assumes "0 < Nx" "0 < Ny"
  shows "\<forall>c \<in> set (spread_stencil Nx Ny loc). fst (fst c) < Ny \<and> snd (fst c) < Nx"
proof -
  let ?s = "\<lparr> first_idx_x = word_of_int \<lfloor>fst loc / (1 / real Nx)\<rfloor> - 1,
             first_idx_y = word_of_int \<lfloor>snd loc / (1 / real Ny)\<rfloor> - 1,
             stencil = [] \<rparr>"
  have "\<forall>c \<in> set (stencil ?s). fst (fst c) < Ny \<and> snd (fst c) < Nx"
    by simp
  note r0 = spread_outer_in_range [OF assms this, of loc 0]
  note r1 = spread_outer_in_range [OF assms r0, of loc 1]
  note r2 = spread_outer_in_range [OF assms r1, of loc 2]
  note r3 = spread_outer_in_range [OF assms r2, of loc 3]
  show ?thesis
    unfolding spread_stencil_def fold_simps by (rule r3)
qed

text \<open>
  The deposit of one node on a grid of \<open>Ny\<close> rows of \<open>Nx\<close> cells whose sizes are
  multiples of four: the total of the force grid grows by \<open>force * dl * Nx * Ny\<close>, that
  is by \<open>force * dl\<close> once every cell is weighted by its area \<open>Dx * Dy\<close>.
\<close>

lemma spread_node_total_multiple_of_four:
  assumes "in_unit_square loc"
    and "0 < Nx" "Nx mod 4 = 0" "Nx < 2 ^ 31"
    and "0 < Ny" "Ny mod 4 = 0" "Ny < 2 ^ 31"
    and "length g = Ny" "\<forall>y < Ny. length (g ! y) = Nx"
  shows "grid_total (spread_node Nx Ny dl loc force g)
       = grid_total g + force * dl * (real Nx * real Ny)"
proof -
  have "\<forall>c \<in> set (spread_stencil Nx Ny loc).
      fst (fst c) < length g \<and> snd (fst c) < length (g ! fst (fst c))"
    using spread_stencil_in_range [OF assms(2,5), of loc] assms(8,9) by simp
  then have "grid_total (spread_node Nx Ny dl loc force g)
      = grid_total g + force * dl * sum_list (map snd (spread_stencil Nx Ny loc))"
    unfolding spread_node_def by (rule grid_total_fold_add_cell)
  moreover have "sum_list (map snd (spread_stencil Nx Ny loc)) = real Nx * real Ny"
    using stencil_weight_sum_multiple_of_four [OF assms(1-7)] assms(2,5)
    by (simp add: stencil_weight_sum_def field_simps)
  ultimately show ?thesis by simp
qed

section \<open>Short axis of an element: results\<close>

lemma norm_2_unit_quadrant:
  assumes "0 \<le> r" "r < 1"
  shows "norm_2 (r, sqrt (1 - r * r)) = 1"
proof -
  have "r * r \<le> 1"
    using assms mult_mono [of r 1 r 1] by simp
  then have "sqrt (1 - r * r) * sqrt (1 - r * r) = 1 - r * r"
    by simp
  then show ?thesis
    by (simp add: norm_2_def)
qed

text \<open>
  C10. Whenever \<^verbatim>\<open>GetShortAxisOfElement\<close> takes its degenerate branch (the discriminant
  of the moments is below \<open>10\<^sup>-\<^sup>1\<^sup>0\<close>), then for every random draw \<open>r\<close> of \<open>[0,1)\<close> the
  vector returned is \<open>(r, sqrt (1 - r\<^sup>2))\<close>: its norm is 1 and both components are
  non-negative, so it lies in the closed first quadrant of the unit circle.
\<close>

theorem GetShortAxisOfElement_degenerate:
  assumes "CalculateMomentsOfElement m index = Inr ms"
    and "principal_moments_equal ms"
    and "0 \<le> r" and "r < 1"
  shows "GetShortAxisOfElement m index r = Inr (r, sqrt (1 - r * r))
       \<and> norm_2 (r, sqrt (1 - r * r)) = 1
       \<and> 0 \<le> r \<and> 0 \<le> sqrt (1 - r * r)"
proof -
  have "r * r \<le> 1"
    using assms(3,4) mult_mono [of r 1 r 1] by simp
  then have "0 \<le> sqrt (1 - r * r)" by simp
  then show ?thesis
    using assms norm_2_unit_quadrant [OF assms(3,4)]
    by (simp add: GetShortAxisOfElement_def short_axis_of_moments_def
        principal_moments_equal_def Let_def)
qed

lemma square_mesh_centroid:
  "GetCentroidOfElement square_mesh 0 = Inr (1 / 2, 1 / 2)"
  by (simp add: GetCentroidOfElement_def square_mesh_def plain_node_def plain_element_def
      UINT_MAX_def GetNodeLocation_def Let_def upt_rec GetVectorFromAtoB_def
      periodic_component_def reduce_coordinate_def fmod_def)

lemma square_mesh_moments:
  "CalculateMomentsOfElement square_mesh 0 = Inr (1 / 7500, 1 / 7500, 0)"
  by (simp add: CalculateMomentsOfElement_def square_mesh_centroid)
     (simp add: square_mesh_def plain_node_def plain_element_def GetNodeLocation_def Let_def
      upt_rec GetVectorFromAtoB_def periodic_component_def)

theorem GetShortAxisOfElement_degenerate_witness:
  "CalculateMomentsOfElement square_mesh 0 = Inr (1 / 7500, 1 / 7500, 0)
   \<and> principal_moments_equal (1 / 7500, 1 / 7500, 0)
   \<and> GetShortAxisOfElement square_mesh 0 (3 / 5) = Inr (3 / 5, sqrt (1 - 3 / 5 * (3 / 5)))
   \<and> norm_2 (3 / 5, sqrt (1 - 3 / 5 * (3 / 5))) = 1"
proof -
  have d: "principal_moments_equal (1 / 7500, 1 / 7500, 0)"
    by (simp add: principal_moments_equal_def moments_discriminant_def)
  have r: "(0::real) \<le> 3 / 5" "(3 / 5 :: real) < 1" by simp_all
  show ?thesis
    using square_mesh_moments d
      GetShortAxisOfElement_degenerate [OF square_mesh_moments d r]
    by blast
qed

section \<open>Membrane elasticity: results\<close>

lemma norm_2_horizontal: "norm_2 (a, 0) = \<bar>a\<bar>"
  by (simp add: norm_2_def)

lemma norm_2_vertical: "norm_2 (0, b) = \<bar>b\<bar>"
  by (simp add: norm_2_def)

lemma elastic_force_first_endpoint:
  "elastic_force_to_next_node m e i = first_endpoint_edge_force m e i"
  by (auto simp: elastic_force_to_next_node_def first_endpoint_edge_force_def Let_def
      hooke_force_def edge_vector_def node_is_apical_or_basal_def vscale_def)

lemma AddAppliedForceContribution_length:
  "length (mNodes (AddAppliedForceContribution m p f)) = length (mNodes m)"
  by (simp add: AddAppliedForceContribution_def)

lemma fold_AddAppliedForce_length:
  "length (mNodes (fold (\<lambda>k m'. AddAppliedForceContribution m' (ps ! k) (g k)) ks m))
     = length (mNodes m)"
  by (induction ks arbitrary: m) (simp_all add: AddAppliedForceContribution_length)

lemma fold_AddAppliedForce_nth:
  assumes "distinct ps" "\<forall>p \<in> set ps. p < length (mNodes m)" "i < length ps"
  shows "j \<le> length ps \<Longrightarrow>
     applied_force (mNodes (fold (\<lambda>k m'. AddAppliedForceContribution m' (ps ! k) (g k))
                               [0..<j] m) ! (ps ! i))
       = (if i < j then vadd (applied_force (mNodes m ! (ps ! i))) (g i)
          else applied_force (mNodes m ! (ps ! i)))"
proof (induction j)
  case 0
  then show ?case by simp
next
  case (Suc j)
  let ?m = "fold (\<lambda>k m'. AddAppliedForceContribution m' (ps ! k) (g k)) [0..<j] m"
  have j: "j < length ps" using Suc.prems by simp
  have IH: "applied_force (mNodes ?m ! (ps ! i))
       = (if i < j then vadd (applied_force (mNodes m ! (ps ! i))) (g i)
          else applied_force (mNodes m ! (ps ! i)))"
    using Suc.IH j by simp
  have len: "length (mNodes ?m) = length (mNodes m)"
    by (rule fold_AddAppliedForce_length)
  have pj: "ps ! j < length (mNodes ?m)" using assms(2) j len by simp
  have step: "fold (\<lambda>k m'. AddAppliedForceContribution m' (ps ! k) (g k)) [0..<Suc j] m
      = AddAppliedForceContribution ?m (ps ! j) (g j)"
    by simp
  show ?case
  proof (cases "i = j")
    case True
    then show ?thesis
      using IH pj unfolding step by (simp add: AddAppliedForceContribution_def)
  next
    case False
    then have "ps ! i \<noteq> ps ! j"
      using assms(1,3) j by (simp add: nth_eq_iff_index_eq)
    then show ?thesis
      using IH False unfolding step
      by (auto simp: AddAppliedForceContribution_def less_Suc_eq)
  qed
qed

text \<open>
  C4, as amended. For every element and every edge \<open>i\<close> from node \<open>i\<close> to node \<open>i+1\<close>,
  the spring force is \<open>F\<^sub>i = k (|d| - l) d / |d|\<close> with \<open>d = vector_from(next, this)\<close>,
  where \<open>k\<close> is ten times the element's spring constant and \<open>l\<close> four times its rest
  length whenever node \<open>i\<close>, the first endpoint of the edge, is apical or basal, and the
  unmodified \<open>k\<close> and \<open>l\<close> otherwise; for an element whose nodes are distinct, the force
  added to node \<open>i\<close> is \<open>F\<^sub>i\<^sub>-\<^sub>1 - F\<^sub>i\<close>.
\<close>

theorem membrane_force_first_endpoint:
  assumes "distinct (elem_nodes e)"
    and "\<forall>p \<in> set (elem_nodes e). p < length (mNodes m)"
    and "i < length (elem_nodes e)"
  shows "elastic_force_to_next_node m e i = first_endpoint_edge_force m e i
       \<and> (\<exists>m'. add_element_forces m e = Inr m'
            \<and> applied_force (mNodes m' ! (elem_nodes e ! i))
                = vadd (applied_force (mNodes m ! (elem_nodes e ! i)))
                    (vsub (first_endpoint_edge_force m e
                             ((i + length (elem_nodes e) - 1) mod length (elem_nodes e)))
                          (first_endpoint_edge_force m e i)))"
proof -
  let ?n = "length (elem_nodes e)"
  let ?forces = "map (elastic_force_to_next_node m e) [0..<?n]"
  let ?g = "\<lambda>k. vsub (?forces ! ((k + ?n - 1) mod ?n)) (?forces ! k)"
  let ?m' = "fold (\<lambda>k m'. AddAppliedForceContribution m' (elem_nodes e ! k) (?g k)) [0..<?n] m"
  have n: "0 < ?n" using assms(3) by auto
  have m': "add_element_forces m e = Inr ?m'"
    using n by (simp add: add_element_forces_def Let_def)
  have "applied_force (mNodes ?m' ! (elem_nodes e ! i))
       = vadd (applied_force (mNodes m ! (elem_nodes e ! i))) (?g i)"
    using fold_AddAppliedForce_nth [OF assms, of ?n ?g] assms(3) by simp
  moreover have "?g i = vsub (first_endpoint_edge_force m e ((i + ?n - 1) mod ?n))
                          (first_endpoint_edge_force m e i)"
    using assms(3) n by (simp add: elastic_force_first_endpoint)
  ultimately show ?thesis
    using m' elastic_force_first_endpoint by simp
qed

theorem membrane_force_first_endpoint_witness:
  "distinct (elem_nodes (mElements lateral_basal_mesh ! 0))
   \<and> elastic_force_to_next_node lateral_basal_mesh (mElements lateral_basal_mesh ! 0) 0
       = first_endpoint_edge_force lateral_basal_mesh (mElements lateral_basal_mesh ! 0) 0
   \<and> first_endpoint_edge_force lateral_basal_mesh (mElements lateral_basal_mesh ! 0) 0
       = (- (1 / 5), 0)"
proof -
  let ?e = "mElements lateral_basal_mesh ! 0"
  have d: "distinct (elem_nodes ?e)"
    by (simp add: lateral_basal_mesh_def plain_element_def)
  have r: "\<forall>p \<in> set (elem_nodes ?e). p < length (mNodes lateral_basal_mesh)"
    by (simp add: lateral_basal_mesh_def plain_element_def)
  have i: "0 < length (elem_nodes ?e)"
    by (simp add: lateral_basal_mesh_def plain_element_def)
  have v: "first_endpoint_edge_force lateral_basal_mesh ?e 0 = (- (1 / 5), 0)"
    by (simp add: first_endpoint_edge_force_def node_is_apical_or_basal_def edge_vector_def
        lateral_basal_mesh_def plain_element_def plain_node_def GetNodeLocation_def
        GetVectorFromAtoB_def periodic_component_def hooke_force_def norm_2_horizontal
        vscale_def)
  show ?thesis
    using d v membrane_force_first_endpoint [OF d r i] by simp
qed

theorem membrane_force_either_endpoint_counterexample:
  "node_is_apical_or_basal lateral_basal_mesh (mElements lateral_basal_mesh ! 0) 1
   \<and> elastic_force_to_next_node lateral_basal_mesh (mElements lateral_basal_mesh ! 0) 0
       = (- (1 / 5), 0)
   \<and> spec_edge_force lateral_basal_mesh (mElements lateral_basal_mesh ! 0) 0 = (1, 0)
   \<and> elastic_force_to_next_node lateral_basal_mesh (mElements lateral_basal_mesh ! 0) 0
       \<noteq> spec_edge_force lateral_basal_mesh (mElements lateral_basal_mesh ! 0) 0"
  by (simp add: elastic_force_to_next_node_def spec_edge_force_def node_is_apical_or_basal_def
      edge_vector_def lateral_basal_mesh_def plain_element_def plain_node_def
      GetNodeLocation_def GetVectorFromAtoB_def periodic_component_def hooke_force_def
      norm_2_horizontal vscale_def Let_def)

section \<open>Cell-cell interaction: results on the set-up\<close>

lemma initialize_node_elements:
  "mElements (initialize_node locs e pc ig p m) = mElements m"
  "length (mNodes (initialize_node locs e pc ig p m)) = length (mNodes m)"
  by (simp_all add: initialize_node_def add_to_node_attribute_def)

lemma initialize_node_other:
  assumes "j \<noteq> p"
  shows "mNodes (initialize_node locs e pc ig p m) ! j = mNodes m ! j"
  using assms by (simp add: initialize_node_def add_to_node_attribute_def)

lemma initialize_node_same:
  assumes "p < length (mNodes m)"
    and "a < length (node_attributes (mNodes m ! p))"
    and "locs = [a, b, c]" and "a \<noteq> b" and "a \<noteq> c" and "b \<noteq> c"
    and "b < length (node_attributes (mNodes m ! p))"
    and "c < length (node_attributes (mNodes m ! p))"
  shows "node_attributes (mNodes (initialize_node locs e 0 0 p m) ! p) ! a
           = node_attributes (mNodes m ! p) ! a + e"
    and "node_attributes (mNodes (initialize_node locs e 0 0 p m) ! p) ! b
           = node_attributes (mNodes m ! p) ! b"
    and "node_attributes (mNodes (initialize_node locs e 0 0 p m) ! p) ! c
           = node_attributes (mNodes m ! p) ! c"
    and "length (node_attributes (mNodes (initialize_node locs e 0 0 p m) ! p))
           = length (node_attributes (mNodes m ! p))"
  using assms by (simp_all add: initialize_node_def add_to_node_attribute_def)

lemma initialize_node_slots:
  assumes "slots_hold N a base m"
  shows "slots_hold N a (\<lambda>j. base j + (if j = p then e else 0))
           (initialize_node [a, a + 1, a + 2] e 0 0 p m)"
proof -
  let ?m = "initialize_node [a, a + 1, a + 2] e 0 0 p m"
  have N: "length (mNodes m) = N" using assms by (simp add: slots_hold_def)
  have old: "\<And>j. j < N \<Longrightarrow> length (node_attributes (mNodes m ! j)) = a + 3
               \<and> node_attributes (mNodes m ! j) ! a = base j
               \<and> node_attributes (mNodes m ! j) ! (a + 1) = 0
               \<and> node_attributes (mNodes m ! j) ! (a + 2) = 0"
    using assms by (simp add: slots_hold_def)
  have "\<forall>j < N. length (node_attributes (mNodes ?m ! j)) = a + 3
               \<and> node_attributes (mNodes ?m ! j) ! a = base j + (if j = p then e else 0)
               \<and> node_attributes (mNodes ?m ! j) ! (a + 1) = 0
               \<and> node_attributes (mNodes ?m ! j) ! (a + 2) = 0"
  proof (intro allI impI)
    fix j assume j: "j < N"
    show "length (node_attributes (mNodes ?m ! j)) = a + 3
               \<and> node_attributes (mNodes ?m ! j) ! a = base j + (if j = p then e else 0)
               \<and> node_attributes (mNodes ?m ! j) ! (a + 1) = 0
               \<and> node_attributes (mNodes ?m ! j) ! (a + 2) = 0"
    proof (cases "j = p")
      case True
      have p: "p < length (mNodes m)" using j True N by simp
      have l: "a < length (node_attributes (mNodes m ! p))"
              "a + 1 < length (node_attributes (mNodes m ! p))"
              "a + 2 < length (node_attributes (mNodes m ! p))"
        using old [OF j] True by simp_all
      show ?thesis
        using initialize_node_same [OF p l(1) refl _ _ _ l(2) l(3), of e] old [OF j] True
        by simp
    next
      case False
      then show ?thesis
        using initialize_node_other [OF False] old [OF j] by simp
    qed
  qed
  then show ?thesis
    using N by (simp add: slots_hold_def initialize_node_elements)
qed

lemma fold_initialize_node_slots:
  assumes "slots_hold N a base m"
  shows "slots_hold N a (\<lambda>j. base j + e * real (count_list ps j))
           (fold (initialize_node [a, a + 1, a + 2] e 0 0) ps m)"
  using assms
proof (induction ps arbitrary: m base)
  case Nil
  then show ?case by simp
next
  case (Cons p ps)
  have "slots_hold N a (\<lambda>j. (base j + (if j = p then e else 0)) + e * real (count_list ps j))
          (fold (initialize_node [a, a + 1, a + 2] e 0 0) ps
             (initialize_node [a, a + 1, a + 2] e 0 0 p m))"
    by (rule Cons.IH [OF initialize_node_slots [OF Cons.prems]])
  moreover have "(\<lambda>j. (base j + (if j = p then e else 0)) + e * real (count_list ps j))
      = (\<lambda>j. base j + e * real (count_list (p # ps) j))"
    by (rule ext) (simp add: algebra_simps)
  ultimately show ?case by simp
qed

lemma fold_initialize_node_elements:
  "mElements (fold (initialize_node locs e pc ig) ps m) = mElements m"
  by (induction ps arbitrary: m) (simp_all add: initialize_node_elements)

lemma fold_initialize_by_index:
  "fold (\<lambda>node_idx m'. initialize_node locs e pc ig
           (elem_nodes (mElements m' ! k) ! node_idx) m') idxs m
     = fold (initialize_node locs e pc ig)
         (map (\<lambda>node_idx. elem_nodes (mElements m ! k) ! node_idx) idxs) m"
proof (induction idxs arbitrary: m)
  case Nil
  then show ?case by simp
next
  case (Cons i idxs)
  show ?case
    by (simp add: Cons.IH initialize_node_elements)
qed

lemma initialize_element_slots:
  assumes "slots_hold N a base m" and "initialize_element [a, a + 1, a + 2] k m = Inr m'"
  shows "slots_hold N a (\<lambda>j. base j + real (count_list (elem_nodes (mElements m ! k)) j)) m'
       \<and> mElements m' = mElements m"
proof -
  let ?ps = "elem_nodes (mElements m ! k)"
  have "m' = fold (\<lambda>node_idx m'. initialize_node [a, a + 1, a + 2] 1 0 0
                     (elem_nodes (mElements m' ! k) ! node_idx) m') [0..<length ?ps] m"
    using assms(2)
    by (auto simp: initialize_element_def Let_def split: sum.splits)
  then have m': "m' = fold (initialize_node [a, a + 1, a + 2] 1 0 0) ?ps m"
    by (simp add: fold_initialize_by_index map_nth)
  show ?thesis
    using fold_initialize_node_slots [OF assms(1), of 1 ?ps]
    by (simp add: m' fold_initialize_node_elements)
qed

lemma InitializeProteinLevels_loop_slots:
  assumes "slots_hold N a base m"
    and "InitializeProteinLevels_loop [a, a + 1, a + 2] ks m = Inr m'"
  shows "slots_hold N a
           (\<lambda>j. base j
                 + real (count_list (concat (map (\<lambda>k. elem_nodes (mElements m ! k)) ks)) j)) m'
       \<and> mElements m' = mElements m"
  using assms
proof (induction ks arbitrary: m base)
  case Nil
  then show ?case by simp
next
  case (Cons k ks)
  from Cons.prems(2) obtain m1 where
    m1: "initialize_element [a, a + 1, a + 2] k m = Inr m1"
    and rest: "InitializeProteinLevels_loop [a, a + 1, a + 2] ks m1 = Inr m'"
    by (auto split: sum.splits)
  have s1: "slots_hold N a
              (\<lambda>j. base j + real (count_list (elem_nodes (mElements m ! k)) j)) m1"
    and e1: "mElements m1 = mElements m"
    using initialize_element_slots [OF Cons.prems(1) m1] by simp_all
  have "slots_hold N a
          (\<lambda>j. (base j + real (count_list (elem_nodes (mElements m ! k)) j))
                + real (count_list (concat (map (\<lambda>k. elem_nodes (mElements m1 ! k)) ks)) j)) m'
       \<and> mElements m' = mElements m1"
    by (rule Cons.IH [OF s1 rest])
  moreover have "(\<lambda>j. (base j + real (count_list (elem_nodes (mElements m ! k)) j))
                + real (count_list (concat (map (\<lambda>k. elem_nodes (mElements m1 ! k)) ks)) j))
     = (\<lambda>j. base j
             + real (count_list (concat (map (\<lambda>k. elem_nodes (mElements m ! k)) (k # ks))) j))"
    by (rule ext) (simp add: e1)
  ultimately show ?case by (simp add: e1)
qed

lemma protein_setup_slots:
  assumes "protein_setup m = Inr (locs, m')"
  shows "locs = [length (node_attributes (mNodes m ! 0)),
                 length (node_attributes (mNodes m ! 0)) + 1,
                 length (node_attributes (mNodes m ! 0)) + 2]
       \<and> slots_hold (length (mNodes m)) (length (node_attributes (mNodes m ! 0)))
           (\<lambda>j. real (node_occurrences m j)) m'"
proof -
  let ?a = "length (node_attributes (mNodes m ! 0))"
  let ?m1 = "m\<lparr> mNodes := map (AddNodeAttribute 0.0 \<circ> AddNodeAttribute 0.0
                                          \<circ> AddNodeAttribute 0.0) (mNodes m) \<rparr>"
  have u3: "map (\<lambda>protein_idx. ?a + protein_idx) [0..<3] = [?a, ?a + 1, ?a + 2]"
    by (simp add: upt_rec)
  have same: "\<forall>nd \<in> set (mNodes m). length (node_attributes nd) = ?a"
    using assms
    by (auto simp: protein_setup_def Let_def list_ex_iff split: if_splits)
  have locs: "locs = [?a, ?a + 1, ?a + 2]"
    using assms unfolding protein_setup_def Let_def u3
    by (auto split: if_splits sum.splits)
  have init: "InitializeProteinLevels_loop [?a, ?a + 1, ?a + 2] [0..<length (mElements m)] ?m1
                = Inr m'"
    using assms unfolding protein_setup_def Let_def u3 InitializeProteinLevels_def
    by (auto split: if_splits sum.splits)
  have s0: "slots_hold (length (mNodes m)) ?a (\<lambda>j. 0) ?m1"
    using same by (simp add: slots_hold_def AddNodeAttribute_def nth_append)
  have "slots_hold (length (mNodes m)) ?a
          (\<lambda>j. 0 + real (count_list
                  (concat (map (\<lambda>k. elem_nodes (mElements ?m1 ! k)) [0..<length (mElements m)])) j))
          m'"
    using InitializeProteinLevels_loop_slots [OF s0 init] by simp
  moreover have "map (\<lambda>k. elem_nodes (mElements ?m1 ! k)) [0..<length (mElements m)]
      = map elem_nodes (mElements m)"
  proof -
    have "map (\<lambda>k. elem_nodes (mElements ?m1 ! k)) [0..<length (mElements m)]
        = map elem_nodes (map (nth (mElements m)) [0..<length (mElements m)])"
      by simp
    then show ?thesis by (simp only: map_nth)
  qed
  ultimately show ?thesis
    using locs by (simp add: node_occurrences_def)
qed

text \<open>
  C5, as amended. After the one-time set-up of the cell-cell interaction force, every
  node that occurs once in the elements' node lists has E-cadherin attribute 1, whether
  its element is the membrane element or not (in general the attribute is the number of
  occurrences of the node); P-cadherin and Integrin attributes are 0 for all nodes.
\<close>

theorem protein_setup_levels:
  assumes "protein_setup m = Inr (locs, m')" and "j < length (mNodes m)"
  shows "node_attributes (mNodes m' ! j) ! (locs ! 0) = real (node_occurrences m j)
       \<and> (node_occurrences m j = 1 \<longrightarrow> node_attributes (mNodes m' ! j) ! (locs ! 0) = 1)
       \<and> node_attributes (mNodes m' ! j) ! (locs ! 1) = 0
       \<and> node_attributes (mNodes m' ! j) ! (locs ! 2) = 0"
  using protein_setup_slots [OF assms(1)] assms(2)
  by (simp add: slots_hold_def)

lemma protein_setup_membrane_and_cell:
  "protein_setup membrane_and_cell_mesh = Inr ([0, 1, 2], membrane_and_cell_mesh_set_up)"
  by (simp add: protein_setup_def membrane_and_cell_mesh_def membrane_and_cell_mesh_set_up_def
      plain_node_def plain_element_def InitializeProteinLevels_def initialize_element_def
      is_membrane_element_def UINT_MAX_def initialize_node_def add_to_node_attribute_def
      AddNodeAttribute_def Let_def upt_rec)

theorem protein_setup_levels_witness:
  "protein_setup membrane_and_cell_mesh = Inr ([0, 1, 2], membrane_and_cell_mesh_set_up)
   \<and> (2::nat) < length (mNodes membrane_and_cell_mesh)
   \<and> node_occurrences membrane_and_cell_mesh 2 = 1
   \<and> node_attributes (mNodes membrane_and_cell_mesh_set_up ! 2) ! ([0, 1, 2] ! 0) = 1
   \<and> node_attributes (mNodes membrane_and_cell_mesh_set_up ! 2) ! ([0, 1, 2] ! 1) = 0
   \<and> node_attributes (mNodes membrane_and_cell_mesh_set_up ! 2) ! ([0, 1, 2] ! 2) = 0"
proof -
  have j: "(2::nat) < length (mNodes membrane_and_cell_mesh)"
    by (simp add: membrane_and_cell_mesh_def)
  have o: "node_occurrences membrane_and_cell_mesh 2 = 1"
    by (simp add: node_occurrences_def membrane_and_cell_mesh_def plain_element_def)
  show ?thesis
    using j o protein_setup_membrane_and_cell
      protein_setup_levels [OF protein_setup_membrane_and_cell j]
    by blast
qed

theorem protein_setup_membrane_node_counterexample:
  "membrane_only_node membrane_and_cell_mesh 0
   \<and> protein_setup membrane_and_cell_mesh = Inr ([0, 1, 2], membrane_and_cell_mesh_set_up)
   \<and> node_attributes (mNodes membrane_and_cell_mesh_set_up ! 0) ! 0 = 1
   \<and> node_attributes (mNodes membrane_and_cell_mesh_set_up ! 0) ! 0 \<noteq> 0"
proof -
  have "membrane_only_node membrane_and_cell_mesh 0"
    by (simp add: membrane_only_node_def membrane_and_cell_mesh_def plain_element_def
        upt_rec)
  moreover have "node_attributes (mNodes membrane_and_cell_mesh_set_up ! 0) ! 0 = 1"
    by (simp add: membrane_and_cell_mesh_set_up_def membrane_and_cell_mesh_def)
  ultimately show ?thesis
    using protein_setup_membrane_and_cell by simp
qed

section \<open>Cell-cell interaction: results on the pair force\<close>







text \<open>Two coincident nodes of different cells: the distance is zero, the interaction test
  passes, and the forces are not numbers.\<close>

lemma coincident_pair_not_a_number:
  "interacting_pair_forces linear_force example_population coincident_cell_mesh 1 3
     = Inl NotANumber"
proof -
  have v: "GetVectorFromAtoB (location (mNodes coincident_cell_mesh ! 1))
             (location (mNodes coincident_cell_mesh ! 3)) = (0, 0)"
    by (simp add: coincident_cell_mesh_def two_cell_mesh_def plain_node_def
        GetVectorFromAtoB_def periodic_component_def)
  have s: "GetAverageNodeSpacingOfElement coincident_cell_mesh 0 False
             = Inr (1 / 20, coincident_cell_mesh)"
          "GetAverageNodeSpacingOfElement coincident_cell_mesh (Suc 0) False
             = Inr (1 / 20, coincident_cell_mesh)"
    by (simp_all add: GetAverageNodeSpacingOfElement_def coincident_cell_mesh_def
        two_cell_mesh_def plain_element_def)
  have c: "containing_elements (mNodes coincident_cell_mesh ! 1) = [0]"
          "containing_elements (mNodes coincident_cell_mesh ! 3) = [1]"
    by (simp_all add: coincident_cell_mesh_def two_cell_mesh_def plain_node_def)
  have n: "norm_2 (0, 0) = 0" by (simp add: norm_2_def)
  show ?thesis
    unfolding interacting_pair_forces_def Let_def v c
    by (simp add: s n pair_force_vectors_def linear_force_def example_population_def
        Let_def fdiv_def)
qed

section \<open>Element division: what a failed call leaves behind\<close>

lemma moved_within_refl: "moved_within e m m"
  by (simp add: moved_within_def)

lemma moved_within_trans:
  assumes "moved_within e m m1" and "moved_within e m1 m2"
  shows "moved_within e m m2"
proof -
  have l: "length (mNodes m1) = length (mNodes m)" "length (mNodes m2) = length (mNodes m1)"
    using assms by (simp_all add: moved_within_def)
  have "\<forall>j < length (mNodes m).
            mNodes m2 ! j = (mNodes m ! j)\<lparr> location := location (mNodes m2 ! j) \<rparr>
          \<and> (j \<notin> set (elem_nodes e) \<longrightarrow> mNodes m2 ! j = mNodes m ! j)"
  proof (intro allI impI)
    fix j assume j: "j < length (mNodes m)"
    have a: "mNodes m1 ! j = (mNodes m ! j)\<lparr> location := location (mNodes m1 ! j) \<rparr>"
      and a': "j \<notin> set (elem_nodes e) \<longrightarrow> mNodes m1 ! j = mNodes m ! j"
      using assms(1) j by (simp_all add: moved_within_def)
    have b: "mNodes m2 ! j = (mNodes m1 ! j)\<lparr> location := location (mNodes m2 ! j) \<rparr>"
      and b': "j \<notin> set (elem_nodes e) \<longrightarrow> mNodes m2 ! j = mNodes m1 ! j"
      using assms(2) j l by (simp_all add: moved_within_def)
    have "mNodes m2 ! j = (mNodes m ! j)\<lparr> location := location (mNodes m2 ! j) \<rparr>"
      by (subst b, subst a) simp
    then show "mNodes m2 ! j = (mNodes m ! j)\<lparr> location := location (mNodes m2 ! j) \<rparr>
          \<and> (j \<notin> set (elem_nodes e) \<longrightarrow> mNodes m2 ! j = mNodes m ! j)"
      using a' b' by simp
  qed
  then show ?thesis
    using assms l by (simp add: moved_within_def)
qed

lemma SetPoint_moved_within:
  assumes "p \<in> set (elem_nodes e)"
  shows "moved_within e m (SetPoint m p l)"
proof (cases "p < length (mNodes m)")
  case True
  have "\<forall>j < length (mNodes m).
          mNodes (SetPoint m p l) ! j
            = (mNodes m ! j)\<lparr> location := location (mNodes (SetPoint m p l) ! j) \<rparr>
        \<and> (j \<notin> set (elem_nodes e) \<longrightarrow> mNodes (SetPoint m p l) ! j = mNodes m ! j)"
  proof (intro allI impI)
    fix j assume "j < length (mNodes m)"
    then show "mNodes (SetPoint m p l) ! j
            = (mNodes m ! j)\<lparr> location := location (mNodes (SetPoint m p l) ! j) \<rparr>
        \<and> (j \<notin> set (elem_nodes e) \<longrightarrow> mNodes (SetPoint m p l) ! j = mNodes m ! j)"
      using True assms by (cases "j = p") (auto simp: SetPoint_def)
  qed
  then show ?thesis by (simp add: moved_within_def SetPoint_def)
next
  case False
  then have "SetPoint m p l = m"
    by (simp add: SetPoint_def list_update_beyond)
  then show ?thesis by (simp add: moved_within_refl)
qed

lemma snap_node_moved_within:
  assumes "i < length (elem_nodes e)"
  shows "moved_within e m (snap_node m e c up h i)"
  using assms by (simp add: snap_node_def Let_def SetPoint_moved_within)

lemma ring_search_hit_bound:
  assumes "ring_search sat nxt i stop = Some (Some k)" and "i < n" and "\<forall>j. nxt j < n"
  shows "k < n"
proof -
  have "i < n \<longrightarrow> (\<forall>j. nxt j < n) \<longrightarrow> (\<forall>k'. Some k = Some k' \<longrightarrow> k' < n)"
    by (rule ring_search.raw_induct
          [where P = "\<lambda>sat nxt i stop y. i < n \<longrightarrow> (\<forall>j. nxt j < n) \<longrightarrow> (\<forall>k'. y = Some k' \<longrightarrow> k' < n)",
           OF _ assms(1)])
       (auto split: if_splits)
  then show ?thesis using assms(2,3) by simp
qed

lemma ring_search_stop_at_once: "ring_search sat nxt stop stop = Some None"
  by (simp add: ring_search.simps)

lemma frontier_walk_moved_within:
  assumes "frontier_walk nxt m e c up h start stop = Some (m', v, flag)"
    and "start = stop \<or> start < length (elem_nodes e)"
    and "\<forall>j. nxt j < length (elem_nodes e)"
  shows "moved_within e m m'"
proof (cases "start = stop")
  case True
  then show ?thesis
    using assms(1) by (simp add: frontier_walk_def ring_search_stop_at_once moved_within_refl)
next
  case False
  then have s: "start < length (elem_nodes e)" using assms(2) by simp
  show ?thesis
  proof (cases "ring_search (\<lambda>i. \<bar>perpendicular_dist m e c up i\<bar> \<ge> h) nxt start stop")
    case None
    then show ?thesis using assms(1) by (simp add: frontier_walk_def)
  next
    case (Some r)
    show ?thesis
    proof (cases r)
      case None
      then show ?thesis
        using assms(1) Some by (simp add: frontier_walk_def moved_within_refl)
    next
      case (Some k)
      have "ring_search (\<lambda>i. \<bar>perpendicular_dist m e c up i\<bar> \<ge> h) nxt start stop
              = Some (Some k)"
        using \<open>ring_search _ nxt start stop = Some r\<close> Some by simp
      then have "k < length (elem_nodes e)"
        by (rule ring_search_hit_bound [OF _ s assms(3)])
      then show ?thesis
        using assms(1) \<open>ring_search _ nxt start stop = Some r\<close> Some
        by (auto simp: frontier_walk_def snap_node_moved_within)
    qed
  qed
qed

lemma frontier_walk_index:
  assumes "frontier_walk nxt m e c up h start stop = Some (m', v, flag)"
    and "start < n" and "\<forall>j. nxt j < n"
  shows "v < n"
proof -
  have "\<And>k. ring_search (\<lambda>i. \<bar>perpendicular_dist m e c up i\<bar> \<ge> h) nxt start stop = Some (Some k)
          \<Longrightarrow> k < n"
    by (rule ring_search_hit_bound [OF _ assms(2,3)])
  then show ?thesis
    using assms(1,2) by (auto simp: frontier_walk_def split: option.splits)
qed

lemma ring_step_bound:
  assumes "0 < n"
  shows "\<forall>j. ring_next n j < n" and "\<forall>j. ring_prev n j < n"
  using assms by (simp_all add: ring_next_def ring_prev_def)

lemma division_frontiers_moved_within:
  assumes "division_frontiers m e A B c up h = Some (m', r)" and "0 < length (elem_nodes e)"
  shows "moved_within e m m'"
proof -
  let ?n = "length (elem_nodes e)"
  note nx = ring_step_bound(1) [OF assms(2)] and pv = ring_step_bound(2) [OF assms(2)]
  have sa0: "(A + 1) mod ?n < ?n" and sb0: "(B + 1) mod ?n < ?n"
    using assms(2) by simp_all
  from assms(1) obtain m1 sa n1 where
    w1: "frontier_walk (ring_next ?n) m e c up h ((A + 1) mod ?n) B = Some (m1, sa, n1)"
    unfolding division_frontiers_def Let_def by (auto split: option.splits)
  have mw1: "moved_within e m m1"
    by (rule frontier_walk_moved_within [OF w1 disjI2 [OF sa0] nx])
  show ?thesis
  proof (cases "B \<noteq> sa \<and> \<not> B < ?n")
    case True
    then have "m' = m1"
      using assms(1) w1 unfolding division_frontiers_def Let_def by auto
    then show ?thesis using mw1 by simp
  next
    case ok1: False
    from assms(1) w1 ok1 obtain m2 ea n2 where
      w2: "frontier_walk (ring_prev ?n) m1 e c up h B sa = Some (m2, ea, n2)"
      unfolding division_frontiers_def Let_def by (auto split: option.splits)
    have "B = sa \<or> B < ?n" using ok1 by blast
    then have mw2: "moved_within e m1 m2"
      by (rule frontier_walk_moved_within [OF w2 _ pv])
    from assms(1) w1 ok1 w2 obtain m3 sb n3 where
      w3: "frontier_walk (ring_next ?n) m2 e c up h ((B + 1) mod ?n) A = Some (m3, sb, n3)"
      unfolding division_frontiers_def Let_def by (auto split: option.splits)
    have mw3: "moved_within e m2 m3"
      by (rule frontier_walk_moved_within [OF w3 disjI2 [OF sb0] nx])
    have upto3: "moved_within e m m3"
      using mw1 mw2 mw3 moved_within_trans by blast
    show ?thesis
    proof (cases "A \<noteq> sb \<and> \<not> A < ?n")
      case True
      then have "m' = m3"
        using assms(1) w1 ok1 w2 w3 unfolding division_frontiers_def Let_def by auto
      then show ?thesis using upto3 by simp
    next
      case ok3: False
      from assms(1) w1 ok1 w2 w3 ok3 obtain m4 eb n4 where
        w4: "frontier_walk (ring_prev ?n) m3 e c up h A sb = Some (m4, eb, n4)"
        and m': "m' = m4"
        unfolding division_frontiers_def Let_def by (auto split: option.splits if_splits)
      have "A = sb \<or> A < ?n" using ok3 by blast
      then have mw4: "moved_within e m3 m4"
        by (rule frontier_walk_moved_within [OF w4 _ pv])
      show ?thesis
        using upto3 mw4 m' moved_within_trans by blast
    qed
  qed
qed

lemma GetCentroidOfElement_error:
  "GetCentroidOfElement m index = Inl err \<Longrightarrow> err = AssertionFailed"
  by (auto simp: GetCentroidOfElement_def Let_def split: if_splits)

lemma update_fluid_sources_error:
  "update_fluid_sources m e idx = (m', Inl err) \<Longrightarrow> err \<noteq> DivisionSpacingError"
  by (auto simp: update_fluid_sources_def Let_def split: option.splits sum.splits
      dest: GetCentroidOfElement_error)

lemma finish_division_error:
  "finish_division k0 l0 m pe sa ea sb eb = Some (m', Inl err) \<Longrightarrow> err \<noteq> DivisionSpacingError"
  unfolding finish_division_def Let_def
  by (auto split: option.splits if_splits dest: update_fluid_sources_error)

text \<open>
  C3, as amended. If \<^verbatim>\<open>DivideElement\<close> fails with the division-spacing error, no node
  and no element has been added, and the mesh differs from the mesh before the call at
  most in the locations of nodes of the element being divided: a walk that did find
  its node has already moved it onto the half-spacing line when the error is thrown.
\<close>

theorem DivideElement_spacing_error_state:
  assumes "DivideElement k0 l0 m pe nodeAIndex nodeBIndex centroid axisOfDivision
             = Some (m', Inl DivisionSpacingError)"
  shows "length (mNodes m') = length (mNodes m)
       \<and> mElements m' = mElements m
       \<and> mElementFluidSources m' = mElementFluidSources m
       \<and> moved_within (mElements m ! pe) m m'"
proof -
  let ?e = "mElements m ! pe"
  from assms obtain spacing where sp: "mElementDivisionSpacing m = Some spacing"
    unfolding DivideElement_def by (auto split: option.splits)
  have n: "0 < length (elem_nodes ?e)"
    using assms sp unfolding DivideElement_def Let_def by (auto split: if_splits)
  let ?up = "unit_perpendicular axisOfDivision"
  from assms sp n obtain m4 r where
    df: "division_frontiers m ?e nodeAIndex nodeBIndex centroid ?up (0.5 * spacing) = Some (m4, r)"
    unfolding DivideElement_def Let_def by (auto split: option.splits)
  have "r = Inl DivisionSpacingError \<and> m4 = m'"
  proof (cases r)
    case (Inl err)
    then show ?thesis
      using assms sp n df unfolding DivideElement_def Let_def by auto
  next
    case (Inr idxs)
    then obtain sa ea sb eb where "idxs = (sa, ea, sb, eb)" by (cases idxs) auto
    then have "finish_division k0 l0 m4 pe sa ea sb eb = Some (m', Inl DivisionSpacingError)"
      using assms sp n df Inr unfolding DivideElement_def Let_def by auto
    then show ?thesis using finish_division_error by blast
  qed
  then have "moved_within ?e m m'"
    using division_frontiers_moved_within [OF df n] by simp
  then show ?thesis by (simp add: moved_within_def)
qed

lemma trapezoid_centroid:
  "GetCentroidOfElement trapezoid_mesh 0 = Inr (1 / 2, 1 / 2)"
  by (simp add: GetCentroidOfElement_def trapezoid_mesh_def plain_node_def plain_element_def
      UINT_MAX_def GetNodeLocation_def Let_def upt_rec GetVectorFromAtoB_def
      periodic_component_def copysign_def reduce_coordinate_def fmod_def)

lemma trapezoid_frontiers:
  "division_frontiers trapezoid_mesh (mElements trapezoid_mesh ! 0) (Suc 0) 3 (1 / 2, 1 / 2) (- 1, 0)
     (9 / 50) = Some (trapezoid_mesh_after, Inl DivisionSpacingError)"
  by (simp add: division_frontiers_def frontier_walk_def ring_search.simps ring_next_def
      ring_prev_def perpendicular_dist_def snap_node_def SetPoint_def GetNodeLocation_def
      trapezoid_mesh_def trapezoid_mesh_after_def plain_node_def plain_element_def
      GetVectorFromAtoB_def periodic_component_def inner_prod_def copysign_def vsub_def
      vscale_def Let_def)

lemma trapezoid_division:
  "DivideElement 1 (1 / 10) trapezoid_mesh 0 1 3 (1 / 2, 1 / 2) (0, 1)
     = Some (trapezoid_mesh_after, Inl DivisionSpacingError)"
proof -
  have s: "mElementDivisionSpacing trapezoid_mesh = Some (9 / 25)"
    and n: "length (elem_nodes (mElements trapezoid_mesh ! 0)) = 4"
    by (simp_all add: trapezoid_mesh_def plain_element_def)
  show ?thesis
    unfolding DivideElement_def Let_def s
    by (simp add: n unit_perpendicular_def norm_2_vertical trapezoid_frontiers)
qed

theorem DivideElement_spacing_error_state_witness:
  "DivideElement 1 (1 / 10) trapezoid_mesh 0 1 3 (1 / 2, 1 / 2) (0, 1)
     = Some (trapezoid_mesh_after, Inl DivisionSpacingError)
   \<and> length (mNodes trapezoid_mesh_after) = length (mNodes trapezoid_mesh)
   \<and> mElements trapezoid_mesh_after = mElements trapezoid_mesh
   \<and> moved_within (mElements trapezoid_mesh ! 0) trapezoid_mesh trapezoid_mesh_after"
  using trapezoid_division DivideElement_spacing_error_state [OF trapezoid_division]
  by simp

theorem DivideElement_spacing_error_counterexample:
  "DivideElement 1 (1 / 10) trapezoid_mesh 0 1 3 (1 / 2, 1 / 2) (0, 1)
     = Some (trapezoid_mesh_after, Inl DivisionSpacingError)
   \<and> location (mNodes trapezoid_mesh ! 2) = (29 / 100, 11 / 20)
   \<and> location (mNodes trapezoid_mesh_after ! 2) = (8 / 25, 11 / 20)
   \<and> trapezoid_mesh_after \<noteq> trapezoid_mesh"
proof -
  have a: "location (mNodes trapezoid_mesh ! 2) = (29 / 100, 11 / 20)"
    by (simp add: trapezoid_mesh_def plain_node_def)
  have b: "location (mNodes trapezoid_mesh_after ! 2) = (8 / 25, 11 / 20)"
    by (simp add: trapezoid_mesh_after_def plain_node_def)
  have "location (mNodes trapezoid_mesh_after ! 2) \<noteq> location (mNodes trapezoid_mesh ! 2)"
    unfolding a b by simp
  then have "trapezoid_mesh_after \<noteq> trapezoid_mesh" by auto
  then show ?thesis
    using trapezoid_division a b by simp
qed

section \<open>Element division: what a successful call adds\<close>

lemma moved_within_indices:
  assumes "moved_within e m m'"
  shows "length (mNodes m') = length (mNodes m)"
    and "mElements m' = mElements m"
    and "j < length (mNodes m) \<Longrightarrow> node_index (mNodes m' ! j) = node_index (mNodes m ! j)"
proof -
  show "length (mNodes m') = length (mNodes m)" and "mElements m' = mElements m"
    using assms by (simp_all add: moved_within_def)
  assume "j < length (mNodes m)"
  then have "mNodes m' ! j = (mNodes m ! j)\<lparr> location := location (mNodes m' ! j) \<rparr>"
    using assms by (simp add: moved_within_def)
  then have "node_index (mNodes m' ! j)
      = node_index ((mNodes m ! j)\<lparr> location := location (mNodes m' ! j) \<rparr>)"
    by simp
  then show "node_index (mNodes m' ! j) = node_index (mNodes m ! j)" by simp
qed

lemma fold_SetPoint_moved_within:
  assumes "\<forall>k \<in> set ks. k < length (elem_nodes e)"
  shows "moved_within e m
           (fold (\<lambda>node_idx m'. SetPoint m' (elem_nodes e ! node_idx) (ls ! node_idx)) ks m)"
  using assms
proof (induction ks arbitrary: m)
  case Nil
  then show ?case by (simp add: moved_within_refl)
next
  case (Cons k ks)
  have "elem_nodes e ! k \<in> set (elem_nodes e)" using Cons.prems by simp
  then have "moved_within e m (SetPoint m (elem_nodes e ! k) (ls ! k))"
    by (rule SetPoint_moved_within)
  moreover have "moved_within e (SetPoint m (elem_nodes e ! k) (ls ! k))
      (fold (\<lambda>node_idx m'. SetPoint m' (elem_nodes e ! node_idx) (ls ! node_idx)) ks
         (SetPoint m (elem_nodes e ! k) (ls ! k)))"
    using Cons.IH Cons.prems by simp
  ultimately show ?case
    using moved_within_trans by fastforce
qed

lemma move_daughter_a_moved_within:
  "moved_within e m (move_daughter_a m e ls)"
  unfolding move_daughter_a_def
  by (rule fold_SetPoint_moved_within) simp





lemma create_daughter_b_nodes_upto:
  "mNodes (fold (\<lambda>node_idx m'.
             m'\<lparr> mNodes := mNodes m' @ [new_node (length (mNodes m')) (ls ! node_idx)] \<rparr>)
           [0..<n] m)
     = mNodes m @ map (\<lambda>k. new_node (length (mNodes m) + k) (ls ! k)) [0..<n]
   \<and> mElements (fold (\<lambda>node_idx m'.
             m'\<lparr> mNodes := mNodes m' @ [new_node (length (mNodes m')) (ls ! node_idx)] \<rparr>)
           [0..<n] m) = mElements m"
  by (induction n) simp_all

lemma create_daughter_b_nodes_result:
  "mNodes (create_daughter_b_nodes m ls n)
     = mNodes m @ map (\<lambda>k. new_node (length (mNodes m) + k) (ls ! k)) [0..<n]"
  "mElements (create_daughter_b_nodes m ls n) = mElements m"
  using create_daughter_b_nodes_upto [where ls = ls and n = n and m = m]
  by (simp_all add: create_daughter_b_nodes_def)

text \<open>Meshes with the same elements and the same nodes up to fields other than the
  index.\<close>

lemma copy_node_indices:
  "length (mNodes (copy_node m p q)) = length (mNodes m)"
  "mElements (copy_node m p q) = mElements m"
  "node_index (mNodes (copy_node m p q) ! j) = node_index (mNodes m ! j)"
  "location (mNodes (copy_node m p q) ! j) = location (mNodes m ! j)"
proof -
  show "length (mNodes (copy_node m p q)) = length (mNodes m)"
    and "mElements (copy_node m p q) = mElements m"
    by (simp_all add: copy_node_def)
  have "node_index (mNodes (copy_node m p q) ! j) = node_index (mNodes m ! j)
      \<and> location (mNodes (copy_node m p q) ! j) = location (mNodes m ! j)"
  proof (cases "p < length (mNodes m)")
    case True
    then show ?thesis by (cases "j = p") (simp_all add: copy_node_def)
  next
    case False
    then show ?thesis by (simp add: copy_node_def list_update_beyond)
  qed
  then show "node_index (mNodes (copy_node m p q) ! j) = node_index (mNodes m ! j)"
    and "location (mNodes (copy_node m p q) ! j) = location (mNodes m ! j)"
    by simp_all
qed

lemma copy_node_attributes_indices:
  "length (mNodes (copy_node_attributes m e vec)) = length (mNodes m)
   \<and> mElements (copy_node_attributes m e vec) = mElements m
   \<and> (\<forall>j. node_index (mNodes (copy_node_attributes m e vec) ! j) = node_index (mNodes m ! j)
          \<and> location (mNodes (copy_node_attributes m e vec) ! j) = location (mNodes m ! j))"
proof -
  have "length (mNodes (fold (\<lambda>node_idx m'. copy_node m' (vec ! node_idx)
                                  (elem_nodes e ! node_idx)) ks m)) = length (mNodes m)
   \<and> mElements (fold (\<lambda>node_idx m'. copy_node m' (vec ! node_idx)
                                  (elem_nodes e ! node_idx)) ks m) = mElements m
   \<and> (\<forall>j. node_index (mNodes (fold (\<lambda>node_idx m'. copy_node m' (vec ! node_idx)
                                  (elem_nodes e ! node_idx)) ks m) ! j)
            = node_index (mNodes m ! j)
          \<and> location (mNodes (fold (\<lambda>node_idx m'. copy_node m' (vec ! node_idx)
                                  (elem_nodes e ! node_idx)) ks m) ! j)
            = location (mNodes m ! j))" for ks
    by (induction ks arbitrary: m) (simp_all add: copy_node_indices)
  then show ?thesis by (simp add: copy_node_attributes_def)
qed









subsection \<open>The division of the rectangle, step by step\<close>

lemma upt_0_8: "[0..<8] = [0, 1, 2, 3, 4, 5, 6, 7 :: nat]"
  by code_simp

lemma upt_8_16: "[8..<16] = [8, 9, 10, 11, 12, 13, 14, 15 :: nat]"
  by code_simp

lemma rectangle_frontiers:
  "division_frontiers rectangle_mesh (mElements rectangle_mesh ! 0) 0 4 (1 / 2, 1 / 2) (- 1, 0)
     (1 / 20) = Some (rectangle_mesh_snapped, Inr (1, 4, 5, 0))"
  by (simp add: division_frontiers_def frontier_walk_def ring_search.simps ring_next_def
      ring_prev_def perpendicular_dist_def snap_node_def SetPoint_def GetNodeLocation_def
      rectangle_mesh_def rectangle_mesh_snapped_def plain_node_def plain_element_def
      GetVectorFromAtoB_def periodic_component_def inner_prod_def copysign_def vsub_def
      vscale_def Let_def)

lemma rectangle_stencil_a:
  "daughter_stencil rectangle_mesh_snapped (mElements rectangle_mesh_snapped ! 0) 1 4
     = Some [(11 / 20, 2 / 5), (7 / 10, 2 / 5), (7 / 10, 3 / 5), (11 / 20, 3 / 5)]"
  by (simp add: daughter_stencil_def ring_collect.simps ring_next_def GetNodeLocation_def
      rectangle_mesh_snapped_def rectangle_mesh_def plain_node_def plain_element_def Let_def)

lemma rectangle_stencil_b:
  "daughter_stencil rectangle_mesh_snapped (mElements rectangle_mesh_snapped ! 0) 5 0
     = Some [(9 / 20, 3 / 5), (3 / 10, 3 / 5), (3 / 10, 2 / 5), (9 / 20, 2 / 5)]"
  by (simp add: daughter_stencil_def ring_collect.simps ring_next_def GetNodeLocation_def
      rectangle_mesh_snapped_def rectangle_mesh_def plain_node_def plain_element_def Let_def)

lemma rectangle_resample_a:
  "resample_stencil [(11 / 20, 2 / 5), (7 / 10, 2 / 5), (7 / 10, 3 / 5), (11 / 20, 3 / 5)] 8
     = Some [(11 / 20, 2 / 5), (51 / 80, 2 / 5), (7 / 10, 17 / 40), (7 / 10, 41 / 80),
             (7 / 10, 3 / 5), (49 / 80, 3 / 5), (11 / 20, 23 / 40), (11 / 20, 39 / 80)]"
  by (simp add: resample_stencil_def cumulative_distances_def upt_rec GetVectorFromAtoB_def
      periodic_component_def norm_2_horizontal norm_2_vertical Let_def vadd_def vscale_def)

lemma rectangle_resample_b:
  "resample_stencil [(9 / 20, 3 / 5), (3 / 10, 3 / 5), (3 / 10, 2 / 5), (9 / 20, 2 / 5)] 8
     = Some [(9 / 20, 3 / 5), (29 / 80, 3 / 5), (3 / 10, 23 / 40), (3 / 10, 39 / 80),
             (3 / 10, 2 / 5), (31 / 80, 2 / 5), (9 / 20, 17 / 40), (9 / 20, 41 / 80)]"
  by (simp add: resample_stencil_def cumulative_distances_def upt_rec GetVectorFromAtoB_def
      periodic_component_def norm_2_horizontal norm_2_vertical Let_def vadd_def vscale_def)

lemma rectangle_daughters:
  "add_daughter_b_element 1 (1 / 10)
     (copy_node_attributes
        (create_daughter_b_nodes
           (move_daughter_a rectangle_mesh_snapped (mElements rectangle_mesh_snapped ! 0)
              [(11 / 20, 2 / 5), (51 / 80, 2 / 5), (7 / 10, 17 / 40), (7 / 10, 41 / 80),
               (7 / 10, 3 / 5), (49 / 80, 3 / 5), (11 / 20, 23 / 40), (11 / 20, 39 / 80)])
           [(9 / 20, 3 / 5), (29 / 80, 3 / 5), (3 / 10, 23 / 40), (3 / 10, 39 / 80),
            (3 / 10, 2 / 5), (31 / 80, 2 / 5), (9 / 20, 17 / 40), (9 / 20, 41 / 80)] 8)
        (mElements rectangle_mesh_snapped ! 0) [8, 9, 10, 11, 12, 13, 14, 15])
     (mElements rectangle_mesh_snapped ! 0) [8, 9, 10, 11, 12, 13, 14, 15]
   = rectangle_mesh_daughters"
  by (simp add: move_daughter_a_def create_daughter_b_nodes_def copy_node_attributes_def
      copy_node_def add_daughter_b_element_def RegisterWithNodes_def AddElement_def
      new_node_def SetPoint_def rectangle_mesh_snapped_def rectangle_mesh_def
      rectangle_mesh_daughters_def rectangle_mesh_divided_def plain_node_def
      plain_element_def Let_def upt_0_8)

lemma rectangle_daughter_centroids:
  "GetCentroidOfElement rectangle_mesh_daughters 0 = Inr (5 / 8, 1 / 2)"
  "GetCentroidOfElement
     (set_source_location rectangle_mesh_daughters 0 (5 / 8, 1 / 2)) 1 = Inr (3 / 8, 1 / 2)"
  by (simp_all add: GetCentroidOfElement_def set_source_location_def rectangle_mesh_daughters_def
      rectangle_mesh_divided_def plain_node_def plain_element_def UINT_MAX_def
      GetNodeLocation_def Let_def upt_0_8 GetVectorFromAtoB_def periodic_component_def
      copysign_def reduce_coordinate_def fmod_def)

lemma rectangle_sources:
  "update_fluid_sources rectangle_mesh_daughters (mElements rectangle_mesh_daughters ! 0) 1
     = (rectangle_mesh_divided, Inr 1)"
proof -
  have e: "fluid_source (mElements rectangle_mesh_daughters ! 0) = Some 0"
          "elem_index (mElements rectangle_mesh_daughters ! 0) = 0"
    by (simp_all add: rectangle_mesh_daughters_def plain_element_def)
  have "add_element_source (set_source_location rectangle_mesh_daughters 0 (5 / 8, 1 / 2))
          1 (3 / 8, 1 / 2) = rectangle_mesh_divided"
    by (simp add: add_element_source_def set_source_location_def rectangle_mesh_daughters_def
        rectangle_mesh_divided_def plain_element_def plain_source_def Let_def)
  then show ?thesis
    unfolding update_fluid_sources_def e option.case rectangle_daughter_centroids sum.case
      Let_def
    by (simp only:)
qed

lemma rectangle_finish:
  "finish_division 1 (1 / 10) rectangle_mesh_snapped 0 1 4 5 0
     = Some (rectangle_mesh_divided, Inr 1)"
proof -
  let ?e = "mElements rectangle_mesh_snapped ! 0"
  have n: "length (elem_nodes ?e) = 8"
    by (simp add: rectangle_mesh_snapped_def rectangle_mesh_def plain_element_def)
  have mv: "moved_within ?e rectangle_mesh_snapped (move_daughter_a rectangle_mesh_snapped ?e ls)"
    for ls by (rule move_daughter_a_moved_within)
  have l: "length (mNodes (move_daughter_a rectangle_mesh_snapped ?e ls)) = 8" for ls
    using moved_within_indices(1) [OF mv [of ls]] by (simp add: rectangle_mesh_snapped_def)
  have le: "length (mElements (copy_node_attributes
              (create_daughter_b_nodes (move_daughter_a rectangle_mesh_snapped ?e ls) ls' k)
              e' vec)) = 1" for ls ls' k e' vec
    using copy_node_attributes_indices
            [where m = "create_daughter_b_nodes (move_daughter_a rectangle_mesh_snapped ?e ls) ls' k"
               and e = e' and vec = vec]
          create_daughter_b_nodes_result(2)
            [where m = "move_daughter_a rectangle_mesh_snapped ?e ls" and ls = ls' and n = k]
          moved_within_indices(2) [OF mv [of ls]]
    by (simp add: rectangle_mesh_snapped_def rectangle_mesh_def)
  have v: "[(8::nat)..<8 + 8] = [8, 9, 10, 11, 12, 13, 14, 15]"
    using upt_8_16 by simp
  show ?thesis
    unfolding finish_division_def Let_def n rectangle_stencil_a rectangle_stencil_b option.case
      rectangle_resample_a rectangle_resample_b l le v rectangle_daughters rectangle_sources
    by simp
qed

lemma rectangle_division:
  "DivideElement 1 (1 / 10) rectangle_mesh 0 0 4 (1 / 2, 1 / 2) (0, 1)
     = Some (rectangle_mesh_divided, Inr 1)"
proof -
  have s: "mElementDivisionSpacing rectangle_mesh = Some (1 / 10)"
    and n: "length (elem_nodes (mElements rectangle_mesh ! 0)) = 8"
    by (simp_all add: rectangle_mesh_def plain_element_def)
  show ?thesis
    unfolding DivideElement_def Let_def s
    by (simp del: One_nat_def
          add: n unit_perpendicular_def norm_2_vertical rectangle_frontiers rectangle_finish)
qed


section \<open>Element division from its caller\<close>

text \<open>The two divisions above are what \<^verbatim>\<open>DivideElementAlongGivenAxis\<close> does for the
  vertical axis: it finds the centroid \<open>(0.5, 0.5)\<close> and the crossing edges, and calls
  \<^verbatim>\<open>DivideElement\<close> with them.\<close>

lemma rectangle_centroid:
  "GetCentroidOfElement rectangle_mesh 0 = Inr (1 / 2, 1 / 2)"
  by (simp add: GetCentroidOfElement_def rectangle_mesh_def plain_node_def plain_element_def
      UINT_MAX_def GetNodeLocation_def Let_def upt_0_8 GetVectorFromAtoB_def
      periodic_component_def copysign_def reduce_coordinate_def fmod_def)

lemma trapezoid_along_axis:
  "DivideElementAlongGivenAxis 1 (1 / 10) trapezoid_mesh 0 (0, 1)
     = Some (trapezoid_mesh_after, Inl DivisionSpacingError)"
proof -
  have e: "elem_index (mElements trapezoid_mesh ! 0) = 0"
          "length (elem_nodes (mElements trapezoid_mesh ! 0)) = 4"
    by (simp_all add: trapezoid_mesh_def plain_element_def)
  have u: "[0..<4] = [0, 1, 2, 3 :: nat]" by code_simp
  have c: "fst (fold (crossing_step trapezoid_mesh (mElements trapezoid_mesh ! 0) (1 / 2, 1 / 2)
                        (- snd (0 :: real, 1 :: real), fst (0 :: real, 1 :: real)))
                  [0, 1, 2, 3]
                  ([], is_node_on_left trapezoid_mesh (mElements trapezoid_mesh ! 0)
                         (1 / 2, 1 / 2)
                         (- snd (0 :: real, 1 :: real), fst (0 :: real, 1 :: real)) 0))
             = [1, 3]"
    by (simp add: is_node_on_left_def GetNodeLocation_def trapezoid_mesh_def plain_node_def
        plain_element_def GetVectorFromAtoB_def periodic_component_def inner_prod_def Let_def)
  have l: "GetNodeLocalIndex trapezoid_mesh (mElements trapezoid_mesh ! 0) 1 = 1"
          "GetNodeLocalIndex trapezoid_mesh (mElements trapezoid_mesh ! 0) 3 = 3"
    by (simp_all add: GetNodeLocalIndex_def GetNodeGlobalIndex_def trapezoid_mesh_def
        plain_node_def plain_element_def u)
  have i: "[1, 3 :: nat] ! 0 = 1" "[1, 3 :: nat] ! 1 = 3" "length [1, 3 :: nat] = 2"
    by simp_all
  show ?thesis
    unfolding DivideElementAlongGivenAxis_def Let_def e trapezoid_centroid sum.case u c
    by (simp del: One_nat_def add: i l trapezoid_division)
qed

lemma rectangle_along_axis:
  "DivideElementAlongGivenAxis 1 (1 / 10) rectangle_mesh 0 (0, 1)
     = Some (rectangle_mesh_divided, Inr 1)"
proof -
  have e: "elem_index (mElements rectangle_mesh ! 0) = 0"
          "length (elem_nodes (mElements rectangle_mesh ! 0)) = 8"
    by (simp_all add: rectangle_mesh_def plain_element_def)
  have c: "fst (fold (crossing_step rectangle_mesh (mElements rectangle_mesh ! 0) (1 / 2, 1 / 2)
                        (- snd (0 :: real, 1 :: real), fst (0 :: real, 1 :: real)))
                  [0, 1, 2, 3, 4, 5, 6, 7]
                  ([], is_node_on_left rectangle_mesh (mElements rectangle_mesh ! 0)
                         (1 / 2, 1 / 2)
                         (- snd (0 :: real, 1 :: real), fst (0 :: real, 1 :: real)) 0))
             = [0, 4]"
    by (simp add: is_node_on_left_def GetNodeLocation_def rectangle_mesh_def plain_node_def
        plain_element_def GetVectorFromAtoB_def periodic_component_def inner_prod_def Let_def)
  have l: "GetNodeLocalIndex rectangle_mesh (mElements rectangle_mesh ! 0) 0 = 0"
          "GetNodeLocalIndex rectangle_mesh (mElements rectangle_mesh ! 0) 4 = 4"
    by (simp_all add: GetNodeLocalIndex_def GetNodeGlobalIndex_def rectangle_mesh_def
        plain_node_def plain_element_def upt_0_8)
  have i: "[0, 4 :: nat] ! 0 = 0" "[0, 4 :: nat] ! 1 = 4" "length [0, 4 :: nat] = 2"
    by simp_all
  show ?thesis
    unfolding DivideElementAlongGivenAxis_def Let_def e rectangle_centroid sum.case upt_0_8 c
    by (simp del: One_nat_def add: i l rectangle_division)
qed

end
